(* ===== verification/C_Prelude.thy ===== *)
theory C_Prelude
  imports Main "HOL-Library.Word"
begin

text \<open>
  What the components share: the names of the C integer types, the error numbers the
  sources use, the outcome of a call into the operating system, block moves in an array,
  and the facts on words, lists and prefixes that the component proofs rest on.
\<close>

unbundle bit_operations_syntax

text \<open>
  Definitions a concrete run is evaluated with: reading numbers, opening a crate, writing registers
  and text, and the codes of the keys. Each is filled by the theory that declares the operations.
\<close>

named_theorems num_eval
named_theorems open_eval
named_theorems cli_eval
named_theorems key_eval

section \<open>C integers and error numbers\<close>

type_synonym u8 = "8 word"
type_synonym u16 = "16 word"
type_synonym u32 = "32 word"
type_synonym u64 = "64 word"

text \<open>
  Error numbers, with the values of the Linux ABI. A function with ``standard success''
  returns 0 or the negated error number, so they are integers here as they are in C.
\<close>

abbreviation EPERM :: int where "EPERM \<equiv> 1"
abbreviation ENOENT :: int where "ENOENT \<equiv> 2"
abbreviation EINTR :: int where "EINTR \<equiv> 4"
abbreviation ENOMEM :: int where "ENOMEM \<equiv> 12"
abbreviation EINVAL :: int where "EINVAL \<equiv> 22"
abbreviation EPIPE :: int where "EPIPE \<equiv> 32"
abbreviation ERANGE :: int where "ERANGE \<equiv> 34"
abbreviation EBADMSG :: int where "EBADMSG \<equiv> 74"
abbreviation EBADFD :: int where "EBADFD \<equiv> 77"
abbreviation EADDRINUSE :: int where "EADDRINUSE \<equiv> 98"
abbreviation ECONNRESET :: int where "ECONNRESET \<equiv> 104"

section \<open>Outcomes\<close>

text \<open>
  A call ends normally, waits for an input that never comes, ends the process with
  \<open>exit\<close>, or, for loops whose end depends on the environment, runs out of fuel.
\<close>

datatype 'a outcome = Done 'a | Blocked | Exit int | NoFuel

primrec obind :: "'a outcome \<Rightarrow> ('a \<Rightarrow> 'b outcome) \<Rightarrow> 'b outcome" where
  "obind (Done x) f = f x"
| "obind Blocked f = Blocked"
| "obind (Exit c) f = Exit c"
| "obind NoFuel f = NoFuel"

lemma obind_eq_Done: "obind m f = Done y \<longleftrightarrow> (\<exists>x. m = Done x \<and> f x = Done y)"
  by (cases m) auto

lemma obind_eq_Exit: "obind m f = Exit c \<longleftrightarrow> m = Exit c \<or> (\<exists>x. m = Done x \<and> f x = Exit c)"
  by (cases m) auto

lemma obind_eq_NoFuel: "obind m f = NoFuel \<longleftrightarrow> m = NoFuel \<or> (\<exists>x. m = Done x \<and> f x = NoFuel)"
  by (cases m) auto

lemma obind_Done_elim:
  assumes "obind m f = Done y"
  obtains x where "m = Done x" and "f x = Done y"
  using assms by (cases m) auto

section \<open>Arrays\<close>

text \<open>\<open>memmove\<close> within one array, counted in elements: \<open>n\<close> elements from \<open>src\<close> to \<open>dst\<close>.\<close>

definition memmove :: "'a list \<Rightarrow> nat \<Rightarrow> nat \<Rightarrow> nat \<Rightarrow> 'a list" where
  "memmove xs dst src n = take dst xs @ take n (drop src xs) @ drop (dst + n) xs"

lemma length_memmove [simp]:
  "dst \<le> src \<Longrightarrow> src + n \<le> length xs \<Longrightarrow> length (memmove xs dst src n) = length xs"
  by (simp add: memmove_def)

lemma memmove_nth:
  assumes "dst \<le> src" "src + n \<le> length xs" "k < length xs"
  shows "memmove xs dst src n ! k =
    (if dst \<le> k \<and> k < dst + n then xs ! (src + (k - dst)) else xs ! k)"
  using assms by (auto simp: memmove_def nth_append)

section \<open>Prefixes and first matches\<close>

lemma takeWhile_drop_less:
  "i < length xs \<Longrightarrow> P (xs ! i) \<Longrightarrow>
    takeWhile P (drop i xs) = xs ! i # takeWhile P (drop (Suc i) xs)"
  by (simp flip: Cons_nth_drop_Suc)

lemma takeWhile_drop_stop:
  "\<not> (i < length xs \<and> P (xs ! i)) \<Longrightarrow> takeWhile P (drop i xs) = []"
  by (cases "i < length xs") (auto simp flip: Cons_nth_drop_Suc)

lemma find_Some_first:
  "List.find P xs = Some x \<longleftrightarrow>
    (\<exists>i<length xs. xs ! i = x \<and> P x \<and> (\<forall>j<i. \<not> P (xs ! j)))"
  by (auto simp: find_Some_iff)

lemma find_append:
  "List.find P (xs @ ys) =
    (case List.find P xs of Some x \<Rightarrow> Some x | None \<Rightarrow> List.find P ys)"
  by (induction xs) auto

lemma find_in_set: "List.find P xs = Some x \<Longrightarrow> x \<in> set xs \<and> P x"
  by (induction xs) (auto split: if_splits)

lemma find_filter_None:
  "List.find P xs = None \<Longrightarrow> List.find P (filter Q xs) = None"
  by (induction xs) (auto split: if_splits)

lemma find_filter_kept:
  "List.find P xs = Some x \<Longrightarrow> Q x \<Longrightarrow> List.find P (filter Q xs) = Some x"
  by (induction xs) (auto split: if_splits)

text \<open>A scan downwards stops at the largest index that satisfies the test.\<close>

lemma find_rev_upt:
  "List.find P (rev [a..<b]) = Some i \<longleftrightarrow>
    a \<le> i \<and> i < b \<and> P i \<and> (\<forall>j. i < j \<and> j < b \<longrightarrow> \<not> P j)"
proof (induction b)
  case (Suc b)
  show ?case
  proof (cases "a \<le> b")
    case True
    with Suc show ?thesis by (auto simp: less_Suc_eq)
  next
    case False
    then show ?thesis by auto
  qed
qed simp

section \<open>Words\<close>

text \<open>A mask test \<open>(x & y) == y\<close> is bitwise inclusion.\<close>

lemma and_eq_right_iff:
  fixes x y :: "'a::len word"
  shows "x AND y = y \<longleftrightarrow> (\<forall>n. bit y n \<longrightarrow> bit x n)"
  by (auto simp: bit_eq_iff bit_and_iff dest: bit_imp_le_length)

lemma and_eq_0_iff:
  fixes x y :: "'a::len word"
  shows "x AND y = 0 \<longleftrightarrow> (\<forall>n. bit y n \<longrightarrow> \<not> bit x n)"
  by (auto simp: bit_eq_iff bit_and_iff dest: bit_imp_le_length)

lemma word_neq_0_bit:
  fixes x :: "'a::len word"
  shows "x \<noteq> 0 \<longleftrightarrow> (\<exists>n. bit x n)"
  by (auto simp: bit_eq_iff dest: bit_imp_le_length)

text \<open>Testing one bit: \<open>x & (1 << n)\<close>; the simplifier writes \<open>push_bit n 1\<close> as a power of two.\<close>

lemma and_exp_eq_0_iff:
  fixes x :: "'a::len word"
  shows "x AND 2 ^ n = 0 \<longleftrightarrow> \<not> bit x n"
  by (auto simp: and_eq_0_iff bit_exp_iff dest: bit_imp_le_length)

text \<open>Quantifiers over the bits that are set range over the width of the word.\<close>

lemma u8_all_bits: "(\<forall>n. bit (x :: u8) n \<longrightarrow> P n) \<longleftrightarrow> (\<forall>n<8. bit x n \<longrightarrow> P n)"
  and u16_all_bits: "(\<forall>n. bit (y :: u16) n \<longrightarrow> P n) \<longleftrightarrow> (\<forall>n<16. bit y n \<longrightarrow> P n)"
  and u32_all_bits: "(\<forall>n. bit (z :: u32) n \<longrightarrow> P n) \<longleftrightarrow> (\<forall>n<32. bit z n \<longrightarrow> P n)"
  using bit_imp_le_length [of x] bit_imp_le_length [of y] bit_imp_le_length [of z] by auto

lemma ucast_or:
  fixes x y :: "'a::len word"
  shows "(ucast (x OR y) :: 'b::len word) = ucast x OR ucast y"
  by (auto simp: bit_eq_iff bit_simps)

section \<open>Interfaces\<close>

text \<open>
  A program that executes a list of commands, each of which may fail (\<open>None\<close>): the browser mode and
  the buffer list are both run this way. \<open>guarded_run\<close> adds the contract of the single commands, an
  invariant that the permitted ones keep and under which none fails.
\<close>

locale command_run =
  fixes exec :: "'op \<Rightarrow> 's \<Rightarrow> 's option"
    and run :: "'op list \<Rightarrow> 's \<Rightarrow> 's option"
  assumes run_Nil: "run [] s = Some s"
    and run_Cons: "run (op # ops) s = Option.bind (exec op s) (run ops)"
begin

lemma run_append: "run (xs @ ys) s = Option.bind (run xs s) (run ys)"
proof (induction xs arbitrary: s)
  case (Cons op xs)
  then show ?case by (cases "exec op s") (simp_all add: run_Cons)
qed (simp add: run_Nil)

lemma run_prefix: "run (xs @ ys) s = Some t \<Longrightarrow> \<exists>r. run xs s = Some r \<and> run ys r = Some t"
  by (simp add: run_append bind_eq_Some_conv)

end

locale guarded_run = command_run exec run
  for exec :: "'op \<Rightarrow> 's \<Rightarrow> 's option" and run :: "'op list \<Rightarrow> 's \<Rightarrow> 's option" +
  fixes ok :: "'op \<Rightarrow> bool"
    and inv :: "'s \<Rightarrow> bool"
  assumes exec_inv: "inv s \<Longrightarrow> ok op \<Longrightarrow> \<exists>s'. exec op s = Some s' \<and> inv s'"
begin

lemma run_inv:
  assumes "inv s" "list_all ok ops"
  shows "\<exists>s'. run ops s = Some s' \<and> inv s'"
  using assms
proof (induction ops arbitrary: s)
  case (Cons op ops)
  then obtain s1 where "exec op s = Some s1" "inv s1" using exec_inv [of s op] by auto
  then show ?case using Cons by (simp add: run_Cons)
qed (simp add: run_Nil)

lemma run_prefix_inv:
  assumes "inv s" "list_all ok (xs @ ys)"
  shows "\<exists>r t. run xs s = Some r \<and> inv r \<and> run ys r = Some t \<and> inv t"
proof -
  have "list_all ok xs" "list_all ok ys" using assms(2) by simp_all
  then show ?thesis using run_inv [OF assms(1)] run_inv by blast
qed

end

text \<open>
  A value stored in a part of a buffer, and two values whose parts do not overlap: the layout of the
  messages between the clients and the server.
\<close>

locale field_store =
  fixes valid :: "'b \<Rightarrow> bool"
    and get :: "'b \<Rightarrow> 'v"
    and put :: "'b \<Rightarrow> 'v \<Rightarrow> 'b"
  assumes put_valid: "valid b \<Longrightarrow> valid (put b v)"
    and get_put: "valid b \<Longrightarrow> get (put b v) = v"
begin

lemma put_inj: "valid b \<Longrightarrow> put b v = put b w \<Longrightarrow> v = w"
  by (metis get_put)

lemma get_put_last: "valid b \<Longrightarrow> get (put (put b v) w) = w"
  by (simp add: put_valid get_put)

end

locale field_pair =
  fst: field_store valid get1 put1 + snd: field_store valid get2 put2
  for valid :: "'b \<Rightarrow> bool"
    and get1 :: "'b \<Rightarrow> 'v" and put1 :: "'b \<Rightarrow> 'v \<Rightarrow> 'b"
    and get2 :: "'b \<Rightarrow> 'w" and put2 :: "'b \<Rightarrow> 'w \<Rightarrow> 'b" +
  assumes get1_put2: "valid b \<Longrightarrow> get1 (put2 b w) = get1 b"
    and get2_put1: "valid b \<Longrightarrow> get2 (put1 b v) = get2 b"
begin

lemma get_both:
  assumes "valid b"
  shows "get1 (put2 (put1 b v) w) = v" "get2 (put2 (put1 b v) w) = w" "valid (put2 (put1 b v) w)"
  using assms by (simp_all add: get1_put2 fst.put_valid fst.get_put snd.put_valid snd.get_put)

lemma get_any_order:
  assumes "valid b"
  shows "get1 (put1 (put2 b w) v) = get1 (put2 (put1 b v) w)" "get2 (put1 (put2 b w) v) = get2 (put2 (put1 b v) w)"
  using assms
  by (simp_all add: get_both get2_put1 fst.put_valid fst.get_put snd.put_valid snd.get_put)

end

end
