(* ===== verification/Irq_Selector.thy ===== *)
theory Irq_Selector
  imports C_Prelude
begin

text \<open>
  The interrupt selector of \<open>include/v120irqd.h\<close> (a crate mask, an interrupt mask, a vector
  and the client's payload), the two builds of the table's selector comparison
  (\<open>hashmatch\<close> and \<open>hasheq\<close> of \<open>v120irqd/irq_vector_table.c\<close>, by fields or as one 64-bit
  word), and the proof that both builds compute the same thing.
\<close>

section \<open>Selectors\<close>

record selector =
  s_crate :: u16
  s_irq :: u16
  s_vector :: u32
  s_payload :: u32

definition ANYCRATE :: u16 where "ANYCRATE = 0xFFFF"
definition ANYIRQ :: u16 where "ANYIRQ = 0x00FE"
definition ANYVECTOR :: u32 where "ANYVECTOR = 0xFFFFFFFF"

section \<open>Comparing selectors, field by field\<close>

definition hashmatch :: "selector \<Rightarrow> selector \<Rightarrow> bool" where
  "hashmatch sel req \<longleftrightarrow>
     s_crate sel AND s_crate req = s_crate req \<and>
     s_irq sel AND s_irq req = s_irq req \<and>
     s_vector sel AND s_vector req = s_vector req"

definition hasheq :: "selector \<Rightarrow> selector \<Rightarrow> bool" where
  "hasheq sel req \<longleftrightarrow>
     s_crate sel = s_crate req \<and> s_irq sel = s_irq req \<and> s_vector sel = s_vector req"

section \<open>Comparing selectors as one 64-bit word\<close>

text \<open>
  With \<open>USE_U64_HASH\<close> the code reads the eight bytes that start at the field \<open>crate\<close> through
  a \<open>uint64_t\<close> pointer. The fields lie at offsets 0, 2 and 4 (\<open>test_interrupt_structs.c\<close>
  checks it), so on a little-endian machine the word has the crate in bits 0 to 15, the
  interrupt mask in bits 16 to 31 and the vector in bits 32 to 63.
\<close>

definition selector_u64 :: "selector \<Rightarrow> u64" where
  "selector_u64 s =
     ucast (s_crate s) OR push_bit 16 (ucast (s_irq s)) OR push_bit 32 (ucast (s_vector s))"

definition hashmatch_u64 :: "selector \<Rightarrow> selector \<Rightarrow> bool" where
  "hashmatch_u64 sel req \<longleftrightarrow> selector_u64 sel AND selector_u64 req = selector_u64 req"

definition hasheq_u64 :: "selector \<Rightarrow> selector \<Rightarrow> bool" where
  "hasheq_u64 sel req \<longleftrightarrow> selector_u64 sel = selector_u64 req"

lemma bit_selector_u64:
  "bit (selector_u64 s) n \<longleftrightarrow>
    (if n < 16 then bit (s_crate s) n
     else if n < 32 then bit (s_irq s) (n - 16)
     else n < 64 \<and> bit (s_vector s) (n - 32))"
  by (auto simp: selector_u64_def bit_simps dest: bit_imp_le_length)

lemma selector_u64_crate_bit: "n < 16 \<Longrightarrow> bit (s_crate s) n = bit (selector_u64 s) n"
  and selector_u64_irq_bit: "n < 16 \<Longrightarrow> bit (s_irq s) n = bit (selector_u64 s) (n + 16)"
  and selector_u64_vector_bit: "n < 32 \<Longrightarrow> bit (s_vector s) n = bit (selector_u64 s) (n + 32)"
  by (simp_all add: bit_selector_u64)

lemma hashmatch_bits:
  "hashmatch sel req \<longleftrightarrow>
    (\<forall>n<16. bit (s_crate req) n \<longrightarrow> bit (s_crate sel) n) \<and>
    (\<forall>n<16. bit (s_irq req) n \<longrightarrow> bit (s_irq sel) n) \<and>
    (\<forall>n<32. bit (s_vector req) n \<longrightarrow> bit (s_vector sel) n)"
  by (simp add: hashmatch_def and_eq_right_iff u16_all_bits u32_all_bits)

lemma hashmatch_u64_bits:
  "hashmatch_u64 sel req \<longleftrightarrow>
    (\<forall>n. bit (selector_u64 req) n \<longrightarrow> bit (selector_u64 sel) n)"
  by (simp add: hashmatch_u64_def and_eq_right_iff)

text \<open>The build with USE_U64_HASH and the build without it accept the same pairs of
  selectors, in both comparisons, for every value of every field.\<close>

theorem hash_u64_equiv:
  "hashmatch_u64 sel req = hashmatch sel req \<and> hasheq_u64 sel req = hasheq sel req"
proof
  show "hashmatch_u64 sel req = hashmatch sel req"
  proof
    assume "hashmatch_u64 sel req"
    then show "hashmatch sel req"
      by (simp add: hashmatch_bits hashmatch_u64_bits selector_u64_crate_bit
          selector_u64_irq_bit selector_u64_vector_bit)
  next
    assume "hashmatch sel req"
    then show "hashmatch_u64 sel req"
      by (auto simp: hashmatch_bits hashmatch_u64_bits bit_selector_u64 split: if_splits)
  qed
  show "hasheq_u64 sel req = hasheq sel req"
  proof
    assume eq: "hasheq_u64 sel req"
    have "bit (s_crate sel) n = bit (s_crate req) n" if "n < 16" for n
      using eq that by (simp add: hasheq_u64_def selector_u64_crate_bit)
    moreover have "bit (s_irq sel) n = bit (s_irq req) n" if "n < 16" for n
      using eq that by (simp add: hasheq_u64_def selector_u64_irq_bit)
    moreover have "bit (s_vector sel) n = bit (s_vector req) n" if "n < 32" for n
      using eq that by (simp add: hasheq_u64_def selector_u64_vector_bit)
    ultimately show "hasheq sel req"
      by (auto simp: hasheq_def intro!: bit_word_eqI)
  next
    assume "hasheq sel req"
    then show "hasheq_u64 sel req"
      by (simp add: hasheq_def hasheq_u64_def selector_u64_def)
  qed
qed

section \<open>What a table entry accepts\<close>

text \<open>
  The test \<open>locate_interrupt\<close> makes of an entry's selector: the mask comparison, then the
  vector, which must be the request's or \<open>ANYVECTOR\<close>.
\<close>

definition sel_match :: "selector \<Rightarrow> selector \<Rightarrow> bool" where
  "sel_match sel req \<longleftrightarrow>
     hashmatch sel req \<and> (s_vector sel = ANYVECTOR \<or> s_vector sel = s_vector req)"

text \<open>
  Given the second test, the vector part of the mask comparison says nothing: the mask
  comparison only ever decides on crates and interrupt lines.
\<close>

lemma sel_match_masks:
  "sel_match sel req \<longleftrightarrow>
    s_crate sel AND s_crate req = s_crate req \<and> s_irq sel AND s_irq req = s_irq req \<and>
    (s_vector sel = ANYVECTOR \<or> s_vector sel = s_vector req)"
proof -
  have any: "ANYVECTOR = - 1"
    by (simp add: ANYVECTOR_def)
  have "ANYVECTOR AND v = v" for v
    unfolding any by simp
  then show ?thesis
    by (auto simp: sel_match_def hashmatch_def)
qed

lemma sel_match_refl [simp]: "sel_match s s"
  by (simp add: sel_match_masks)

lemma sel_match_hasheq: "hasheq sel req \<Longrightarrow> sel_match sel req"
  by (simp add: hasheq_def sel_match_masks)

lemma sel_match_payload [simp]:
  "sel_match (sel\<lparr>s_payload := p\<rparr>) req = sel_match sel req"
  "sel_match sel (req\<lparr>s_payload := p\<rparr>) = sel_match sel req"
  by (simp_all add: sel_match_masks)

lemma sel_match_crate_bit: "sel_match sel req \<Longrightarrow> bit (s_crate req) c \<Longrightarrow> bit (s_crate sel) c"
  and sel_match_irq_bit: "sel_match sel req \<Longrightarrow> bit (s_irq req) i \<Longrightarrow> bit (s_irq sel) i"
  by (auto simp: sel_match_masks and_eq_right_iff)

lemma sel_match_trans:
  "sel_match a b \<Longrightarrow> sel_match b c \<Longrightarrow> sel_match a c"
  by (auto simp: sel_match_masks and_eq_right_iff)

lemma not_ANYIRQ_bits:
  "x AND NOT ANYIRQ = 0 \<longleftrightarrow> (\<forall>n. bit x n \<longrightarrow> 1 \<le> n \<and> n \<le> 7)"
proof -
  have any: "bit ANYIRQ n \<longleftrightarrow> 1 \<le> n \<and> n \<le> 7" for n
  proof (cases "n < 16")
    case True
    then have "n \<in> set [0..<16]" by simp
    then show ?thesis
      by (auto simp: ANYIRQ_def upt_rec bit_simps)
  next
    case False
    then show ?thesis by (auto dest: bit_imp_le_length)
  qed
  show ?thesis
    using bit_imp_le_length [of x] by (auto simp: and_eq_0_iff bit_not_iff any)
qed

end
