(* ===== verification/Irq_Table.thy ===== *)
theory Irq_Table
  imports Irq_Selector
begin

text \<open>
  The interrupt vector table of \<open>v120irqd/irq_vector_table.c\<close>, as the code stores it: one
  array of allocated slots, the used ones first, a slot with \<open>data = 0\<close> ending every walk.
  The table is the list of its slots (its length is \<open>vector_table_end - vector_table\<close>, the
  empty list is the \<open>NULL\<close> table), a pointer into it is an index. The mutex calls are the
  macros of the build without \<open>THREADSAFE\<close>, which always return 0.
\<close>

section \<open>Slots and walks\<close>

record table_t =
  t_selector :: selector
  t_data :: int

definition zero_entry :: table_t where
  "zero_entry = \<lparr>t_selector = \<lparr>s_crate = 0, s_irq = 0, s_vector = 0, s_payload = 0\<rparr>, t_data = 0\<rparr>"

definition INTERRUPT_VECTOR_INCR :: nat where
  "INTERRUPT_VECTOR_INCR = 32"

text \<open>Where a \<open>foreach_vector_st\<close> walk from a slot ends.\<close>

function foreach_end :: "table_t list \<Rightarrow> nat \<Rightarrow> nat" where
  "foreach_end tab ptr =
     (if ptr < length tab \<and> t_data (tab ! ptr) \<noteq> 0 then foreach_end tab (Suc ptr) else ptr)"
  by pat_completeness auto
termination by (relation "measure (\<lambda>(tab, ptr). length tab - ptr)") auto

declare foreach_end.simps [simp del]

function locate_interrupt :: "table_t list \<Rightarrow> selector \<Rightarrow> nat \<Rightarrow> nat option" where
  "locate_interrupt tab request ptr =
     (if ptr < length tab \<and> t_data (tab ! ptr) \<noteq> 0 then
        if \<not> hashmatch (t_selector (tab ! ptr)) request then
          locate_interrupt tab request (Suc ptr)
        else
          (let pvec = s_vector (t_selector (tab ! ptr)) in
           if pvec = ANYVECTOR \<or> pvec = s_vector request then Some ptr
           else locate_interrupt tab request (Suc ptr))
      else None)"
  by pat_completeness auto
termination by (relation "measure (\<lambda>(tab, request, ptr). length tab - ptr)") auto

declare locate_interrupt.simps [simp del]

definition remove_entry :: "table_t list \<Rightarrow> nat \<Rightarrow> table_t list" where
  "remove_entry tab victim =
     (let last = foreach_end tab victim - 1;
          tab' = (if last \<noteq> victim then memmove tab victim (Suc victim) (last - victim) else tab)
      in tab'[last := zero_entry])"

section \<open>The operations\<close>

text \<open>
  \<open>find_interrupt\<close> returns the registrant's data, or 0 with \<open>errno\<close> set, and writes the
  payload of the entry into the request.
\<close>

definition find_interrupt :: "table_t list \<Rightarrow> selector \<Rightarrow> int \<Rightarrow> int \<times> int \<times> selector" where
  "find_interrupt tab request errno =
     (case locate_interrupt tab request 0 of
        None \<Rightarrow> (0, EINVAL, request)
      | Some ptr \<Rightarrow>
          (t_data (tab ! ptr), errno, request\<lparr>s_payload := s_payload (t_selector (tab ! ptr))\<rparr>))"

text \<open>
  \<open>realloc_ok n\<close> says whether \<open>realloc\<close> can provide \<open>n\<close> slots; when it cannot it sets
  \<open>errno\<close> to \<open>ENOMEM\<close> and leaves the old block alone.
\<close>

definition register_interrupt ::
  "(nat \<Rightarrow> bool) \<Rightarrow> table_t list \<Rightarrow> int \<Rightarrow> selector \<Rightarrow> int \<times> table_t list" where
  "register_interrupt realloc_ok tab sd request =
     (if sd = 0 then (- EINVAL, tab)
      else if s_crate request = 0 then (- EINVAL, tab)
      else if s_irq request = 0 \<or> s_irq request AND NOT ANYIRQ \<noteq> 0 then (- EINVAL, tab)
      else if locate_interrupt tab request 0 \<noteq> None then (- EADDRINUSE, tab)
      else
        (let ptr = foreach_end tab 0;
             old_count = length tab;
             new_count = old_count + INTERRUPT_VECTOR_INCR in
         if ptr = length tab then
           if \<not> realloc_ok new_count then (- ENOMEM, tab)
           else (0, (tab @ replicate INTERRUPT_VECTOR_INCR zero_entry)
                      [old_count := \<lparr>t_selector = request, t_data = sd\<rparr>])
         else (0, tab[ptr := \<lparr>t_selector = request, t_data = sd\<rparr>])))"

function find_exact :: "table_t list \<Rightarrow> selector \<Rightarrow> nat \<Rightarrow> nat option" where
  "find_exact tab request ptr =
     (if ptr < length tab \<and> t_data (tab ! ptr) \<noteq> 0 then
        if hasheq (t_selector (tab ! ptr)) request then Some ptr
        else find_exact tab request (Suc ptr)
      else None)"
  by pat_completeness auto
termination by (relation "measure (\<lambda>(tab, request, ptr). length tab - ptr)") auto

declare find_exact.simps [simp del]

definition release_interrupt :: "table_t list \<Rightarrow> int \<Rightarrow> selector \<Rightarrow> int \<times> table_t list" where
  "release_interrupt tab sd request =
     (case find_exact tab request 0 of
        None \<Rightarrow> (- EINVAL, tab)
      | Some current \<Rightarrow>
          if t_data (tab ! current) \<noteq> sd then (- EINVAL, tab)
          else (0, remove_entry tab current))"

definition count_registered_interrupts :: "table_t list \<Rightarrow> nat" where
  "count_registered_interrupts tab = foreach_end tab 0"

text \<open>\<open>free_all_interrupts\<close> forgets the block: the table is the \<open>NULL\<close> table again.\<close>

definition free_all_interrupts :: "table_t list \<Rightarrow> table_t list" where
  "free_all_interrupts tab = []"

text \<open>
  The inner loop over the crates sets \<open>irqs[crate] |= ptr->selector.irq\<close>, a store into a
  \<open>uint8_t\<close>, so the upper half of the interrupt mask is cut off.
\<close>

definition add_crates :: "table_t \<Rightarrow> u8 list \<Rightarrow> u8 list" where
  "add_crates e irqs =
     fold (\<lambda>crate irqs.
       if s_crate (t_selector e) AND push_bit crate 1 \<noteq> 0
       then irqs[crate := irqs ! crate OR ucast (s_irq (t_selector e))] else irqs) [0..<16] irqs"

function list_registered_loop :: "table_t list \<Rightarrow> nat \<Rightarrow> u8 list \<Rightarrow> u8 list" where
  "list_registered_loop tab ptr irqs =
     (if ptr < length tab \<and> t_data (tab ! ptr) \<noteq> 0
      then list_registered_loop tab (Suc ptr) (add_crates (tab ! ptr) irqs) else irqs)"
  by pat_completeness auto
termination by (relation "measure (\<lambda>(tab, ptr, irqs). length tab - ptr)") auto

declare list_registered_loop.simps [simp del]

definition list_registered_interrupts :: "table_t list \<Rightarrow> u8 list" where
  "list_registered_interrupts tab = list_registered_loop tab 0 (replicate 16 0)"

section \<open>Facts on walks and on removing a slot\<close>

abbreviation is_live :: "table_t \<Rightarrow> bool" where
  "is_live e \<equiv> t_data e \<noteq> 0"

lemma zero_entry_dead [simp]: "t_data zero_entry = 0"
  by (simp add: zero_entry_def)

lemma foreach_end_eq: "foreach_end tab ptr = ptr + length (takeWhile is_live (drop ptr tab))"
proof (induction tab ptr rule: foreach_end.induct)
  case (1 tab ptr)
  show ?case
  proof (cases "ptr < length tab \<and> is_live (tab ! ptr)")
    case True
    with 1 show ?thesis
      by (subst foreach_end.simps) (simp add: takeWhile_drop_less)
  next
    case False
    then show ?thesis
      by (subst foreach_end.simps) (simp add: takeWhile_drop_stop del: de_Morgan_conj)
  qed
qed

lemma foreach_end_le: "ptr \<le> length tab \<Longrightarrow> foreach_end tab ptr \<le> length tab"
  using length_takeWhile_le [of is_live "drop ptr tab"] by (simp add: foreach_end_eq)

lemma foreach_end_ge: "ptr \<le> foreach_end tab ptr"
  by (simp add: foreach_end_eq)

lemma foreach_end_dead:
  assumes "ptr \<le> j" "j < length tab" "t_data (tab ! j) = 0"
  shows "foreach_end tab ptr \<le> j"
proof (rule ccontr)
  assume "\<not> foreach_end tab ptr \<le> j"
  then have less: "j - ptr < length (takeWhile is_live (drop ptr tab))"
    using assms(1) by (simp add: foreach_end_eq)
  then have "is_live (takeWhile is_live (drop ptr tab) ! (j - ptr))"
    using nth_mem set_takeWhileD by fastforce
  moreover have "takeWhile is_live (drop ptr tab) ! (j - ptr) = tab ! j"
    using takeWhile_nth [OF less] assms by simp
  ultimately show False
    using assms(3) by simp
qed

lemma length_remove_entry [simp]:
  assumes "victim < length tab"
  shows "length (remove_entry tab victim) = length tab"
  using foreach_end_le [of victim tab] assms by (simp add: remove_entry_def Let_def)

lemma remove_entry_shrinks:
  assumes "ptr < length tab" "is_live (tab ! ptr)"
  shows "foreach_end (remove_entry tab ptr) ptr < foreach_end tab ptr"
proof -
  define last where "last = foreach_end tab ptr - 1"
  have up: "Suc ptr \<le> foreach_end tab ptr"
    using assms foreach_end_ge [of "Suc ptr" tab] by (subst foreach_end.simps) simp
  have bnd: "foreach_end tab ptr \<le> length tab"
    using assms by (simp add: foreach_end_le)
  from up bnd assms have "remove_entry tab ptr ! last = zero_entry"
    by (auto simp: remove_entry_def Let_def last_def)
  then have "foreach_end (remove_entry tab ptr) ptr \<le> last"
    using up bnd assms by (intro foreach_end_dead) (auto simp: last_def)
  with up show ?thesis by (simp add: last_def)
qed

section \<open>Releasing everything a client holds\<close>

text \<open>
  The inner \<open>while\<close> removes the current slot as long as it belongs to the client. The code
  enters it at live slots only, where \<open>data = sd\<close> implies \<open>sd \<noteq> 0\<close>; the guard \<open>sd \<noteq> 0\<close>
  states that and makes the loop terminate.
\<close>

function release_while :: "table_t list \<Rightarrow> int \<Rightarrow> nat \<Rightarrow> table_t list" where
  "release_while tab sd ptr =
     (if ptr < length tab \<and> t_data (tab ! ptr) = sd \<and> sd \<noteq> 0
      then release_while (remove_entry tab ptr) sd ptr else tab)"
  by pat_completeness auto
termination
  by (relation "measure (\<lambda>(tab, sd, ptr). foreach_end tab ptr)") (auto intro: remove_entry_shrinks)

declare release_while.simps [simp del]

lemma length_release_while [simp]: "length (release_while tab sd ptr) = length tab"
proof (induction tab sd ptr rule: release_while.induct)
  case (1 tab sd ptr)
  then show ?case
    by (subst release_while.simps) simp
qed

function release_loop :: "table_t list \<Rightarrow> int \<Rightarrow> nat \<Rightarrow> table_t list" where
  "release_loop tab sd ptr =
     (if ptr < length tab \<and> t_data (tab ! ptr) \<noteq> 0
      then release_loop (release_while tab sd ptr) sd (Suc ptr) else tab)"
  by pat_completeness auto
termination by (relation "measure (\<lambda>(tab, sd, ptr). length tab - ptr)") auto

declare release_loop.simps [simp del]

definition release_all_interrupts :: "table_t list \<Rightarrow> int \<Rightarrow> int \<times> table_t list" where
  "release_all_interrupts tab sd = (0, release_loop tab sd 0)"

end
