(* ===== verification/Irq_Registry.thy ===== *)
theory Irq_Registry
  imports Irq_Table
begin

text \<open>
  What the vector table promises: the invariant of the array (used slots first, unused slots
  zeroed, allocated in steps of 32, only legal selectors, no entry shadowed by an earlier
  one), the list of live entries as its abstraction, and every operation as an operation on
  that list. The contract the dispatcher relies on is the locale \<open>irq_registry\<close>; the array
  of \<open>irq_vector_table.c\<close> is its interpretation.
\<close>

section \<open>Invariant and abstraction\<close>

definition live :: "table_t list \<Rightarrow> table_t list" where
  "live tab = takeWhile is_live tab"

definition selector_legal :: "selector \<Rightarrow> bool" where
  "selector_legal s \<longleftrightarrow> s_crate s \<noteq> 0 \<and> s_irq s \<noteq> 0 \<and> s_irq s AND NOT ANYIRQ = 0"

definition entry_ok :: "table_t \<Rightarrow> bool" where
  "entry_ok e \<longleftrightarrow> t_data e \<noteq> 0 \<and> selector_legal (t_selector e)"

definition shadow_free :: "table_t list \<Rightarrow> bool" where
  "shadow_free es \<longleftrightarrow> sorted_wrt (\<lambda>a b. \<not> sel_match (t_selector a) (t_selector b)) es"

definition layout :: "table_t list \<Rightarrow> nat \<Rightarrow> table_t list" where
  "layout es k = es @ replicate k zero_entry"

definition table_ok :: "table_t list \<Rightarrow> bool" where
  "table_ok tab \<longleftrightarrow>
     tab = layout (live tab) (length tab - length (live tab)) \<and>
     INTERRUPT_VECTOR_INCR dvd length tab \<and>
     (\<forall>e \<in> set (live tab). entry_ok e) \<and> shadow_free (live tab)"

definition lookup_entry :: "table_t list \<Rightarrow> selector \<Rightarrow> table_t option" where
  "lookup_entry es request = List.find (\<lambda>e. sel_match (t_selector e) request) es"

lemma entry_ok_irq_bits:
  assumes "entry_ok e" "bit (s_irq (t_selector e)) n"
  shows "1 \<le> n \<and> n \<le> 7"
  using assms not_ANYIRQ_bits [of "s_irq (t_selector e)"]
  unfolding entry_ok_def selector_legal_def by blast

lemma live_is_live: "e \<in> set (live tab) \<Longrightarrow> is_live e"
  unfolding live_def using set_takeWhileD by fastforce

lemma live_layout [simp]: "\<forall>e \<in> set es. is_live e \<Longrightarrow> live (layout es k) = es"
  by (cases k) (simp_all add: live_def layout_def takeWhile_tail)

lemma length_layout [simp]: "length (layout es k) = length es + k"
  by (simp add: layout_def)

lemma nth_layout:
  "i < length es + k \<Longrightarrow> layout es k ! i = (if i < length es then es ! i else zero_entry)"
  by (simp add: layout_def nth_append)

lemma layout_live_iff:
  assumes "\<forall>e \<in> set es. is_live e"
  shows "i < length es + k \<and> is_live (layout es k ! i) \<longleftrightarrow> i < length es"
  using assms by (cases "i < length es") (auto simp: nth_layout)

lemma table_ok_layout:
  assumes "table_ok tab"
  obtains es k where "tab = layout es k" "es = live tab" "\<forall>e \<in> set es. is_live e"
  using assms live_is_live by (auto simp: table_ok_def)

lemma table_ok_layoutI:
  "\<forall>e \<in> set es. entry_ok e \<Longrightarrow> shadow_free es \<Longrightarrow> INTERRUPT_VECTOR_INCR dvd length es + k \<Longrightarrow>
    table_ok (layout es k)"
  by (simp add: table_ok_def entry_ok_def)

lemma table_ok_empty [simp]: "table_ok []"
  by (simp add: table_ok_def live_def layout_def shadow_free_def)

lemma shadow_free_append:
  "shadow_free (es @ [e]) \<longleftrightarrow>
    shadow_free es \<and> (\<forall>a \<in> set es. \<not> sel_match (t_selector a) (t_selector e))"
  by (auto simp: shadow_free_def sorted_wrt_append)

lemma shadow_free_filter: "shadow_free es \<Longrightarrow> shadow_free (filter P es)"
  by (simp add: shadow_free_def sorted_wrt_filter)

text \<open>In a shadow-free table the lookup of an entry's own selector finds that entry.\<close>

lemma lookup_own_entry:
  assumes "shadow_free es" "e \<in> set es"
  shows "lookup_entry es (t_selector e) = Some e"
proof -
  obtain xs ys where split: "es = xs @ e # ys"
    using assms(2) split_list by metis
  then have "List.find (\<lambda>a. sel_match (t_selector a) (t_selector e)) xs = None"
    using assms(1) by (auto simp: shadow_free_def sorted_wrt_append find_None_iff)
  then show ?thesis
    by (simp add: lookup_entry_def split find_append)
qed

lemma lookup_entry_hasheq: "hasheq r r' \<Longrightarrow> lookup_entry es r = lookup_entry es r'"
proof -
  assume "hasheq r r'"
  then have "(\<lambda>e. sel_match (t_selector e) r) = (\<lambda>e. sel_match (t_selector e) r')"
    by (auto simp: fun_eq_iff hasheq_def sel_match_masks)
  then show ?thesis
    unfolding lookup_entry_def by (rule arg_cong [where f = "\<lambda>P. List.find P es"])
qed

lemma shadow_free_hasheq_unique:
  assumes "shadow_free es" "a \<in> set es" "b \<in> set es"
    "hasheq (t_selector a) r" "hasheq (t_selector b) r"
  shows "a = b"
proof -
  have "hasheq (t_selector a) (t_selector b)"
    using assms(4,5) by (simp add: hasheq_def)
  then have "lookup_entry es (t_selector a) = lookup_entry es (t_selector b)"
    by (rule lookup_entry_hasheq)
  then show ?thesis
    using lookup_own_entry [OF assms(1)] assms(2,3) by simp
qed

section \<open>The walks on a well-formed array\<close>

lemma foreach_end_layout:
  assumes "\<forall>e \<in> set es. is_live e" "i \<le> length es"
  shows "foreach_end (layout es k) i = length es"
proof -
  have "drop i (layout es k) = layout (drop i es) k"
    using assms(2) by (simp add: layout_def)
  moreover have "live (layout (drop i es) k) = drop i es"
    using assms(1) by (intro live_layout) (auto dest: in_set_dropD)
  ultimately show ?thesis
    using assms(2) by (simp add: foreach_end_eq live_def)
qed

lemma locate_layout:
  assumes es_live: "\<forall>e \<in> set es. is_live e"
  shows "case locate_interrupt (layout es k) r i of
      None \<Rightarrow> lookup_entry (drop i es) r = None
    | Some j \<Rightarrow> j < length es \<and> lookup_entry (drop i es) r = Some (es ! j)"
proof (induction "layout es k" r i rule: locate_interrupt.induct)
  case (1 r i)
  note live_iff = layout_live_iff [OF es_live, of i k]
  show ?case
  proof (cases "i < length es")
    case False
    then have "locate_interrupt (layout es k) r i = None"
      using live_iff by (subst locate_interrupt.simps) auto
    with False show ?thesis by (simp add: lookup_entry_def)
  next
    case True
    then have nth: "layout es k ! i = es ! i" and dr: "drop i es = es ! i # drop (Suc i) es"
      by (simp_all add: nth_layout Cons_nth_drop_Suc)
    show ?thesis
    proof (cases "sel_match (t_selector (es ! i)) r")
      case hit: True
      then have "locate_interrupt (layout es k) r i = Some i"
        using True live_iff nth by (subst locate_interrupt.simps) (auto simp: sel_match_def Let_def)
      with True hit dr show ?thesis by (simp add: lookup_entry_def)
    next
      case miss: False
      then have "locate_interrupt (layout es k) r i = locate_interrupt (layout es k) r (Suc i)"
        using True live_iff nth
        by (subst locate_interrupt.simps) (auto simp: sel_match_def Let_def)
      moreover have "lookup_entry (drop i es) r = lookup_entry (drop (Suc i) es) r"
        using miss dr by (simp add: lookup_entry_def)
      moreover have "case locate_interrupt (layout es k) r (Suc i) of
          None \<Rightarrow> lookup_entry (drop (Suc i) es) r = None
        | Some j \<Rightarrow> j < length es \<and> lookup_entry (drop (Suc i) es) r = Some (es ! j)"
        using 1 True live_iff nth miss by (auto simp: sel_match_def)
      ultimately show ?thesis by (auto split: option.splits)
    qed
  qed
qed

lemma find_exact_layout:
  assumes es_live: "\<forall>e \<in> set es. is_live e"
  shows "case find_exact (layout es k) r i of
      None \<Rightarrow> \<forall>e \<in> set (drop i es). \<not> hasheq (t_selector e) r
    | Some j \<Rightarrow> j < length es \<and> hasheq (t_selector (es ! j)) r"
proof (induction "layout es k" r i rule: find_exact.induct)
  case (1 r i)
  note live_iff = layout_live_iff [OF es_live, of i k]
  show ?case
  proof (cases "i < length es")
    case False
    then have "find_exact (layout es k) r i = None"
      using live_iff by (subst find_exact.simps) auto
    with False show ?thesis by simp
  next
    case True
    then have nth: "layout es k ! i = es ! i" and dr: "drop i es = es ! i # drop (Suc i) es"
      by (simp_all add: nth_layout Cons_nth_drop_Suc)
    show ?thesis
    proof (cases "hasheq (t_selector (es ! i)) r")
      case hit: True
      then have "find_exact (layout es k) r i = Some i"
        using True live_iff nth by (subst find_exact.simps) auto
      with True hit show ?thesis by simp
    next
      case miss: False
      then have "find_exact (layout es k) r i = find_exact (layout es k) r (Suc i)"
        using True live_iff nth by (subst find_exact.simps) auto
      then show ?thesis
        using 1 True live_iff nth miss dr by (auto split: option.splits)
    qed
  qed
qed

lemma remove_entry_layout:
  assumes es_live: "\<forall>e \<in> set es. is_live e" and i: "i < length es"
  shows "remove_entry (layout es k) i = layout (take i es @ drop (Suc i) es) (Suc k)"
proof (rule nth_equalityI)
  show "length (remove_entry (layout es k) i) = length (layout (take i es @ drop (Suc i) es) (Suc k))"
    using i by simp
next
  fix j assume "j < length (remove_entry (layout es k) i)"
  then have j: "j < length es + k" using i by simp
  have "foreach_end (layout es k) i = length es"
    using foreach_end_layout [OF es_live] i by simp
  then show "remove_entry (layout es k) i ! j = layout (take i es @ drop (Suc i) es) (Suc k) ! j"
    using i j
    by (auto simp: remove_entry_def Let_def nth_layout nth_list_update memmove_nth nth_append)
qed

section \<open>The operations on the abstraction\<close>

lemma live_all_of_ok: "\<forall>e \<in> set es. entry_ok e \<Longrightarrow> \<forall>e \<in> set es. is_live e"
  by (simp add: entry_ok_def)

lemma table_ok_cases:
  assumes "table_ok tab"
  obtains es k where "tab = layout es k" "live tab = es" "\<forall>e \<in> set es. is_live e"
    "\<forall>e \<in> set es. entry_ok e" "shadow_free es" "INTERRUPT_VECTOR_INCR dvd length es + k"
proof -
  have "tab = layout (live tab) (length tab - length (live tab))"
    using assms by (simp add: table_ok_def)
  moreover have "length (live tab) + (length tab - length (live tab)) = length tab"
    by (simp add: live_def length_takeWhile_le)
  ultimately show thesis
    using assms that [of "live tab" "length tab - length (live tab)"] live_is_live
    by (simp add: table_ok_def)
qed

lemma find_interrupt_eq:
  assumes "table_ok tab"
  shows "find_interrupt tab r errno =
    (case lookup_entry (live tab) r of
       None \<Rightarrow> (0, EINVAL, r)
     | Some e \<Rightarrow> (t_data e, errno, r\<lparr>s_payload := s_payload (t_selector e)\<rparr>))"
proof -
  obtain es k where t: "tab = layout es k" "live tab = es" "\<forall>e \<in> set es. is_live e"
    using assms by (rule table_ok_cases)
  then show ?thesis
    using locate_layout [OF t(3), where k = k and r = r and i = 0]
    by (auto simp: find_interrupt_def nth_layout split: option.splits)
qed

lemma register_interrupt_cases:
  assumes ok: "table_ok tab" and reg: "register_interrupt realloc_ok tab sd r = (ret, tab')"
  shows "(ret = 0 \<longleftrightarrow> sd \<noteq> 0 \<and> selector_legal r \<and> lookup_entry (live tab) r = None \<and>
            (length (live tab) < length tab \<or> realloc_ok (length tab + INTERRUPT_VECTOR_INCR)))"
    and "ret \<noteq> 0 \<Longrightarrow> ret < 0 \<and> tab' = tab"
    and "ret = 0 \<Longrightarrow> table_ok tab' \<and> live tab' = live tab @ [\<lparr>t_selector = r, t_data = sd\<rparr>]"
proof -
  define new where "new = \<lparr>t_selector = r, t_data = sd\<rparr>"
  obtain es k where t: "tab = layout es k" "live tab = es" "\<forall>e \<in> set es. is_live e"
    and wf: "\<forall>e \<in> set es. entry_ok e" "shadow_free es" "INTERRUPT_VECTOR_INCR dvd length es + k"
    using ok by (rule table_ok_cases)
  have loc: "locate_interrupt tab r 0 = None \<longleftrightarrow> lookup_entry es r = None"
    using locate_layout [OF t(3), where k = k and r = r and i = 0] t(1) by (auto split: option.splits)
  have fe: "foreach_end tab 0 = length es"
    using foreach_end_layout [OF t(3), of 0 k] t(1) by simp
  have full: "length es = length tab \<longleftrightarrow> k = 0" and le: "length es \<le> length tab"
    using t(1) by simp_all
  have grow: "(tab @ replicate INTERRUPT_VECTOR_INCR zero_entry)[length tab := new] =
      layout (es @ [new]) (INTERRUPT_VECTOR_INCR - 1)" if "k = 0"
    using that t(1)
    by (simp add: layout_def INTERRUPT_VECTOR_INCR_def list_update_append numeral_eq_Suc)
  have put: "tab[length es := new] = layout (es @ [new]) (k - 1)" if "k \<noteq> 0"
    using that t(1) by (cases k) (simp_all add: layout_def list_update_append)
  show "ret = 0 \<longleftrightarrow> sd \<noteq> 0 \<and> selector_legal r \<and> lookup_entry (live tab) r = None \<and>
      (length (live tab) < length tab \<or> realloc_ok (length tab + INTERRUPT_VECTOR_INCR))"
    using reg le unfolding t(2)
    by (auto simp: register_interrupt_def selector_legal_def loc fe Let_def split: if_splits)
  show "ret < 0 \<and> tab' = tab" if "ret \<noteq> 0"
    using reg that by (auto simp: register_interrupt_def Let_def split: if_splits)
  assume "ret = 0"
  then have legal: "sd \<noteq> 0" "selector_legal r" "lookup_entry es r = None"
    using reg by (auto simp: register_interrupt_def selector_legal_def loc Let_def split: if_splits)
  have tab': "tab' = layout (es @ [new]) (if k = 0 then INTERRUPT_VECTOR_INCR - 1 else k - 1)"
    using reg \<open>ret = 0\<close> full grow put
    by (auto simp: register_interrupt_def fe Let_def new_def split: if_splits)
  have "shadow_free (es @ [new])"
    using wf(2) legal(3) by (auto simp: shadow_free_append lookup_entry_def find_None_iff new_def)
  moreover have "\<forall>e \<in> set (es @ [new]). entry_ok e"
    using wf(1) legal by (simp add: entry_ok_def new_def)
  moreover have "INTERRUPT_VECTOR_INCR dvd
      length (es @ [new]) + (if k = 0 then INTERRUPT_VECTOR_INCR - 1 else k - 1)"
    using wf(3) by (cases k) (simp_all add: INTERRUPT_VECTOR_INCR_def)
  ultimately have "table_ok tab'" and "live tab' = es @ [new]"
    unfolding tab' by (blast intro: table_ok_layoutI, intro live_layout live_all_of_ok)
  then show "table_ok tab' \<and> live tab' = live tab @ [\<lparr>t_selector = r, t_data = sd\<rparr>]"
    using t(2) by (simp add: new_def)
qed

text \<open>The array never shrinks and grows by one increment at a time, only when it is full.\<close>

lemma register_interrupt_length:
  assumes "table_ok tab" "register_interrupt realloc_ok tab sd r = (ret, tab')"
  shows "length tab' =
    (if ret = 0 \<and> length (live tab) = length tab then length tab + INTERRUPT_VECTOR_INCR
     else length tab)"
proof -
  obtain es k where t: "tab = layout es k" "live tab = es" "\<forall>e \<in> set es. is_live e"
    using assms(1) by (rule table_ok_cases)
  have "foreach_end tab 0 = length (live tab)"
    using foreach_end_layout [OF t(3), of 0 k] t by simp
  then show ?thesis
    using assms(2) by (auto simp: register_interrupt_def Let_def split: if_splits)
qed

lemma filter_not_hasheq:
  assumes "shadow_free es" "i < length es" "hasheq (t_selector (es ! i)) r"
  shows "filter (\<lambda>e. \<not> hasheq (t_selector e) r) es = take i es @ drop (Suc i) es"
proof -
  have split: "es = take i es @ es ! i # drop (Suc i) es"
    using assms(2) by (rule id_take_nth_drop)
  have other: "\<not> hasheq (t_selector e) r" if "e \<in> set (take i es) \<union> set (drop (Suc i) es)" for e
  proof
    assume h: "hasheq (t_selector e) r"
    then have eq: "hasheq (t_selector e) (t_selector (es ! i))"
      "hasheq (t_selector (es ! i)) (t_selector e)"
      using assms(3) by (simp_all add: hasheq_def)
    have "sorted_wrt (\<lambda>a b. \<not> sel_match (t_selector a) (t_selector b))
        (take i es @ es ! i # drop (Suc i) es)"
      using assms(1) split by (simp add: shadow_free_def)
    then show False
      using that eq sel_match_hasheq by (auto simp: sorted_wrt_append)
  qed
  have "filter (\<lambda>e. \<not> hasheq (t_selector e) r) (take i es @ es ! i # drop (Suc i) es) =
      take i es @ drop (Suc i) es"
    using other assms(3) by (simp add: filter_id_conv)
  then show ?thesis
    using split by simp
qed

lemma release_interrupt_cases:
  assumes ok: "table_ok tab" and rel: "release_interrupt tab sd r = (ret, tab')"
  shows "ret = 0 \<longleftrightarrow> (\<exists>e \<in> set (live tab). hasheq (t_selector e) r \<and> t_data e = sd)"
    and "ret \<noteq> 0 \<Longrightarrow> ret = - EINVAL \<and> tab' = tab"
    and "ret = 0 \<Longrightarrow> table_ok tab' \<and> live tab' = filter (\<lambda>e. \<not> hasheq (t_selector e) r) (live tab)"
proof -
  obtain es k where t: "tab = layout es k" "live tab = es" "\<forall>e \<in> set es. is_live e"
    and wf: "\<forall>e \<in> set es. entry_ok e" "shadow_free es" "INTERRUPT_VECTOR_INCR dvd length es + k"
    using ok by (rule table_ok_cases)
  note fx = find_exact_layout [OF t(3), where k = k and r = r and i = 0]
  show ret: "ret = 0 \<longleftrightarrow> (\<exists>e \<in> set (live tab). hasheq (t_selector e) r \<and> t_data e = sd)"
  proof (cases "find_exact tab r 0")
    case None
    then show ?thesis
      using fx rel t(1,2) by (auto simp: release_interrupt_def)
  next
    case (Some j)
    then have j: "j < length es" "hasheq (t_selector (es ! j)) r"
      using fx t(1) by auto
    then have "tab ! j = es ! j"
      using t(1) by (simp add: nth_layout)
    moreover have "e = es ! j" if "e \<in> set es" "hasheq (t_selector e) r" for e
      using shadow_free_hasheq_unique [OF wf(2) that(1) nth_mem that(2)] j by simp
    ultimately show ?thesis
      using rel Some j t(2) nth_mem by (auto simp: release_interrupt_def split: if_splits)
  qed
  show "ret = - EINVAL \<and> tab' = tab" if "ret \<noteq> 0"
    using rel that by (auto simp: release_interrupt_def split: option.splits if_splits)
  assume "ret = 0"
  then obtain j where "find_exact tab r 0 = Some j" and tab': "tab' = remove_entry tab j"
    using rel by (auto simp: release_interrupt_def split: option.splits if_splits)
  then have j: "j < length es" "hasheq (t_selector (es ! j)) r"
    using fx t(1) by auto
  have lay: "tab' = layout (filter (\<lambda>e. \<not> hasheq (t_selector e) r) es) (Suc k)"
    using remove_entry_layout [OF t(3) j(1)] tab' t(1) filter_not_hasheq [OF wf(2) j] by simp
  have len: "length (filter (\<lambda>e. \<not> hasheq (t_selector e) r) es) + Suc k = length es + k"
    using filter_not_hasheq [OF wf(2) j] j(1) by simp
  have "table_ok tab'"
    unfolding lay using wf by (intro table_ok_layoutI shadow_free_filter) (simp_all only: len, auto)
  moreover have "live tab' = filter (\<lambda>e. \<not> hasheq (t_selector e) r) es"
    unfolding lay using t(3) by (intro live_layout) simp
  ultimately show "table_ok tab' \<and> live tab' = filter (\<lambda>e. \<not> hasheq (t_selector e) r) (live tab)"
    using t(2) by simp
qed

text \<open>Releasing all entries of a client leaves exactly the others, in their order.\<close>

lemma release_while_layout:
  assumes "\<forall>e \<in> set es. is_live e" "sd \<noteq> 0"
  shows "release_while (layout es k) sd i =
    layout (take i es @ dropWhile (\<lambda>e. t_data e = sd) (drop i es))
      (k + length (takeWhile (\<lambda>e. t_data e = sd) (drop i es)))"
  using assms
proof (induction "length es" arbitrary: es k)
  case 0
  then have "\<not> (i < length (layout es k) \<and> t_data (layout es k ! i) = sd)"
    by (auto simp: nth_layout)
  then have "release_while (layout es k) sd i = layout es k"
    by (subst release_while.simps) auto
  with 0 show ?case by simp
next
  case (Suc n)
  show ?case
  proof (cases "i < length es \<and> t_data (es ! i) = sd")
    case True
    define es' where "es' = take i es @ drop (Suc i) es"
    have dr: "drop i es = es ! i # drop (Suc i) es"
      using True by (simp add: Cons_nth_drop_Suc)
    have es': "n = length es'" "\<forall>e \<in> set es'. is_live e"
      using Suc True by (auto simp: es'_def dest: in_set_takeD in_set_dropD)
    have "release_while (layout es k) sd i = release_while (layout es' (Suc k)) sd i"
      using True Suc.prems remove_entry_layout [OF Suc.prems(1), of i k]
      by (subst release_while.simps) (simp add: nth_layout es'_def)
    also have "\<dots> = layout (take i es' @ dropWhile (\<lambda>e. t_data e = sd) (drop i es'))
        (Suc k + length (takeWhile (\<lambda>e. t_data e = sd) (drop i es')))"
      using Suc.hyps(1) [OF es'] Suc.prems(2) by simp
    finally show ?thesis
      using True dr by (simp add: es'_def)
  next
    case False
    then have "\<not> (i < length (layout es k) \<and> t_data (layout es k ! i) = sd)"
      using Suc.prems(2) by (auto simp: nth_layout)
    then have "release_while (layout es k) sd i = layout es k"
      by (subst release_while.simps) auto
    moreover have "takeWhile (\<lambda>e. t_data e = sd) (drop i es) = []"
      using False by (intro takeWhile_drop_stop)
    moreover from this have "dropWhile (\<lambda>e. t_data e = sd) (drop i es) = drop i es"
      using takeWhile_dropWhile_id [of "\<lambda>e. t_data e = sd" "drop i es"] by simp
    ultimately show ?thesis by simp
  qed
qed

lemma release_while_other:
  assumes "sd = 0"
  shows "release_while tab sd i = tab"
  using assms by (subst release_while.simps) simp

lemma release_loop_layout:
  assumes "\<forall>e \<in> set es. is_live e"
  shows "\<exists>k'. release_loop (layout es k) sd i =
    layout (take i es @ filter (\<lambda>e. t_data e \<noteq> sd) (drop i es)) k'"
  using assms
proof (induction "length es + k - i" arbitrary: es k i)
  case 0
  then have "release_loop (layout es k) sd i = layout es k"
    by (subst release_loop.simps) (simp add: nth_layout)
  with 0 show ?case by auto
next
  case (Suc n)
  note live_iff = layout_live_iff [OF Suc.prems, of i k]
  show ?case
  proof (cases "i < length es")
    case False
    then have "release_loop (layout es k) sd i = layout es k"
      using live_iff by (subst release_loop.simps) auto
    with False show ?thesis by auto
  next
    case True
    define rest where "rest = (if sd = 0 then drop i es else dropWhile (\<lambda>e. t_data e = sd) (drop i es))"
    define es' where "es' = take i es @ rest"
    have len: "length rest \<le> length es - i"
      using length_dropWhile_le [of "\<lambda>e. t_data e = sd" "drop i es"] by (simp add: rest_def)
    obtain k' where rw: "release_while (layout es k) sd i = layout es' k'"
      using release_while_layout [OF Suc.prems, of sd k i] release_while_other
      by (cases "sd = 0") (auto simp: es'_def rest_def)
    have "length (layout es' k') = length (layout es k)"
      using arg_cong [OF rw, of length] by simp
    then have n: "n = length es' + k' - Suc i"
      using Suc.hyps(2) by simp
    have live': "\<forall>e \<in> set es'. is_live e"
      using Suc.prems set_dropWhileD
      by (fastforce simp: es'_def rest_def dest: in_set_takeD in_set_dropD split: if_splits)
    obtain k'' where rl: "release_loop (layout es' k') sd (Suc i) =
        layout (take (Suc i) es' @ filter (\<lambda>e. t_data e \<noteq> sd) (drop (Suc i) es')) k''"
      using Suc.hyps(1) [OF n live'] by blast
    have "release_loop (layout es k) sd i = release_loop (layout es' k') sd (Suc i)"
      using True live_iff rw by (subst release_loop.simps) simp
    moreover have "take (Suc i) es' @ filter (\<lambda>e. t_data e \<noteq> sd) (drop (Suc i) es') =
        take i es @ filter (\<lambda>e. t_data e \<noteq> sd) rest"
    proof (cases rest)
      case Nil
      then show ?thesis using True by (simp add: es'_def)
    next
      case (Cons e rest')
      then have "t_data e \<noteq> sd"
        using Suc.prems in_set_dropD [of e i es]
        by (auto simp: rest_def dropWhile_eq_Cons_conv split: if_splits)
      then show ?thesis using True Cons by (simp add: es'_def)
    qed
    moreover have "filter (\<lambda>e. t_data e \<noteq> sd) rest = filter (\<lambda>e. t_data e \<noteq> sd) (drop i es)"
      by (simp add: rest_def) (metis (mono_tags, lifting) append_Nil filter_False filter_append
          set_takeWhileD takeWhile_dropWhile_id)
    ultimately show ?thesis using rl by auto
  qed
qed

lemma length_release_loop [simp]: "length (release_loop tab sd i) = length tab"
proof (induction tab sd i rule: release_loop.induct)
  case (1 tab sd ptr)
  then show ?case
    by (subst release_loop.simps) simp
qed

lemma release_all_interrupts_cases:
  assumes ok: "table_ok tab" and rel: "release_all_interrupts tab sd = (ret, tab')"
  shows "ret = 0" and "table_ok tab'" and "live tab' = filter (\<lambda>e. t_data e \<noteq> sd) (live tab)"
    and "length tab' = length tab"
proof -
  obtain es k where t: "tab = layout es k" "live tab = es" "\<forall>e \<in> set es. is_live e"
    and wf: "\<forall>e \<in> set es. entry_ok e" "shadow_free es" "INTERRUPT_VECTOR_INCR dvd length es + k"
    using ok by (rule table_ok_cases)
  define es' where "es' = filter (\<lambda>e. t_data e \<noteq> sd) es"
  obtain k' where lay: "tab' = layout es' k'"
    using release_loop_layout [OF t(3), of k sd 0] rel t(1)
    by (auto simp: release_all_interrupts_def es'_def)
  show "ret = 0" and len: "length tab' = length tab"
    using rel by (auto simp: release_all_interrupts_def)
  have "INTERRUPT_VECTOR_INCR dvd length es' + k'"
    using len lay t(1) wf(3) by simp
  then show "table_ok tab'"
    unfolding lay es'_def using wf by (intro table_ok_layoutI shadow_free_filter) simp_all
  show "live tab' = filter (\<lambda>e. t_data e \<noteq> sd) (live tab)"
    unfolding lay es'_def t(2) using t(3) by (intro live_layout) simp
qed

text \<open>The masks: bit \<open>n\<close> of crate \<open>c\<close> is set when some live entry asks for it.\<close>

lemma add_crates_upto:
  fixes e :: table_t
  assumes "length irqs = 16" "m \<le> 16"
  defines "f \<equiv> \<lambda>crate irqs. if s_crate (t_selector e) AND push_bit crate 1 \<noteq> 0
    then irqs[crate := irqs ! crate OR ucast (s_irq (t_selector e))] else irqs"
  shows "length (fold f [0..<m] irqs) = 16 \<and>
    (\<forall>c<16. fold f [0..<m] irqs ! c =
      (if c < m \<and> bit (s_crate (t_selector e)) c
       then irqs ! c OR ucast (s_irq (t_selector e)) else irqs ! c))"
  using assms(2)
proof (induction m)
  case 0
  then show ?case using assms(1) by simp
next
  case (Suc m)
  then show ?case
    by (auto simp: f_def and_exp_eq_0_iff nth_list_update less_Suc_eq)
qed

lemma length_add_crates [simp]: "length irqs = 16 \<Longrightarrow> length (add_crates e irqs) = 16"
  using add_crates_upto [of irqs 16 e] by (simp add: add_crates_def)

lemma bit_add_crates:
  assumes "length irqs = 16" "c < 16"
  shows "bit (add_crates e irqs ! c) n \<longleftrightarrow>
    bit (irqs ! c) n \<or> (bit (s_crate (t_selector e)) c \<and> bit (s_irq (t_selector e)) n \<and> n < 8)"
  using add_crates_upto [of irqs 16 e] assms
  by (auto simp: add_crates_def bit_simps)

lemma list_registered_loop_layout:
  assumes "\<forall>e \<in> set es. is_live e" "length irqs = 16"
  shows "length (list_registered_loop (layout es k) i irqs) = 16 \<and>
    (\<forall>c<16. \<forall>n. bit (list_registered_loop (layout es k) i irqs ! c) n \<longleftrightarrow>
      bit (irqs ! c) n \<or>
      (\<exists>e \<in> set (drop i es). bit (s_crate (t_selector e)) c \<and> bit (s_irq (t_selector e)) n \<and> n < 8))"
  using assms(2)
proof (induction "layout es k" i irqs rule: list_registered_loop.induct)
  case (1 i irqs)
  note live_iff = layout_live_iff [OF assms(1), of i k]
  show ?case
  proof (cases "i < length es")
    case False
    then have "list_registered_loop (layout es k) i irqs = irqs"
      using live_iff by (subst list_registered_loop.simps) auto
    with False 1 show ?thesis by simp
  next
    case True
    then have "list_registered_loop (layout es k) i irqs =
        list_registered_loop (layout es k) (Suc i) (add_crates (es ! i) irqs)"
      using live_iff by (subst list_registered_loop.simps) (simp add: nth_layout)
    moreover have "drop i es = es ! i # drop (Suc i) es"
      using True by (simp add: Cons_nth_drop_Suc)
    ultimately show ?thesis
      using 1 True live_iff by (auto simp: nth_layout bit_add_crates)
  qed
qed

lemma list_registered_cases:
  assumes "table_ok tab"
  shows "length (list_registered_interrupts tab) = 16"
    and "c < 16 \<Longrightarrow> bit (list_registered_interrupts tab ! c) n \<longleftrightarrow>
      (\<exists>e \<in> set (live tab). bit (s_crate (t_selector e)) c \<and> bit (s_irq (t_selector e)) n)"
proof -
  obtain es k where t: "tab = layout es k" "live tab = es" "\<forall>e \<in> set es. is_live e"
    and wf: "\<forall>e \<in> set es. entry_ok e"
    using assms by (rule table_ok_cases)
  note l = list_registered_loop_layout [OF t(3), of "replicate 16 0" k 0]
  show "length (list_registered_interrupts tab) = 16"
    using l t(1) by (simp add: list_registered_interrupts_def)
  have small: "n < 8" if "e \<in> set es" "bit (s_irq (t_selector e)) n" for e
    using wf that entry_ok_irq_bits [of e n] by auto
  assume "c < 16"
  then show "bit (list_registered_interrupts tab ! c) n \<longleftrightarrow>
      (\<exists>e \<in> set (live tab). bit (s_crate (t_selector e)) c \<and> bit (s_irq (t_selector e)) n)"
    using l t(1,2) small by (auto simp: list_registered_interrupts_def)
qed

lemma count_registered_eq: "count_registered_interrupts tab = length (live tab)"
  by (simp add: count_registered_interrupts_def foreach_end_eq live_def)

section \<open>The contract of the registry\<close>

text \<open>
  What the dispatcher is entitled to know of the table, stated over the list of live entries.
\<close>

locale irq_registry =
  fixes inv :: "'t \<Rightarrow> bool"
    and entries :: "'t \<Rightarrow> table_t list"
    and find :: "'t \<Rightarrow> selector \<Rightarrow> int \<Rightarrow> int \<times> int \<times> selector"
    and register :: "'t \<Rightarrow> int \<Rightarrow> selector \<Rightarrow> int \<times> 't"
    and release :: "'t \<Rightarrow> int \<Rightarrow> selector \<Rightarrow> int \<times> 't"
    and release_all :: "'t \<Rightarrow> int \<Rightarrow> int \<times> 't"
    and listing :: "'t \<Rightarrow> u8 list"
  assumes entries_ok: "inv t \<Longrightarrow> e \<in> set (entries t) \<Longrightarrow> entry_ok e"
    and entries_shadow_free: "inv t \<Longrightarrow> shadow_free (entries t)"
    and find_law: "inv t \<Longrightarrow> find t r errno =
      (case lookup_entry (entries t) r of
         None \<Rightarrow> (0, EINVAL, r)
       | Some e \<Rightarrow> (t_data e, errno, r\<lparr>s_payload := s_payload (t_selector e)\<rparr>))"
    and register_fail: "inv t \<Longrightarrow> register t sd r = (ret, t') \<Longrightarrow> ret \<noteq> 0 \<Longrightarrow> ret < 0 \<and> t' = t"
    and register_new: "inv t \<Longrightarrow> register t sd r = (0, t') \<Longrightarrow>
      sd \<noteq> 0 \<and> lookup_entry (entries t) r = None"
    and register_law: "inv t \<Longrightarrow> register t sd r = (0, t') \<Longrightarrow>
      inv t' \<and> entries t' = entries t @ [\<lparr>t_selector = r, t_data = sd\<rparr>]"
    and release_fail: "inv t \<Longrightarrow> release t sd r = (ret, t') \<Longrightarrow> ret \<noteq> 0 \<Longrightarrow> ret < 0 \<and> t' = t"
    and release_law: "inv t \<Longrightarrow> release t sd r = (0, t') \<Longrightarrow>
      inv t' \<and> entries t' = filter (\<lambda>e. \<not> hasheq (t_selector e) r) (entries t)"
    and release_own: "inv t \<Longrightarrow> release t sd r = (0, t') \<Longrightarrow>
      \<exists>e \<in> set (entries t). hasheq (t_selector e) r \<and> t_data e = sd"
    and release_all_law: "inv t \<Longrightarrow> release_all t sd = (ret, t') \<Longrightarrow>
      inv t' \<and> entries t' = filter (\<lambda>e. t_data e \<noteq> sd) (entries t)"
    and listing_length: "inv t \<Longrightarrow> length (listing t) = 16"
    and listing_law: "inv t \<Longrightarrow> c < 16 \<Longrightarrow> bit (listing t ! c) n \<longleftrightarrow>
      (\<exists>e \<in> set (entries t). bit (s_crate (t_selector e)) c \<and> bit (s_irq (t_selector e)) n)"
begin

lemma find_found:
  assumes "inv t" "find t r errno = (sd, errno', r')" "sd \<noteq> 0"
  obtains e where "e \<in> set (entries t)" "sel_match (t_selector e) r" "t_data e = sd"
    "lookup_entry (entries t) r = Some e"
  using assms find_in_set [of "\<lambda>e. sel_match (t_selector e) r" "entries t"]
  by (auto simp: find_law lookup_entry_def split: option.splits)

lemma find_missing:
  assumes "inv t" "find t r errno = (0, errno', r')"
  shows "errno' = EINVAL \<and> r' = r \<and> lookup_entry (entries t) r = None"
  using assms entries_ok [of t] find_in_set [of "\<lambda>e. sel_match (t_selector e) r" "entries t"]
  by (auto simp: find_law lookup_entry_def entry_ok_def split: option.splits)

lemma find_registered:
  assumes "inv t" "register t sd r = (0, t')"
  shows "find t' r errno = (sd, errno, r)"
proof -
  have "lookup_entry (entries t) r = None"
    using register_new [OF assms] by simp
  then have "lookup_entry (entries t') r = Some \<lparr>t_selector = r, t_data = sd\<rparr>"
    using register_law [OF assms] by (simp add: lookup_entry_def find_append)
  then show ?thesis
    using register_law [OF assms] by (simp add: find_law)
qed

lemma find_stable:
  assumes "inv t" "register t sd r = (0, t')" "lookup_entry (entries t) q \<noteq> None"
  shows "find t' q errno = find t q errno"
  using assms register_law [OF assms(1,2)]
  by (auto simp: find_law lookup_entry_def find_append)

lemma find_own:
  assumes "inv t" "e \<in> set (entries t)"
  shows "find t (t_selector e) errno = (t_data e, errno, t_selector e)"
  using assms lookup_own_entry [OF entries_shadow_free] by (simp add: find_law)

lemma find_after_release_all:
  assumes "inv t" "release_all t sd = (ret, t')" "sd \<noteq> 0"
  shows "fst (find t' r errno) \<noteq> sd"
proof
  assume "fst (find t' r errno) = sd"
  then obtain errno' r' where f: "find t' r errno = (sd, errno', r')"
    by (cases "find t' r errno") auto
  have t': "inv t'" "entries t' = filter (\<lambda>e. t_data e \<noteq> sd) (entries t)"
    using release_all_law [OF assms(1,2)] by simp_all
  obtain e where "e \<in> set (entries t')" "t_data e = sd"
    using t'(1) f assms(3) by (rule find_found)
  with t'(2) show False by simp
qed

lemma find_kept_by_release_all:
  assumes "inv t" "release_all t sd = (ret, t')" "find t r errno = (sd', e', r')"
    and "sd' \<noteq> 0" "sd' \<noteq> sd"
  shows "find t' r errno = (sd', e', r')"
proof -
  obtain e where e: "t_data e = sd'" "lookup_entry (entries t) r = Some e"
    using assms(1,3,4) by (rule find_found)
  then have "lookup_entry (entries t') r = Some e"
    using release_all_law [OF assms(1,2)] assms(5)
    by (simp add: lookup_entry_def find_filter_kept)
  then show ?thesis
    using assms(1,3) e release_all_law [OF assms(1,2)] by (simp add: find_law)
qed

lemma find_listed:
  assumes "inv t" "find t r errno = (sd, e', r')" "sd \<noteq> 0" "c < 16"
    and "bit (s_crate r) c" "bit (s_irq r) n"
  shows "bit (listing t ! c) n"
proof -
  obtain e where "e \<in> set (entries t)" "sel_match (t_selector e) r"
    using assms(1-3) by (rule find_found)
  then show ?thesis
    using assms by (auto simp: listing_law dest: sel_match_crate_bit sel_match_irq_bit)
qed

lemma listing_small:
  assumes "inv t" "c < 16" "bit (listing t ! c) n"
  shows "1 \<le> n \<and> n \<le> 7"
  using assms entries_ok entry_ok_irq_bits by (auto simp: listing_law)

end

interpretation reg: irq_registry table_ok live find_interrupt "register_interrupt realloc_ok"
  release_interrupt release_all_interrupts list_registered_interrupts
  for realloc_ok :: "nat \<Rightarrow> bool"
proof (unfold_locales, goal_cases)
  case (1 t e) then show ?case by (simp add: table_ok_def)
next
  case (2 t) then show ?case by (simp add: table_ok_def)
next
  case (3 t r errno) then show ?case by (rule find_interrupt_eq)
next
  case (4 t sd r ret t') then show ?case using register_interrupt_cases(2) by blast
next
  case (5 t sd r t') then show ?case using register_interrupt_cases(1) by blast
next
  case (6 t sd r t') then show ?case using register_interrupt_cases(3) by blast
next
  case (7 t sd r ret t') then show ?case using release_interrupt_cases(2) by fastforce
next
  case (8 t sd r t') then show ?case using release_interrupt_cases(3) by blast
next
  case (9 t sd r t') then show ?case using release_interrupt_cases(1) by blast
next
  case (10 t sd ret t') then show ?case using release_all_interrupts_cases(2,3) by blast
next
  case (11 t) then show ?case by (rule list_registered_cases)
next
  case (12 t c n) then show ?case by (rule list_registered_cases)
qed

end
