(* ===== verification/C_Stdio.thy ===== *)
theory C_Stdio
  imports C_Prelude
begin

text \<open>
  What the sources use of the C library's text functions: the number conversions of
  \<open>printf\<close>, the number reader \<open>strtoul\<close>, and the character classes of \<open>ctype.h\<close> in the C
  locale. Strings are lists of characters without the terminating NUL.
\<close>

section \<open>Printing numbers\<close>

fun digit_char :: "nat \<Rightarrow> char" where
  "digit_char d = (if d < 10 then char_of (48 + d) else char_of (55 + d))"

text \<open>Digits of a number in base \<open>b\<close>, most significant first, upper case.\<close>

function show_base :: "nat \<Rightarrow> nat \<Rightarrow> string" where
  "show_base b n =
     (if b < 2 \<or> n < b then [digit_char n] else show_base b (n div b) @ [digit_char (n mod b)])"
  by pat_completeness auto
termination by (relation "measure (\<lambda>(b, n). n)") auto

declare show_base.simps [simp del]

text \<open>\<open>%u\<close> and \<open>%d\<close>; \<open>%0wX\<close> pads with zeros to \<open>w\<close> characters; \<open>%wd\<close> pads with spaces.\<close>

definition fmt_u :: "nat \<Rightarrow> string" where
  "fmt_u n = show_base 10 n"

definition fmt_d :: "int \<Rightarrow> string" where
  "fmt_d i = (if i < 0 then CHR ''-'' # show_base 10 (nat (- i)) else show_base 10 (nat i))"

definition pad_left :: "char \<Rightarrow> nat \<Rightarrow> string \<Rightarrow> string" where
  "pad_left c w s = replicate (w - length s) c @ s"

definition pad_right :: "nat \<Rightarrow> string \<Rightarrow> string" where
  "pad_right w s = s @ replicate (w - length s) (CHR '' '')"

definition fmt_X :: "nat \<Rightarrow> nat \<Rightarrow> string" where
  "fmt_X w n = pad_left (CHR ''0'') w (show_base 16 n)"

text \<open>\<open>snprintf\<close> into \<open>n\<close> bytes keeps at most \<open>n - 1\<close> characters.\<close>

definition snprintf_text :: "nat \<Rightarrow> string \<Rightarrow> string" where
  "snprintf_text n s = take (n - 1) s"

section \<open>Character classes\<close>

definition c_isdigit :: "char \<Rightarrow> bool" where
  "c_isdigit c \<longleftrightarrow> 48 \<le> (of_char c :: nat) \<and> (of_char c :: nat) \<le> 57"

definition c_isupper :: "char \<Rightarrow> bool" where
  "c_isupper c \<longleftrightarrow> 65 \<le> (of_char c :: nat) \<and> (of_char c :: nat) \<le> 90"

definition c_islower :: "char \<Rightarrow> bool" where
  "c_islower c \<longleftrightarrow> 97 \<le> (of_char c :: nat) \<and> (of_char c :: nat) \<le> 122"

definition c_isalnum :: "char \<Rightarrow> bool" where
  "c_isalnum c \<longleftrightarrow> c_isdigit c \<or> c_isupper c \<or> c_islower c"

definition c_isblank :: "char \<Rightarrow> bool" where
  "c_isblank c \<longleftrightarrow> (of_char c :: nat) = 32 \<or> (of_char c :: nat) = 9"

definition c_isspace :: "char \<Rightarrow> bool" where
  "c_isspace c \<longleftrightarrow> (of_char c :: nat) = 32 \<or> (9 \<le> (of_char c :: nat) \<and> (of_char c :: nat) \<le> 13)"

definition c_isprint :: "char \<Rightarrow> bool" where
  "c_isprint c \<longleftrightarrow> 32 \<le> (of_char c :: nat) \<and> (of_char c :: nat) < 127"

definition c_toupper :: "char \<Rightarrow> char" where
  "c_toupper c = (if c_islower c then char_of ((of_char c :: nat) - 32) else c)"

section \<open>Reading numbers\<close>

definition digit_value :: "char \<Rightarrow> nat" where
  "digit_value c =
     (if c_isdigit c then of_char c - 48
      else if c_isupper c then of_char c - 55
      else if c_islower c then of_char c - 87 else 99)"

fun read_digits :: "nat \<Rightarrow> nat \<Rightarrow> string \<Rightarrow> nat" where
  "read_digits b acc [] = acc"
| "read_digits b acc (c # cs) =
     (if digit_value c < b then read_digits b (b * acc + digit_value c) cs else acc)"

fun count_digits :: "nat \<Rightarrow> string \<Rightarrow> nat" where
  "count_digits b [] = 0"
| "count_digits b (c # cs) = (if digit_value c < b then Suc (count_digits b cs) else 0)"

text \<open>
  The subject sequence of \<open>strtol\<close>, \<open>strtoul\<close> and \<open>strtoull\<close>: leading white space, one
  sign, then the base prefix (base 0 reads \<open>0x\<close> as hexadecimal and a leading \<open>0\<close> as octal)
  and the digits. The result is the sign, the magnitude and the number of characters taken,
  0 when there is no number.
\<close>

definition strip_sign :: "string \<Rightarrow> bool \<times> string" where
  "strip_sign s =
     (case s of
        c # cs \<Rightarrow> if c = CHR ''-'' then (True, cs) else if c = CHR ''+'' then (False, cs) else (False, s)
      | [] \<Rightarrow> (False, s))"

definition base_prefix :: "nat \<Rightarrow> string \<Rightarrow> nat \<times> string" where
  "base_prefix base s =
     (case s of
        z # x # h # rest \<Rightarrow>
          if z = CHR ''0'' \<and> (x = CHR ''x'' \<or> x = CHR ''X'') \<and> digit_value h < 16 \<and> (base = 0 \<or> base = 16)
          then (16, h # rest)
          else (if base \<noteq> 0 then base else if z = CHR ''0'' then 8 else 10, s)
      | z # rest \<Rightarrow> (if base \<noteq> 0 then base else if z = CHR ''0'' then 8 else 10, s)
      | [] \<Rightarrow> (10, s))"

definition strto_subject :: "nat \<Rightarrow> string \<Rightarrow> bool \<times> nat \<times> nat" where
  "strto_subject base s =
     (let s1 = dropWhile c_isspace s;
          (neg, s2) = strip_sign s1;
          (b, s3) = base_prefix base s2;
          n = count_digits b s3 in
      if n = 0 then (False, 0, 0) else (neg, read_digits b 0 s3, length s - length s3 + n))"

text \<open>
  \<open>strtoul\<close> on a 64-bit \<open>unsigned long\<close> (and \<open>strtoull\<close>): the value, the number of
  characters taken (\<open>endptr - nptr\<close>) and the new \<open>errno\<close>, which only changes on overflow.
\<close>

definition strtoul :: "nat \<Rightarrow> string \<Rightarrow> int \<Rightarrow> u64 \<times> nat \<times> int" where
  "strtoul base s errno =
     (let (neg, v, n) = strto_subject base s in
      if 2 ^ 64 \<le> v then (- 1, n, ERANGE)
      else (if neg then - of_nat v else of_nat v, n, errno))"

definition strtol :: "nat \<Rightarrow> string \<Rightarrow> int \<Rightarrow> int \<times> nat \<times> int" where
  "strtol base s errno =
     (let (neg, v, n) = strto_subject base s in
      if neg then (if 2 ^ 63 < v then (- (2 ^ 63), n, ERANGE) else (- int v, n, errno))
      else if 2 ^ 63 \<le> v then (2 ^ 63 - 1, n, ERANGE) else (int v, n, errno))"

declare strtoul_def [num_eval] strtol_def [num_eval] strto_subject_def [num_eval] strip_sign_def [num_eval] base_prefix_def [num_eval]
  c_isspace_def [num_eval] digit_value_def [num_eval] c_isdigit_def [num_eval] c_isupper_def [num_eval] c_islower_def [num_eval]

lemma strtoul_no_number: "snd (snd (strto_subject base s)) = 0 \<Longrightarrow> fst (strtoul base s e) = 0"
  by (auto simp: strtoul_def strto_subject_def Let_def split: prod.splits if_splits)

lemma strtoul_errno: "snd (snd (strtoul base s e)) = e \<or> snd (snd (strtoul base s e)) = ERANGE"
  by (simp add: strtoul_def split: prod.splits)

lemma show_base_nonempty [simp]: "show_base b n \<noteq> []"
  by (subst show_base.simps) simp

end
