(* ===== verification/Irq_Wire.thy ===== *)
theory Irq_Wire
  imports Irq_Selector C_Stdio
begin

text \<open>
  The messages of the dispatch service (\<open>include/v120irqd_intl.h\<close>) as the bytes that travel:
  a \<open>response_buffer\<close> is 20 bytes of memory, a 32-bit message type followed by a union of the
  12-byte selector and the 16-byte server status, little-endian. The accessors read and write
  the fields in place, so the union really shares its bytes. Also the two utilities of
  \<open>libV120irqd/interrupts.c\<close>, \<open>v120irqd_ilog2f\<close> and \<open>message_select_str\<close>.
\<close>

section \<open>Bytes\<close>

type_synonym bytes = "u8 list"

definition le16 :: "u16 \<Rightarrow> bytes" where
  "le16 w = [ucast w, ucast (drop_bit 8 w)]"

definition le32 :: "u32 \<Rightarrow> bytes" where
  "le32 w = [ucast w, ucast (drop_bit 8 w), ucast (drop_bit 16 w), ucast (drop_bit 24 w)]"

definition rd16 :: "bytes \<Rightarrow> nat \<Rightarrow> u16" where
  "rd16 b i = ucast (b ! i) OR push_bit 8 (ucast (b ! (i + 1)))"

definition rd32 :: "bytes \<Rightarrow> nat \<Rightarrow> u32" where
  "rd32 b i = ucast (b ! i) OR push_bit 8 (ucast (b ! (i + 1)))
     OR push_bit 16 (ucast (b ! (i + 2))) OR push_bit 24 (ucast (b ! (i + 3)))"

definition poke :: "bytes \<Rightarrow> nat \<Rightarrow> bytes \<Rightarrow> bytes" where
  "poke b i xs = take i b @ xs @ drop (i + length xs) b"

lemma length_le16 [simp]: "length (le16 w) = 2"
  and length_le32 [simp]: "length (le32 v) = 4"
  by (simp_all add: le16_def le32_def)

lemma length_poke [simp]: "i + length xs \<le> length b \<Longrightarrow> length (poke b i xs) = length b"
  by (simp add: poke_def)

lemma nth_poke:
  "i + length xs \<le> length b \<Longrightarrow> k < length b \<Longrightarrow>
    poke b i xs ! k = (if i \<le> k \<and> k < i + length xs then xs ! (k - i) else b ! k)"
  by (auto simp: poke_def nth_append)

lemma rd16_le16:
  "xs ! 0 = le16 w ! 0 \<Longrightarrow> xs ! 1 = le16 w ! 1 \<Longrightarrow> rd16 xs 0 = w"
  by (rule bit_word_eqI) (auto simp: rd16_def le16_def bit_simps)

lemma rd16_poke [simp]:
  assumes "i + 2 \<le> length b"
  shows "rd16 (poke b i (le16 w)) i = w"
  using assms rd16_le16 [of "le16 w" w] by (simp add: rd16_def nth_poke)

lemma rd32_poke [simp]:
  assumes "i + 4 \<le> length b"
  shows "rd32 (poke b i (le32 w)) i = w"
proof -
  have "rd32 (poke b i (le32 w)) i = rd32 (le32 w) 0"
    using assms by (simp add: rd32_def nth_poke le32_def)
  also have "\<dots> = w"
  proof (rule bit_word_eqI)
    fix n assume "n < LENGTH(32)"
    then show "bit (rd32 (le32 w) 0) n = bit w n"
      by (cases "n < 8"; cases "n < 16"; cases "n < 24") (auto simp: rd32_def le32_def bit_simps)
  qed
  finally show ?thesis .
qed

lemma rd16_poke_other [simp]:
  assumes "i + length xs \<le> length b" "j + 2 \<le> length b" "j + 2 \<le> i \<or> i + length xs \<le> j"
  shows "rd16 (poke b i xs) j = rd16 b j"
  using assms by (auto simp: rd16_def nth_poke)

lemma rd32_poke_other [simp]:
  assumes "i + length xs \<le> length b" "j + 4 \<le> length b" "j + 4 \<le> i \<or> i + length xs \<le> j"
  shows "rd32 (poke b i xs) j = rd32 b j"
  using assms by (auto simp: rd32_def nth_poke)

section \<open>The response buffer\<close>

definition NAK :: u32 where "NAK = 0"
definition ACK :: u32 where "ACK = 1"
definition REQUEST_IRQ :: u32 where "REQUEST_IRQ = 2"
definition RELEASE_IRQ :: u32 where "RELEASE_IRQ = 3"
definition IRQ_SIGNAL :: u32 where "IRQ_SIGNAL = 4"
definition SERVER_STATUS :: u32 where "SERVER_STATUS = 5"

lemmas message_defs = NAK_def ACK_def REQUEST_IRQ_def RELEASE_IRQ_def IRQ_SIGNAL_def SERVER_STATUS_def

record serverstatus =
  st_pid :: u32
  st_crates :: u32
  st_clients :: u32
  st_irq_requests :: u32

definition RB_SIZE :: nat where "RB_SIZE = 20"

definition rb_msg :: "bytes \<Rightarrow> u32" where
  "rb_msg b = rd32 b 0"

definition rb_set_msg :: "bytes \<Rightarrow> u32 \<Rightarrow> bytes" where
  "rb_set_msg b m = poke b 0 (le32 m)"

definition rb_selector :: "bytes \<Rightarrow> selector" where
  "rb_selector b =
     \<lparr>s_crate = rd16 b 4, s_irq = rd16 b 6, s_vector = rd32 b 8, s_payload = rd32 b 12\<rparr>"

definition rb_set_selector :: "bytes \<Rightarrow> selector \<Rightarrow> bytes" where
  "rb_set_selector b s =
     poke (poke (poke (poke b 4 (le16 (s_crate s))) 6 (le16 (s_irq s))) 8 (le32 (s_vector s)))
       12 (le32 (s_payload s))"

definition rb_status :: "bytes \<Rightarrow> serverstatus" where
  "rb_status b =
     \<lparr>st_pid = rd32 b 4, st_crates = rd32 b 8, st_clients = rd32 b 12, st_irq_requests = rd32 b 16\<rparr>"

definition rb_set_status :: "bytes \<Rightarrow> serverstatus \<Rightarrow> bytes" where
  "rb_set_status b s =
     poke (poke (poke (poke b 4 (le32 (st_pid s))) 8 (le32 (st_crates s))) 12 (le32 (st_clients s)))
       16 (le32 (st_irq_requests s))"

lemma length_rb_set [simp]:
  "length b = RB_SIZE \<Longrightarrow> length (rb_set_msg b m) = RB_SIZE"
  "length b = RB_SIZE \<Longrightarrow> length (rb_set_selector b s) = RB_SIZE"
  "length b = RB_SIZE \<Longrightarrow> length (rb_set_status b t) = RB_SIZE"
  by (simp_all add: RB_SIZE_def rb_set_msg_def rb_set_selector_def rb_set_status_def)

lemma rb_roundtrip [simp]:
  assumes "length b = RB_SIZE"
  shows "rb_msg (rb_set_msg b m) = m"
    and "rb_selector (rb_set_selector b s) = s"
    and "rb_status (rb_set_status b t) = t"
    and "rb_msg (rb_set_selector b s) = rb_msg b"
    and "rb_msg (rb_set_status b t) = rb_msg b"
    and "rb_selector (rb_set_msg b m) = rb_selector b"
    and "rb_status (rb_set_msg b m) = rb_status b"
  using assms
  by (simp_all add: RB_SIZE_def rb_msg_def rb_set_msg_def rb_selector_def rb_set_selector_def
      rb_status_def rb_set_status_def)

text \<open>The layout keeps the two contracts of a message: its kind beside a selector, or beside a status.\<close>

interpretation msg_sel: field_pair "\<lambda>b. length b = RB_SIZE" rb_msg rb_set_msg rb_selector rb_set_selector
  by unfold_locales simp_all

interpretation msg_stat: field_pair "\<lambda>b. length b = RB_SIZE" rb_msg rb_set_msg rb_status rb_set_status
  by unfold_locales simp_all

section \<open>Message names\<close>

definition message_select_str :: "u32 \<Rightarrow> string" where
  "message_select_str msg =
     (let strs = [''NAK'', ''ACK'', ''REQUEST_IRQ'', ''RELEASE_IRQ'', ''IRQ_SIGNAL'', ''SERVER_STATUS''] in
      if NAK \<le> msg \<and> msg \<le> IRQ_SIGNAL then strs ! unat msg
      else snprintf_text 16 (fmt_d (sint msg)))"

section \<open>The index of the highest bit\<close>

definition v120irqd_ilog2f :: "u32 \<Rightarrow> int" where
  "v120irqd_ilog2f x =
     (if x = 0 then - 1 else
      let (ret, x) = (if x AND 0xFFFF0000 \<noteq> 0 then (16, drop_bit 16 x) else (0, x));
          (ret, x) = (if x AND 0x0000FF00 \<noteq> 0 then (ret + 8, drop_bit 8 x) else (ret, x));
          (ret, x) = (if x AND 0x000000F0 \<noteq> 0 then (ret + 4, drop_bit 4 x) else (ret, x));
          (ret, x) = (if x AND 0x0000000C \<noteq> 0 then (ret + 2, drop_bit 2 x) else (ret, x))
      in if x AND 0x00000002 \<noteq> 0 then ret + 1 else ret)"

definition highest_bit :: "u32 \<Rightarrow> nat \<Rightarrow> bool" where
  "highest_bit x r \<longleftrightarrow> bit x r \<and> (\<forall>n. bit x n \<longrightarrow> n \<le> r)"

text \<open>One halving step: the upper half of a field of \<open>2 * k\<close> bits is empty or shifted down.\<close>

lemma ilog2_step:
  fixes x :: u32
  assumes M: "M = push_bit k (mask k)" and k: "2 * k \<le> 32"
    and x: "x \<noteq> 0" "\<forall>n. bit x n \<longrightarrow> n < 2 * k"
  shows "x AND M \<noteq> 0 \<Longrightarrow> drop_bit k x \<noteq> 0 \<and> (\<forall>n. bit (drop_bit k x) n \<longrightarrow> n < k) \<and>
      (\<forall>r. highest_bit (drop_bit k x) r \<longrightarrow> highest_bit x (k + r))"
    and "x AND M = 0 \<Longrightarrow> \<forall>n. bit x n \<longrightarrow> n < k"
proof -
  have M_bit: "bit M n \<longleftrightarrow> k \<le> n \<and> n < 2 * k" for n
    using k by (auto simp: M bit_simps)
  show "\<forall>n. bit x n \<longrightarrow> n < k" if "x AND M = 0"
    using that x(2) M_bit by (meson and_eq_0_iff not_le)
  assume "x AND M \<noteq> 0"
  then obtain m where m: "bit x m" "k \<le> m"
    using M_bit by (auto simp: and_eq_0_iff)
  then have "bit (drop_bit k x) (m - k)"
    by (simp add: bit_drop_bit_eq)
  then have "drop_bit k x \<noteq> 0"
    by auto
  moreover have "n < k" if "bit (drop_bit k x) n" for n
    using that x(2) by (fastforce simp: bit_drop_bit_eq)
  moreover have "highest_bit x (k + r)" if "highest_bit (drop_bit k x) r" for r
  proof -
    have "n \<le> k + r" if "bit x n" for n
    proof (cases "k \<le> n")
      case True
      then have "bit (drop_bit k x) (n - k)" using that by (simp add: bit_drop_bit_eq)
      then show ?thesis using \<open>highest_bit (drop_bit k x) r\<close> by (auto simp: highest_bit_def)
    qed auto
    then show ?thesis using that by (auto simp: highest_bit_def bit_drop_bit_eq)
  qed
  ultimately show "drop_bit k x \<noteq> 0 \<and> (\<forall>n. bit (drop_bit k x) n \<longrightarrow> n < k) \<and>
      (\<forall>r. highest_bit (drop_bit k x) r \<longrightarrow> highest_bit x (k + r))"
    by blast
qed

lemma highest_bit_low:
  assumes "x \<noteq> 0" "\<forall>n. bit x n \<longrightarrow> n < 2"
  shows "highest_bit x (if x AND 0x00000002 \<noteq> 0 then 1 else 0)"
proof -
  have two: "x AND 2 = 0 \<longleftrightarrow> \<not> bit x 1"
    using and_exp_eq_0_iff [of x 1] by simp
  obtain m where "bit x m" using assms(1) by (auto simp: word_neq_0_bit)
  moreover from this have "m = 0 \<or> m = 1" using assms(2) by fastforce
  ultimately show ?thesis
    using assms(2) two by (auto simp: highest_bit_def less_2_cases_iff)
qed

lemma ilog2_step_eq:
  fixes x :: u32
  assumes "M = push_bit k (mask k)" "2 * k \<le> 32" "x \<noteq> 0" "\<forall>n. bit x n \<longrightarrow> n < m" "m = 2 * k"
    and "(if x AND M \<noteq> 0 then (a + int k, drop_bit k x) else (a, x)) = (a', x')"
  shows "x' \<noteq> 0" "\<forall>n. bit x' n \<longrightarrow> n < k"
    "\<forall>r. highest_bit x' r \<longrightarrow> (\<exists>r'. highest_bit x r' \<and> int r' + a = int r + a')"
proof -
  note step = ilog2_step [OF assms(1-4) [unfolded assms(5)]]
  have "x' \<noteq> 0 \<and> (\<forall>n. bit x' n \<longrightarrow> n < k) \<and>
      (\<forall>r. highest_bit x' r \<longrightarrow> (\<exists>r'. highest_bit x r' \<and> int r' + a = int r + a'))"
  proof (cases "x AND M = 0")
    case True
    then show ?thesis using assms(3,6) step(2) by auto
  next
    case False
    then have "highest_bit x (k + r)" if "highest_bit x' r" for r
      using assms(6) step(1) that by auto
    then show ?thesis
      using False assms(6) step(1) by (auto intro!: exI)
  qed
  then show "x' \<noteq> 0" "\<forall>n. bit x' n \<longrightarrow> n < k"
    "\<forall>r. highest_bit x' r \<longrightarrow> (\<exists>r'. highest_bit x r' \<and> int r' + a = int r + a')"
    by blast+
qed

lemma ilog2f_highest_bit:
  assumes "x \<noteq> 0"
  shows "\<exists>r. v120irqd_ilog2f x = int r \<and> highest_bit x r"
proof -
  obtain r1 :: int and x1 :: u32 where s1: "(if x AND 0xFFFF0000 \<noteq> 0 then (16, drop_bit 16 x) else (0, x)) = (r1, x1)"
    by fastforce
  obtain r2 :: int and x2 :: u32 where s2: "(if x1 AND 0x0000FF00 \<noteq> 0 then (r1 + 8, drop_bit 8 x1) else (r1, x1)) = (r2, x2)"
    by fastforce
  obtain r3 :: int and x3 :: u32 where s3: "(if x2 AND 0x000000F0 \<noteq> 0 then (r2 + 4, drop_bit 4 x2) else (r2, x2)) = (r3, x3)"
    by fastforce
  obtain r4 :: int and x4 :: u32 where s4: "(if x3 AND 0x0000000C \<noteq> 0 then (r3 + 2, drop_bit 2 x3) else (r3, x3)) = (r4, x4)"
    by fastforce
  have s1': "(if x AND 0xFFFF0000 \<noteq> 0 then (0 + int 16, drop_bit 16 x) else (0, x)) = (r1, x1)"
    using s1 by (auto split: if_splits)
  have s2': "(if x1 AND 0x0000FF00 \<noteq> 0 then (r1 + int 8, drop_bit 8 x1) else (r1, x1)) = (r2, x2)"
    using s2 by (auto split: if_splits)
  have s3': "(if x2 AND 0x000000F0 \<noteq> 0 then (r2 + int 4, drop_bit 4 x2) else (r2, x2)) = (r3, x3)"
    using s3 by (auto split: if_splits)
  have s4': "(if x3 AND 0x0000000C \<noteq> 0 then (r3 + int 2, drop_bit 2 x3) else (r3, x3)) = (r4, x4)"
    using s4 by (auto split: if_splits)
  have bits: "\<forall>n. bit x n \<longrightarrow> n < 32"
    using bit_imp_le_length [of x] by simp
  note f1 = ilog2_step_eq [OF _ _ assms bits _ s1']
  have f1: "x1 \<noteq> 0" "\<forall>n. bit x1 n \<longrightarrow> n < 16"
    "\<forall>r. highest_bit x1 r \<longrightarrow> (\<exists>r'. highest_bit x r' \<and> int r' + 0 = int r + r1)"
    by (rule f1; simp add: push_bit_eq_mult mask_eq_exp_minus_1)+
  note f2 = ilog2_step_eq [OF _ _ f1(1,2) _ s2']
  have f2: "x2 \<noteq> 0" "\<forall>n. bit x2 n \<longrightarrow> n < 8"
    "\<forall>r. highest_bit x2 r \<longrightarrow> (\<exists>r'. highest_bit x1 r' \<and> int r' + r1 = int r + r2)"
    by (rule f2; simp add: push_bit_eq_mult mask_eq_exp_minus_1)+
  note f3 = ilog2_step_eq [OF _ _ f2(1,2) _ s3']
  have f3: "x3 \<noteq> 0" "\<forall>n. bit x3 n \<longrightarrow> n < 4"
    "\<forall>r. highest_bit x3 r \<longrightarrow> (\<exists>r'. highest_bit x2 r' \<and> int r' + r2 = int r + r3)"
    by (rule f3; simp add: push_bit_eq_mult mask_eq_exp_minus_1)+
  note f4 = ilog2_step_eq [OF _ _ f3(1,2) _ s4']
  have f4: "x4 \<noteq> 0" "\<forall>n. bit x4 n \<longrightarrow> n < 2"
    "\<forall>r. highest_bit x4 r \<longrightarrow> (\<exists>r'. highest_bit x3 r' \<and> int r' + r3 = int r + r4)"
    by (rule f4; simp add: push_bit_eq_mult mask_eq_exp_minus_1)+
  define b where "b = (if x4 AND 0x00000002 \<noteq> 0 then 1 else (0 :: nat))"
  have "highest_bit x4 b"
    unfolding b_def using f4(1,2) by (rule highest_bit_low)
  then obtain b3 where b3: "highest_bit x3 b3" "int b3 + r3 = int b + r4"
    using f4(3) by blast
  then obtain b2 where b2: "highest_bit x2 b2" "int b2 + r2 = int b3 + r3"
    using f3(3) by blast
  then obtain b1 where b1: "highest_bit x1 b1" "int b1 + r1 = int b2 + r2"
    using f2(3) by blast
  then obtain r where "highest_bit x r" "int r + 0 = int b1 + r1"
    using f1(3) by blast
  then have "highest_bit x r" "int r = int b + r4"
    using b1(2) b2(2) b3(2) by simp_all
  moreover have "v120irqd_ilog2f x = int b + r4"
    unfolding v120irqd_ilog2f_def Let_def s1 prod.case s2 s3 s4
    using assms by (simp add: b_def)
  ultimately show ?thesis by metis
qed

lemma highest_bit_bounds:
  assumes "highest_bit x r"
  shows "2 ^ r \<le> unat x" and "unat x < 2 ^ Suc r"
proof -
  have "odd (unat x div 2 ^ r)"
    using assms by (simp add: highest_bit_def bit_iff_odd bit_unsigned_iff flip: bit_iff_odd)
  then have "unat x div 2 ^ r \<noteq> 0" by (metis even_zero)
  then show "2 ^ r \<le> unat x" by (simp add: div_eq_0_iff)
  have "take_bit (Suc r) (unat x) = unat x"
    using assms by (intro bit_eqI) (auto simp: bit_take_bit_iff bit_unsigned_iff highest_bit_def less_Suc_eq_le)
  then show "unat x < 2 ^ Suc r"
    by (metis take_bit_nat_less_exp)
qed

end
