(* ===== verification/Irq_Client.thy ===== *)
theory Irq_Client
  imports Irq_Wire
begin

text \<open>
  The client and server side calls of \<open>libV120irqd/interrupts.c\<close> over the sockets of the
  kernel. The kernel is a record of what it will answer (for each descriptor the queue of
  results of \<open>read\<close> and of \<open>write\<close>) and of what it was given (the messages written, the
  descriptors closed). A read from an empty queue blocks. Uninitialised stack buffers are
  parameters (\<open>junk\<close>): a call reads them as the C code would.
\<close>

section \<open>Sockets\<close>

datatype recv = RecvErr int | RecvMsg bytes

text \<open>\<open>k_wr\<close> holds the results of the next writes, 0 for success or an error number; when the
  queue is empty a write succeeds. An orderly shutdown of the peer reads as an empty message.\<close>

record kernel =
  k_in :: "int \<Rightarrow> recv list"
  k_wr :: "int \<Rightarrow> int list"
  k_out :: "(int \<times> bytes) list"
  k_closed :: "int list"

definition sys_write :: "kernel \<Rightarrow> int \<Rightarrow> bytes \<Rightarrow> (int + int) \<times> kernel" where
  "sys_write k fd bs =
     (case k_wr k fd of
        e # es \<Rightarrow>
          if e = 0 then (Inr (int (length bs)),
            k\<lparr>k_wr := (k_wr k)(fd := es), k_out := k_out k @ [(fd, bs)]\<rparr>)
          else (Inl e, k\<lparr>k_wr := (k_wr k)(fd := es)\<rparr>)
      | [] \<Rightarrow> (Inr (int (length bs)), k\<lparr>k_out := k_out k @ [(fd, bs)]\<rparr>))"

text \<open>A read takes one packet; what does not fit into the buffer is lost.\<close>

definition sys_read :: "kernel \<Rightarrow> int \<Rightarrow> bytes \<Rightarrow> ((int + int) \<times> bytes \<times> kernel) outcome" where
  "sys_read k fd buf =
     (case k_in k fd of
        [] \<Rightarrow> Blocked
      | RecvErr e # rs \<Rightarrow> Done (Inl e, buf, k\<lparr>k_in := (k_in k)(fd := rs)\<rparr>)
      | RecvMsg bs # rs \<Rightarrow>
          Done (Inr (int (length (take RB_SIZE bs))), poke buf 0 (take RB_SIZE bs),
                k\<lparr>k_in := (k_in k)(fd := rs)\<rparr>))"

definition sys_close :: "kernel \<Rightarrow> int \<Rightarrow> kernel" where
  "sys_close k fd = k\<lparr>k_closed := k_closed k @ [fd]\<rparr>"

section \<open>Sending and receiving messages\<close>

definition v120irqd_msg_send :: "kernel \<Rightarrow> int \<Rightarrow> bytes \<Rightarrow> int \<times> kernel" where
  "v120irqd_msg_send k sock buf =
     (case sys_write k sock buf of (Inl errno, k) \<Rightarrow> (- errno, k) | (Inr len, k) \<Rightarrow> (len, k))"

definition v120_irqd_msg_recv :: "kernel \<Rightarrow> int \<Rightarrow> bytes \<Rightarrow> (int \<times> bytes \<times> kernel) outcome" where
  "v120_irqd_msg_recv k sock buf =
     obind (sys_read k sock buf) (\<lambda>(r, buf, k).
       Done (case r of Inl errno \<Rightarrow> - errno | Inr len \<Rightarrow> len, buf, k))"

section \<open>Requests of a client\<close>

definition v120irqd_request :: "bytes \<Rightarrow> kernel \<Rightarrow> int \<Rightarrow> selector \<Rightarrow> (int \<times> kernel) outcome" where
  "v120irqd_request junk k sock sel =
     (let resp = rb_set_selector (rb_set_msg junk REQUEST_IRQ) sel;
          (len, k) = v120irqd_msg_send k sock resp in
      if len < 0 then Done (len, k) else
      obind (v120_irqd_msg_recv k sock resp) (\<lambda>(len, resp, k).
        Done (if len < 0 then len
              else if len = 0 then - ECONNRESET
              else if rb_msg resp = ACK then 0
              else if rb_msg resp = NAK then - EPERM
              else - EBADMSG, k)))"

definition v120irqd_release :: "bytes \<Rightarrow> kernel \<Rightarrow> int \<Rightarrow> selector \<Rightarrow> (int \<times> kernel) outcome" where
  "v120irqd_release junk k sock sel =
     (let resp = rb_set_selector (rb_set_msg junk RELEASE_IRQ) sel;
          (len, k) = v120irqd_msg_send k sock resp in
      if len < 0 then Done (len, k) else
      obind (v120_irqd_msg_recv k sock resp) (\<lambda>(len, resp, k).
        Done (if len < 0 then len
              else if len = 0 then - ECONNRESET
              else if rb_msg resp = ACK then 0
              else if rb_msg resp = NAK then - EPERM
              else - EBADMSG, k)))"

definition v120irqd_getinterrupt ::
  "bytes \<Rightarrow> kernel \<Rightarrow> int \<Rightarrow> selector \<Rightarrow> (int \<times> selector \<times> kernel) outcome" where
  "v120irqd_getinterrupt junk k sock sel =
     obind (v120_irqd_msg_recv k sock junk) (\<lambda>(len, resp, k).
       if len < 0 then Done (len, sel, k)
       else if len = 0 then Done (- ECONNRESET, sel, k)
       else if rb_msg resp = IRQ_SIGNAL then Done (0, rb_selector resp, k)
       else Done (- EBADMSG, sel, k))"

definition msg_respond :: "bytes \<Rightarrow> kernel \<Rightarrow> int \<Rightarrow> u32 \<Rightarrow> int \<times> kernel" where
  "msg_respond junk k sock response =
     (let (len, k) = v120irqd_msg_send k sock (rb_set_msg junk response) in
      (if len < 0 then len else 0, k))"

definition v120irqd_ack :: "bytes \<Rightarrow> kernel \<Rightarrow> int \<Rightarrow> int \<times> kernel" where
  "v120irqd_ack junk k sock = msg_respond junk k sock ACK"

definition v120irqd_nak :: "bytes \<Rightarrow> kernel \<Rightarrow> int \<Rightarrow> int \<times> kernel" where
  "v120irqd_nak junk k sock = msg_respond junk k sock NAK"

definition v120irqd_interrupt :: "bytes \<Rightarrow> kernel \<Rightarrow> int \<Rightarrow> selector \<Rightarrow> (int \<times> kernel) outcome" where
  "v120irqd_interrupt junk k sock sel =
     (let resp = rb_set_selector (rb_set_msg junk IRQ_SIGNAL) sel;
          (len, k) = v120irqd_msg_send k sock resp in
      if len < 0 then Done (len, k) else
      obind (v120_irqd_msg_recv k sock resp) (\<lambda>(len, resp, k).
        Done (if len < 0 then len
              else if len = 0 then - ECONNRESET
              else if rb_msg resp = ACK then 0
              else if rb_msg resp = NAK then - EPERM
              else - EBADMSG, k)))"

text \<open>Here the buffer is initialised with \<open>{0}\<close>.\<close>

definition v120irqd_status ::
  "kernel \<Rightarrow> int \<Rightarrow> serverstatus \<Rightarrow> (int \<times> serverstatus \<times> kernel) outcome" where
  "v120irqd_status k sock status =
     (let resp = rb_set_msg (replicate RB_SIZE 0) SERVER_STATUS;
          (len, k) = v120irqd_msg_send k sock resp in
      if len < 0 then Done (len, status, k) else
      obind (v120_irqd_msg_recv k sock resp) (\<lambda>(len, resp, k).
        if len < 0 then Done (len, status, k)
        else if len = 0 then Done (- ECONNRESET, status, k)
        else if rb_msg resp = SERVER_STATUS then Done (0, rb_status resp, k)
        else Done (- EBADMSG, status, k)))"

section \<open>Opening sockets\<close>

text \<open>
  The address is a fixed array of \<open>UNIX_PATH_MAX\<close> bytes filled by \<open>strncpy\<close>: cut off at the
  array's size, or padded with NULs. A leading \<open>@\<close> selects Linux' abstract name space.
\<close>

definition UNIX_PATH_MAX :: nat where "UNIX_PATH_MAX = 92"

definition DEFAULTSOCKET :: string where "DEFAULTSOCKET = ''@/v120/v120irqd''"

definition strncpy_buf :: "nat \<Rightarrow> string \<Rightarrow> string" where
  "strncpy_buf n s = take n s @ replicate (n - length s) (char_of (0 :: nat))"

text \<open>What the kernel answers to the calls of one \<open>v120irqd_server\<close> or \<open>v120irqd_client\<close>: the
  error numbers of \<open>unlink\<close> (0 for success), whether \<open>malloc\<close> succeeds, the descriptor of
  \<open>socket\<close>, and whether \<open>bind\<close>, \<open>listen\<close> or \<open>connect\<close> fail.\<close>

record sock_env =
  se_unlink :: int
  se_malloc :: bool
  se_socket :: int
  se_bind_fails :: bool
  se_listen_fails :: bool
  se_connect_fails :: bool

record sock_result =
  sr_fd :: int
  sr_addr :: string
  sr_socket_list :: "string list"
  sr_unlinked :: "string list"
  sr_closed :: "int list"

definition v120irqd_server :: "sock_env \<Rightarrow> string list \<Rightarrow> string option \<Rightarrow> sock_result" where
  "v120irqd_server env server_socket_list socketname =
     (let name = (case socketname of None \<Rightarrow> DEFAULTSOCKET | Some n \<Rightarrow> n);
          path = strncpy_buf UNIX_PATH_MAX name;
          hidden = (hd path = CHR ''@'');
          path' = (if hidden then char_of (0 :: nat) # tl path else path);
          fail = (\<lambda>sl un cl. \<lparr>sr_fd = - 1, sr_addr = path', sr_socket_list = sl,
                             sr_unlinked = un, sr_closed = cl\<rparr>);
          un = (if hidden then [] else [path']) in
      if \<not> hidden \<and> se_unlink env \<noteq> 0 \<and> se_unlink env \<noteq> ENOENT then fail server_socket_list un []
      else if \<not> hidden \<and> \<not> se_malloc env then fail server_socket_list un []
      else
        (let sl = (if hidden then server_socket_list
                   else strncpy_buf UNIX_PATH_MAX name # server_socket_list);
             sock = se_socket env in
         if sock < 1 then fail sl un []
         else if se_bind_fails env then fail sl un [sock]
         else if se_listen_fails env then fail sl un [sock]
         else \<lparr>sr_fd = sock, sr_addr = path', sr_socket_list = sl, sr_unlinked = un, sr_closed = []\<rparr>))"

definition v120irqd_client :: "sock_env \<Rightarrow> string option \<Rightarrow> sock_result" where
  "v120irqd_client env socketname =
     (let name = (case socketname of None \<Rightarrow> DEFAULTSOCKET | Some n \<Rightarrow> n);
          path = strncpy_buf UNIX_PATH_MAX name;
          path' = (if hd path = CHR ''@'' then char_of (0 :: nat) # tl path else path);
          sock = se_socket env in
      if sock < 1 then
        \<lparr>sr_fd = - 1, sr_addr = path', sr_socket_list = [], sr_unlinked = [], sr_closed = []\<rparr>
      else if se_connect_fails env then
        \<lparr>sr_fd = - 1, sr_addr = path', sr_socket_list = [], sr_unlinked = [], sr_closed = [sock]\<rparr>
      else \<lparr>sr_fd = sock, sr_addr = path', sr_socket_list = [], sr_unlinked = [], sr_closed = []\<rparr>)"

text \<open>At exit the names of the file system sockets are unlinked, in the list's order; an error
  is logged and the walk goes on.\<close>

definition cleanupfunction :: "string list \<Rightarrow> string list" where
  "cleanupfunction server_socket_list = map (\<lambda>name. takeWhile (\<lambda>c. c \<noteq> char_of (0 :: nat)) name) server_socket_list"

section \<open>Facts\<close>

lemma length_sys_read_buf:
  "sys_read k fd buf = Done (r, buf', k') \<Longrightarrow> length buf = RB_SIZE \<Longrightarrow> length buf' = RB_SIZE"
  by (auto simp: sys_read_def split: list.splits recv.splits)

lemma poke_full: "length bs = length b \<Longrightarrow> poke b 0 bs = bs"
  by (simp add: poke_def)

text \<open>A complete message is delivered as it was sent.\<close>

lemma recv_full_message:
  assumes "k_in k sock = RecvMsg bs # rs" "length bs = RB_SIZE" "length buf = RB_SIZE"
  shows "v120_irqd_msg_recv k sock buf = Done (int RB_SIZE, bs, k\<lparr>k_in := (k_in k)(sock := rs)\<rparr>)"
  using assms by (simp add: v120_irqd_msg_recv_def sys_read_def poke_full)

lemma msg_send_ok:
  assumes "k_wr k sock = []"
  shows "v120irqd_msg_send k sock bs = (int (length bs), k\<lparr>k_out := k_out k @ [(sock, bs)]\<rparr>)"
  using assms by (simp add: v120irqd_msg_send_def sys_write_def)

lemma msg_send_neg:
  assumes "v120irqd_msg_send k sock bs = (len, k')" "len < 0"
  shows "k_out k' = k_out k \<and> k_in k' = k_in k \<and> k_closed k' = k_closed k"
  using assms by (auto simp: v120irqd_msg_send_def sys_write_def split: list.splits if_splits)

lemma msg_send_frame:
  assumes "v120irqd_msg_send k sock bs = (len, k')"
  shows "k_in k' = k_in k \<and> k_closed k' = k_closed k"
  using assms by (auto simp: v120irqd_msg_send_def sys_write_def split: list.splits if_splits)

lemma msg_send_nonneg:
  assumes "v120irqd_msg_send k sock bs = (len, k')" "0 \<le> len" "\<forall>e \<in> set (k_wr k sock). 0 \<le> e"
  shows "k_out k' = k_out k @ [(sock, bs)]"
  using assms by (auto simp: v120irqd_msg_send_def sys_write_def split: list.splits if_splits)

lemma msg_recv_frame:
  assumes "v120_irqd_msg_recv k sock buf = Done (len, buf', k')"
  shows "k_out k' = k_out k" and "k_closed k' = k_closed k" and "k_wr k' = k_wr k"
    and "length buf = RB_SIZE \<Longrightarrow> length buf' = RB_SIZE"
  using assms
  by (auto simp: v120_irqd_msg_recv_def sys_read_def obind_eq_Done split: list.splits recv.splits)

lemma msg_recv_blocked [simp]:
  "v120_irqd_msg_recv k sock buf = Blocked \<longleftrightarrow> k_in k sock = []"
  by (auto simp: v120_irqd_msg_recv_def sys_read_def split: list.splits recv.splits)

lemma msg_recv_no_exit [simp]:
  "v120_irqd_msg_recv k sock buf \<noteq> Exit c" "v120_irqd_msg_recv k sock buf \<noteq> NoFuel"
  by (auto simp: v120_irqd_msg_recv_def sys_read_def split: list.splits recv.splits)

lemma interrupt_no_exit [simp]:
  "v120irqd_interrupt junk k sock sel \<noteq> Exit c" "v120irqd_interrupt junk k sock sel \<noteq> NoFuel"
  by (auto simp: v120irqd_interrupt_def Let_def obind_eq_Exit obind_eq_NoFuel split: prod.splits)

end
