(* ===== verification/Irq_Daemon.thy ===== *)
theory Irq_Daemon
  imports Irq_Registry Irq_Client
begin

text \<open>
  The dispatch daemon \<open>v120irqd/v120irqd.c\<close>: its list of polled descriptors, the crates it
  serves, the handlers of the polling loop and its start-up. The state record holds the
  program's globals, the enable registers of the crates, and the kernel; what the hardware and
  the operating system decide (register reads, allocation, stack contents) is the environment
  record, a parameter of every handler. Calls to \<open>syslog\<close> are left out.
\<close>

section \<open>State\<close>

record pollfd =
  p_fd :: int
  p_events :: int
  p_revents :: int

definition POLLIN :: int where "POLLIN = 1"

record settings =
  allowFakeIrq :: bool
  debugMode :: bool
  noDaemon :: bool
  noVME :: bool

text \<open>The register block of a crate is represented by its one writable register in use.\<close>

record v120_info =
  vi_cratenumber :: nat
  vi_irqen :: u32

record daemon =
  d_fds :: "pollfd list"
  d_len_crates :: nat
  d_len_pollfds :: nat
  d_settings :: settings
  d_info :: "v120_info list"
  d_table :: "table_t list"
  d_kern :: kernel
  d_accepts :: "int list"
  d_caughtsignal :: int
  d_clock :: nat

text \<open>
  The environment: the value of the \<open>n\<close>-th read of an \<open>irqstatus\<close> and of an \<open>iack_vector\<close>
  register (\<open>d_clock\<close> counts device reads), the process id, whether \<open>realloc\<close> can provide
  so many table slots or poll entries, uninitialised stack and heap contents, the element just
  behind the descriptor list, and at start-up which crates open, their interrupt endpoints,
  the answers to the socket calls and the result of \<open>set_rtpriority\<close>.
\<close>

record env =
  e_status :: "nat \<Rightarrow> u32"
  e_vector :: "nat \<Rightarrow> u32"
  e_pid :: u32
  e_realloc :: "nat \<Rightarrow> bool"
  e_fdalloc :: "nat \<Rightarrow> bool"
  e_junk :: bytes
  e_newrev :: int
  e_beyond :: pollfd
  e_open :: "nat \<Rightarrow> bool"
  e_irq_open :: "nat \<Rightarrow> int"
  e_irqen :: "nat \<Rightarrow> u32"
  e_sock :: sock_env
  e_rtpriority :: int

section \<open>The descriptor list\<close>

text \<open>
  \<open>append_fd\<close> increments the length before it asks for memory; a failure leaves the length
  incremented. The poll result of the new entry is not initialised.
\<close>

definition append_fd :: "env \<Rightarrow> daemon \<Rightarrow> int \<Rightarrow> int \<Rightarrow> bool \<times> daemon" where
  "append_fd env d fd events =
     (let d1 = d\<lparr>d_len_pollfds := d_len_pollfds d + 1\<rparr> in
      if \<not> e_fdalloc env (d_len_pollfds d1) then (False, d1)
      else (True, d1\<lparr>d_fds := d_fds d1 @ [\<lparr>p_fd = fd, p_events = events, p_revents = e_newrev env\<rparr>]\<rparr>))"

text \<open>
  \<open>remove_fd\<close> moves \<open>len_pollfds - idx\<close> elements down by one, the last of which is the element
  behind the list.
\<close>

definition remove_fd :: "env \<Rightarrow> daemon \<Rightarrow> nat \<Rightarrow> daemon outcome" where
  "remove_fd env d idx =
     (if idx \<le> d_len_crates d \<or> d_len_pollfds d \<le> idx then Exit 1
      else Done (d\<lparr>d_fds := take (d_len_pollfds d - 1)
                     (memmove (d_fds d @ [e_beyond env]) idx (idx + 1) (d_len_pollfds d - idx)),
                   d_len_pollfds := d_len_pollfds d - 1\<rparr>))"

definition count_clients :: "daemon \<Rightarrow> u32" where
  "count_clients d = of_nat (d_len_pollfds d) - of_nat (d_len_crates d) - 1"

section \<open>Start-up of the descriptor list\<close>

definition open_crate :: "env \<Rightarrow> nat \<Rightarrow> daemon \<Rightarrow> daemon outcome" where
  "open_crate env crate d =
     (if \<not> e_open env crate then Done d
      else if e_irq_open env crate < 0 then Done d
      else
        (let d1 = d\<lparr>d_info := d_info d @ [\<lparr>vi_cratenumber = crate, vi_irqen = e_irqen env crate\<rparr>]\<rparr>;
             (ok, d2) = append_fd env d1 (e_irq_open env crate) POLLIN in
         if \<not> ok then Exit 1 else Done (d2\<lparr>d_len_crates := d_len_crates d2 + 1\<rparr>)))"

definition configureVmeEndpoints :: "env \<Rightarrow> daemon \<Rightarrow> daemon outcome" where
  "configureVmeEndpoints env d =
     (if d_len_crates d \<noteq> 0 \<or> d_len_pollfds d \<noteq> 0 then Exit 1
      else fold (\<lambda>crate m. obind m (open_crate env crate)) [0..<16] (Done d))"

definition configureServerSocket :: "env \<Rightarrow> daemon \<Rightarrow> daemon outcome" where
  "configureServerSocket env d =
     (if d_len_crates d \<noteq> d_len_pollfds d then Exit 1
      else
        (let serversocket = sr_fd (v120irqd_server (e_sock env) [] None) in
         if serversocket < 0 then Exit 1
         else (let (ok, d) = append_fd env d serversocket POLLIN in
               if \<not> ok then Exit 1 else Done d)))"

definition configureClientSocket :: "env \<Rightarrow> daemon \<Rightarrow> int \<Rightarrow> (int \<times> daemon) outcome" where
  "configureClientSocket env d fd =
     (if d_len_pollfds d \<le> d_len_crates d then Exit 1
      else (let (ok, d) = append_fd env d fd POLLIN in Done (if ok then 0 else 1, d)))"

section \<open>Interrupts\<close>

definition notify_irq :: "env \<Rightarrow> daemon \<Rightarrow> selector \<Rightarrow> (int \<times> daemon) outcome" where
  "notify_irq env d sel =
     (let (sock, errno, sel) = find_interrupt (d_table d) sel 0 in
      if sock = 0 then Done (- errno, d)
      else obind (v120irqd_interrupt (e_junk env) (d_kern d) sock sel) (\<lambda>(err, k).
        Done (err, d\<lparr>d_kern := k\<rparr>)))"

definition set_irqen :: "daemon \<Rightarrow> nat \<Rightarrow> u32 \<Rightarrow> daemon" where
  "set_irqen d idx v = d\<lparr>d_info := (d_info d)[idx := (d_info d ! idx)\<lparr>vi_irqen := v\<rparr>]\<rparr>"

definition tick :: "daemon \<Rightarrow> daemon" where
  "tick d = d\<lparr>d_clock := d_clock d + 1\<rparr>"

text \<open>
  One pass of \<open>irqsearch\<close>, with fuel for the passes. The scan from interrupt 7 down to 1 ends
  at the first pending bit, and its body always goes back to \<open>irqsearch\<close>; if no bit is found
  the process exits. The payload of the selector is set by \<open>find_interrupt\<close> before it is used.
\<close>

fun vme_loop :: "nat \<Rightarrow> env \<Rightarrow> nat \<Rightarrow> u32 \<Rightarrow> daemon \<Rightarrow> daemon outcome" where
  "vme_loop 0 env idx irqen d = NoFuel"
| "vme_loop (Suc fuel) env idx irqen d =
     (let irqstatus = e_status env (d_clock d) AND irqen; d = tick d in
      if irqstatus = 0 then Done d
      else case List.find (\<lambda>irq. irqstatus AND push_bit irq 1 \<noteq> 0) (rev [1..<8]) of
        None \<Rightarrow> Exit 1
      | Some irq \<Rightarrow>
          (let selector = \<lparr>s_crate = push_bit (vi_cratenumber (d_info d ! idx)) 1,
                           s_irq = push_bit irq 1,
                           s_vector = e_vector env (d_clock d), s_payload = 0\<rparr> in
           obind (notify_irq env (tick d) selector) (\<lambda>(err, d).
             if err = 0 then vme_loop fuel env idx irqen d
             else
               (let again = e_status env (d_clock d); d = tick d in
                if again AND push_bit irq 1 = 0 then vme_loop fuel env idx irqen d
                else (let irqen = irqen AND NOT (push_bit irq 1) in
                      vme_loop fuel env idx irqen (set_irqen d idx irqen))))))"

declare vme_loop.simps(2) [simp del]

text \<open>Reading the endpoint's descriptor only rearms it.\<close>

definition process_vme :: "nat \<Rightarrow> env \<Rightarrow> nat \<Rightarrow> daemon \<Rightarrow> daemon outcome" where
  "process_vme fuel env idx d = vme_loop fuel env idx (vi_irqen (d_info d ! idx)) d"

section \<open>Clients\<close>

definition process_newclient :: "env \<Rightarrow> daemon \<Rightarrow> daemon outcome" where
  "process_newclient env d =
     (case d_accepts d of
        [] \<Rightarrow> Blocked
      | client # rest \<Rightarrow>
          (let d = d\<lparr>d_accepts := rest\<rparr> in
           if client < 0 then Done d
           else obind (configureClientSocket env d client) (\<lambda>(failed, d).
             if failed \<noteq> 0 then Done (d\<lparr>d_kern := sys_close (d_kern d) client\<rparr>)
             else Done d)))"

text \<open>The test in the loop is a logical and, as written in the source.\<close>

definition enable_interrupts :: "daemon \<Rightarrow> selector \<Rightarrow> daemon" where
  "enable_interrupts d st =
     d\<lparr>d_info := map (\<lambda>i.
          if s_crate st \<noteq> 0 \<and> (push_bit (vi_cratenumber i) 1 :: u32) \<noteq> 0
          then i\<lparr>vi_irqen := vi_irqen i OR ucast (s_irq st)\<rparr> else i) (d_info d)\<rparr>"

definition disable_unused_interrupts :: "daemon \<Rightarrow> daemon" where
  "disable_unused_interrupts d =
     (let irqs = list_registered_interrupts (d_table d) in
      d\<lparr>d_info := map (\<lambda>i. i\<lparr>vi_irqen := ucast (irqs ! vi_cratenumber i)\<rparr>) (d_info d)\<rparr>)"

definition build_status_report :: "env \<Rightarrow> daemon \<Rightarrow> serverstatus" where
  "build_status_report env d =
     \<lparr>st_pid = e_pid env,
      st_crates = fold (\<lambda>i m. m OR push_bit (vi_cratenumber i) 1) (d_info d) 0,
      st_clients = count_clients d,
      st_irq_requests = of_nat (count_registered_interrupts (d_table d))\<rparr>"

definition with_kern :: "daemon \<Rightarrow> int \<times> kernel \<Rightarrow> int \<times> daemon" where
  "with_kern d r = (fst r, d\<lparr>d_kern := snd r\<rparr>)"

definition drop_client :: "env \<Rightarrow> nat \<Rightarrow> int \<Rightarrow> daemon \<Rightarrow> daemon outcome" where
  "drop_client env idx sock d =
     obind (remove_fd env d idx) (\<lambda>d.
       let d = d\<lparr>d_table := snd (release_all_interrupts (d_table d) sock)\<rparr>;
           d = disable_unused_interrupts d
       in Done (d\<lparr>d_kern := sys_close (d_kern d) sock\<rparr>))"

definition handle_request :: "env \<Rightarrow> int \<Rightarrow> bytes \<Rightarrow> daemon \<Rightarrow> daemon outcome" where
  "handle_request env sock buffer d =
     (let (e, tab) = register_interrupt (e_realloc env) (d_table d) sock (rb_selector buffer);
          d = d\<lparr>d_table := tab\<rparr> in
      if e < 0 then Done (snd (with_kern d (v120irqd_nak (e_junk env) (d_kern d) sock)))
      else
        (let (e, d) = with_kern d (v120irqd_ack (e_junk env) (d_kern d) sock) in
         if e < 0 then Done d else Done (enable_interrupts d (rb_selector buffer))))"

definition handle_release :: "env \<Rightarrow> int \<Rightarrow> bytes \<Rightarrow> daemon \<Rightarrow> daemon outcome" where
  "handle_release env sock buffer d =
     (let (e, tab) = release_interrupt (d_table d) sock (rb_selector buffer);
          d = d\<lparr>d_table := tab\<rparr>;
          d = snd (with_kern d (if e < 0 then v120irqd_nak (e_junk env) (d_kern d) sock
                                else v120irqd_ack (e_junk env) (d_kern d) sock))
      in Done (disable_unused_interrupts d))"

text \<open>\<open>e = v120irqd_ack(sock) || notify_irq(\<dots>)\<close>: the interrupt is sent when the ACK was.\<close>

definition handle_fake :: "env \<Rightarrow> int \<Rightarrow> bytes \<Rightarrow> daemon \<Rightarrow> daemon outcome" where
  "handle_fake env sock buffer d =
     (if allowFakeIrq (d_settings d) then
        (let (e, d) = with_kern d (v120irqd_ack (e_junk env) (d_kern d) sock) in
         if e \<noteq> 0 then Done d
         else obind (notify_irq env d (rb_selector buffer)) (\<lambda>(e, d). Done d))
      else Done (snd (with_kern d (v120irqd_nak (e_junk env) (d_kern d) sock))))"

definition handle_status :: "env \<Rightarrow> int \<Rightarrow> bytes \<Rightarrow> daemon \<Rightarrow> daemon outcome" where
  "handle_status env sock buffer d =
     Done (snd (with_kern d
       (v120irqd_msg_send (d_kern d) sock (rb_set_status buffer (build_status_report env d)))))"

definition process_client :: "env \<Rightarrow> nat \<Rightarrow> daemon \<Rightarrow> daemon outcome" where
  "process_client env idx d =
     (let sock = p_fd (d_fds d ! idx) in
      obind (v120_irqd_msg_recv (d_kern d) sock (e_junk env)) (\<lambda>(len, buffer, k).
        let d = d\<lparr>d_kern := k\<rparr> in
        if len < 0 then Done d
        else if len = 0 then drop_client env idx sock d
        else if rb_msg buffer = REQUEST_IRQ then handle_request env sock buffer d
        else if rb_msg buffer = RELEASE_IRQ then handle_release env sock buffer d
        else if rb_msg buffer = IRQ_SIGNAL then handle_fake env sock buffer d
        else if rb_msg buffer = SERVER_STATUS then handle_status env sock buffer d
        else Done d))"

section \<open>The main loop\<close>

definition SIGUSR1 :: int where "SIGUSR1 = 10"
definition SIGTERM :: int where "SIGTERM = 15"

text \<open>
  What \<open>ppoll\<close> returns: an interruption by a signal, another error, or the events of the
  \<open>i\<close>-th descriptor for every \<open>i\<close>; the number of events is the number of descriptors with one.
\<close>

datatype poll_result = PollSignal int | PollError | PollEvents "nat \<Rightarrow> int"

definition signalhandler :: "int \<Rightarrow> daemon \<Rightarrow> daemon" where
  "signalhandler sig d = d\<lparr>d_caughtsignal := sig\<rparr>"

fun poll_loop :: "nat \<Rightarrow> nat \<Rightarrow> env \<Rightarrow> nat \<Rightarrow> nat \<Rightarrow> daemon \<Rightarrow> daemon outcome" where
  "poll_loop 0 vfuel env idx nevents d = NoFuel"
| "poll_loop (Suc fuel) vfuel env idx nevents d =
     (if idx < d_len_pollfds d \<and> nevents \<noteq> 0 then
        if p_revents (d_fds d ! idx) \<noteq> 0 then
          obind (if idx < d_len_crates d then process_vme vfuel env idx d
                 else if idx = d_len_crates d then process_newclient env d
                 else process_client env idx d)
            (poll_loop fuel vfuel env (idx + 1) (nevents - 1))
        else poll_loop fuel vfuel env (idx + 1) nevents d
      else Done d)"

declare poll_loop.simps(2) [simp del]

definition set_revents :: "(nat \<Rightarrow> int) \<Rightarrow> daemon \<Rightarrow> daemon" where
  "set_revents revs d =
     d\<lparr>d_fds := map2 (\<lambda>p i. p\<lparr>p_revents := revs i\<rparr>) (d_fds d) [0..<length (d_fds d)]\<rparr>"

definition count_events :: "daemon \<Rightarrow> nat" where
  "count_events d = length (filter (\<lambda>p. p_revents p \<noteq> 0) (d_fds d))"

definition mainloop ::
  "nat \<Rightarrow> nat \<Rightarrow> env \<Rightarrow> poll_result \<Rightarrow> daemon \<Rightarrow> (int \<times> daemon) outcome" where
  "mainloop fuel vfuel env pr d =
     (case pr of
        PollSignal sig \<Rightarrow>
          (let d = signalhandler sig d in
           if d_caughtsignal d = SIGTERM then Done (1, d)
           else Done (0, d\<lparr>d_caughtsignal := 0\<rparr>))
      | PollError \<Rightarrow> Done (1, d)
      | PollEvents revs \<Rightarrow>
          (let d = set_revents revs d in
           obind (poll_loop fuel vfuel env 0 (count_events d) d) (\<lambda>d. Done (0, d))))"

text \<open>\<open>main\<close> after the start-up, over the results the successive calls of \<open>ppoll\<close> give.\<close>

fun main_loop ::
  "nat \<Rightarrow> nat \<Rightarrow> env \<Rightarrow> poll_result list \<Rightarrow> daemon \<Rightarrow> (int \<times> daemon) outcome" where
  "main_loop fuel vfuel env [] d = Done (0, d)"
| "main_loop fuel vfuel env (pr # prs) d =
     obind (mainloop fuel vfuel env pr d) (\<lambda>(ret, d).
       if ret = 0 then main_loop fuel vfuel env prs d else Done (ret, d))"

section \<open>Options and start-up\<close>

fun parse_opt :: "settings \<Rightarrow> char \<Rightarrow> settings outcome" where
  "parse_opt s key =
     (if key = CHR ''f'' then Done (s\<lparr>allowFakeIrq := True\<rparr>)
      else if key = CHR ''k'' then Done (s\<lparr>noDaemon := True\<rparr>)
      else if key = CHR ''d'' then Done (s\<lparr>debugMode := True\<rparr>)
      else if key = CHR ''n'' \<or> key = CHR ''0'' then Done (s\<lparr>noVME := True, allowFakeIrq := True\<rparr>)
      else if key = CHR ''?'' then Exit 0
      else if key = CHR ''V'' then Exit 0
      else Exit 1)"

text \<open>The keys are those \<open>getopt_long\<close> delivers, in the order of the command line.\<close>

definition parseArgs :: "settings \<Rightarrow> string \<Rightarrow> settings outcome" where
  "parseArgs s keys = fold (\<lambda>key m. obind m (\<lambda>s. parse_opt s key)) keys (Done s)"

definition initialize :: "env \<Rightarrow> string \<Rightarrow> daemon \<Rightarrow> (int \<times> daemon) outcome" where
  "initialize env keys d =
     obind (parseArgs (d_settings d) keys) (\<lambda>s.
     let d = d\<lparr>d_settings := s\<rparr> in
     obind (if \<not> noVME s then configureVmeEndpoints env d else Done d) (\<lambda>d.
     obind (configureServerSocket env d) (\<lambda>d.
     if e_rtpriority env = - EPERM then Done (0, d)
     else if e_rtpriority env \<noteq> 0 then Done (1, d)
     else Done (0, d))))"

end
