(* ===== verification/Irq_Dispatch.thy ===== *)
theory Irq_Dispatch
  imports Irq_Daemon
begin

text \<open>
  The invariant of the dispatch daemon and the proof that start-up establishes it and every
  handler of the polling loop keeps it; what the interrupt loop does to the enable mask, which
  client it notifies and when it ends.
\<close>

section \<open>The invariant\<close>

definition client_fds :: "daemon \<Rightarrow> int list" where
  "client_fds d = map p_fd (drop (Suc (d_len_crates d)) (d_fds d))"

definition irq_mask_ok :: "u32 \<Rightarrow> bool" where
  "irq_mask_ok m \<longleftrightarrow> m AND NOT 0xFE = 0"

definition info_ok :: "v120_info \<Rightarrow> bool" where
  "info_ok i \<longleftrightarrow> vi_cratenumber i < 16 \<and> irq_mask_ok (vi_irqen i)"

definition fds_ok :: "daemon \<Rightarrow> bool" where
  "fds_ok d \<longleftrightarrow> length (d_fds d) = d_len_pollfds d \<and> d_len_crates d < d_len_pollfds d \<and>
     length (d_info d) = d_len_crates d \<and> d_len_crates d \<le> 16"

definition daemon_ok :: "daemon \<Rightarrow> bool" where
  "daemon_ok d \<longleftrightarrow> fds_ok d \<and> (\<forall>i \<in> set (d_info d). info_ok i) \<and> table_ok (d_table d) \<and>
     (\<forall>e \<in> set (live (d_table d)). t_data e \<in> set (client_fds d))"

lemma bit_irq_lines: "bit (0xFE :: u32) n \<longleftrightarrow> 1 \<le> n \<and> n \<le> 7"
proof (cases "n < 32")
  case True
  then have "n \<in> set [0..<32]" by simp
  then show ?thesis by (auto simp: upt_rec bit_simps)
next
  case False
  then show ?thesis by (auto dest: bit_imp_le_length)
qed

lemma irq_mask_ok_bits: "irq_mask_ok m \<longleftrightarrow> (\<forall>n. bit m n \<longrightarrow> 1 \<le> n \<and> n \<le> 7)"
  unfolding irq_mask_ok_def and_eq_0_iff bit_not_iff bit_irq_lines
  using bit_imp_possible_bit by blast

lemma irq_mask_ok_less: "irq_mask_ok m \<Longrightarrow> \<forall>n. bit v n \<longrightarrow> bit m n \<Longrightarrow> irq_mask_ok v"
  by (simp add: irq_mask_ok_bits)

lemma irq_mask_ok_or: "irq_mask_ok a \<Longrightarrow> irq_mask_ok b \<Longrightarrow> irq_mask_ok (a OR b)"
  by (auto simp: irq_mask_ok_bits bit_or_iff)

lemma irq_mask_ok_selector:
  "selector_legal s \<Longrightarrow> irq_mask_ok (ucast (s_irq s))"
  using not_ANYIRQ_bits [of "s_irq s"]
  by (auto simp: selector_legal_def irq_mask_ok_bits bit_simps)

lemma irq_mask_ok_listing:
  assumes "table_ok tab" "c < 16"
  shows "irq_mask_ok (ucast (list_registered_interrupts tab ! c))"
  using assms reg.listing_small by (auto simp: irq_mask_ok_bits bit_simps)

text \<open>Handlers that touch only the kernel, the clock or the caught signal keep the invariant.\<close>

lemma daemon_ok_frame [simp]:
  "daemon_ok (d\<lparr>d_kern := k\<rparr>) = daemon_ok d"
  "daemon_ok (d\<lparr>d_clock := n\<rparr>) = daemon_ok d"
  "daemon_ok (d\<lparr>d_accepts := l\<rparr>) = daemon_ok d"
  "daemon_ok (d\<lparr>d_caughtsignal := sg\<rparr>) = daemon_ok d"
  "daemon_ok (tick d) = daemon_ok d"
  "daemon_ok (snd (with_kern d r)) = daemon_ok d"
  by (simp_all add: daemon_ok_def fds_ok_def client_fds_def tick_def with_kern_def)

lemma daemon_ok_info:
  assumes "daemon_ok d" "length infos = length (d_info d)" "\<forall>i \<in> set infos. info_ok i"
  shows "daemon_ok (d\<lparr>d_info := infos\<rparr>)"
  using assms by (simp add: daemon_ok_def fds_ok_def client_fds_def)

lemma enable_interrupts_ok:
  assumes "daemon_ok d" "selector_legal st"
  shows "daemon_ok (enable_interrupts d st)"
  unfolding enable_interrupts_def
proof (rule daemon_ok_info)
  have "irq_mask_ok (ucast (s_irq st) :: u32)"
    using assms(2) by (rule irq_mask_ok_selector)
  then show "\<forall>i \<in> set (map (\<lambda>i. if s_crate st \<noteq> 0 \<and> (push_bit (vi_cratenumber i) 1 :: u32) \<noteq> 0
          then i\<lparr>vi_irqen := vi_irqen i OR ucast (s_irq st)\<rparr> else i) (d_info d)). info_ok i"
    using assms(1) by (auto simp: daemon_ok_def info_ok_def irq_mask_ok_or)
qed (use assms in simp_all)

lemma disable_unused_ok:
  assumes "daemon_ok d"
  shows "daemon_ok (disable_unused_interrupts d)"
  unfolding disable_unused_interrupts_def Let_def using assms
  by (intro daemon_ok_info) (auto simp: daemon_ok_def info_ok_def intro: irq_mask_ok_listing)

section \<open>Notifying a client\<close>

lemma notify_irq_frame:
  assumes "notify_irq env d sel = Done (err, d')"
  shows "\<exists>k. d' = d\<lparr>d_kern := k\<rparr>"
  using assms
  by (auto simp: notify_irq_def Let_def obind_eq_Done split: prod.splits if_splits
      intro: exI [of _ "d_kern d"])

lemma notify_irq_no_exit [simp]:
  "notify_irq env d sel \<noteq> Exit c" "notify_irq env d sel \<noteq> NoFuel"
  by (auto simp: notify_irq_def Let_def obind_eq_Exit obind_eq_NoFuel split: prod.splits)

section \<open>The interrupt loop\<close>

text \<open>The scan finds the highest pending interrupt line.\<close>

lemma find_highest:
  "List.find (\<lambda>irq. s AND push_bit irq 1 \<noteq> (0 :: u32)) (rev [1..<8]) = Some i \<longleftrightarrow>
    1 \<le> i \<and> i \<le> 7 \<and> bit s i \<and> (\<forall>j. i < j \<and> j \<le> 7 \<longrightarrow> \<not> bit s j)"
  unfolding find_rev_upt by (auto simp: and_exp_eq_0_iff)

lemma find_pending:
  assumes "irq_mask_ok m" "s AND m \<noteq> (0 :: u32)"
  obtains i where "List.find (\<lambda>irq. (s AND m) AND push_bit irq 1 \<noteq> (0 :: u32)) (rev [1..<8]) = Some i"
    "1 \<le> i" "i \<le> 7" "bit s i" "bit m i"
proof -
  obtain n where n: "bit (s AND m) n" "1 \<le> n" "n \<le> 7"
    using assms by (auto simp: word_neq_0_bit irq_mask_ok_bits bit_and_iff)
  then have "n \<in> {1..<8}" "(s AND m) AND push_bit n 1 \<noteq> (0 :: u32)"
    using and_exp_eq_0_iff [of "s AND m" n] by auto
  then have "List.find (\<lambda>irq. (s AND m) AND push_bit irq 1 \<noteq> (0 :: u32)) (rev [1..<8]) \<noteq> None"
    unfolding find_None_iff set_rev set_upt by blast
  then obtain i where "List.find (\<lambda>irq. (s AND m) AND push_bit irq 1 \<noteq> (0 :: u32)) (rev [1..<8]) = Some i"
    by blast
  then show thesis
    using that find_highest [of "s AND m" i] by (auto simp: bit_and_iff)
qed

text \<open>
  What the loop may change: the kernel, the clock, and the enable register of its own crate,
  in which it only clears bits.
\<close>

definition vme_frame :: "nat \<Rightarrow> daemon \<Rightarrow> daemon \<Rightarrow> bool" where
  "vme_frame idx d d' \<longleftrightarrow> (\<exists>k n v.
     d' = d\<lparr>d_kern := k, d_clock := n, d_info := (d_info d)[idx := (d_info d ! idx)\<lparr>vi_irqen := v\<rparr>]\<rparr> \<and>
     d_clock d \<le> n \<and> (\<forall>b. bit v b \<longrightarrow> bit (vi_irqen (d_info d ! idx)) b))"

lemma vme_frame_refl: "vme_frame idx d d"
  unfolding vme_frame_def
  by (rule exI [of _ "d_kern d"], rule exI [of _ "d_clock d"],
      rule exI [of _ "vi_irqen (d_info d ! idx)"]) simp

lemma vme_frame_trans:
  assumes "idx < length (d_info d)" "vme_frame idx d d1" "vme_frame idx d1 d2"
  shows "vme_frame idx d d2"
  using assms unfolding vme_frame_def by (auto 4 4 intro: le_trans)

lemma vme_frame_tick: "vme_frame idx d (tick d)"
  unfolding vme_frame_def tick_def
  by (rule exI [of _ "d_kern d"], rule exI [of _ "d_clock d + 1"],
      rule exI [of _ "vi_irqen (d_info d ! idx)"]) simp

lemma vme_frame_kern: "vme_frame idx d (d\<lparr>d_kern := k\<rparr>)"
  unfolding vme_frame_def
  by (rule exI [of _ k], rule exI [of _ "d_clock d"],
      rule exI [of _ "vi_irqen (d_info d ! idx)"]) simp

lemma vme_frame_set_irqen:
  assumes "\<forall>b. bit v b \<longrightarrow> bit (vi_irqen (d_info d ! idx)) b"
  shows "vme_frame idx d (set_irqen d idx v)"
  unfolding vme_frame_def set_irqen_def
  by (rule exI [of _ "d_kern d"], rule exI [of _ "d_clock d"], rule exI [of _ v]) (simp add: assms)

lemma vme_frame_length: "vme_frame idx d d' \<Longrightarrow> length (d_info d') = length (d_info d)"
  by (auto simp: vme_frame_def)

lemma vme_frame_table: "vme_frame idx d d' \<Longrightarrow> d_table d' = d_table d"
  by (auto simp: vme_frame_def)

lemma vme_frame_ok:
  assumes "vme_frame idx d d'" "daemon_ok d" "idx < length (d_info d)"
  shows "daemon_ok d'"
proof -
  from assms(1) obtain k n v where
    d': "d' = d\<lparr>d_kern := k, d_clock := n, d_info := (d_info d)[idx := (d_info d ! idx)\<lparr>vi_irqen := v\<rparr>]\<rparr>"
    and sub: "\<forall>b. bit v b \<longrightarrow> bit (vi_irqen (d_info d ! idx)) b"
    by (auto simp: vme_frame_def)
  have "info_ok (d_info d ! idx)" and all: "\<forall>i \<in> set (d_info d). info_ok i"
    using assms by (auto simp: daemon_ok_def)
  then have "info_ok ((d_info d ! idx)\<lparr>vi_irqen := v\<rparr>)"
    using sub irq_mask_ok_less [of "vi_irqen (d_info d ! idx)" v] by (simp add: info_ok_def)
  then have "daemon_ok (d\<lparr>d_info := (d_info d)[idx := (d_info d ! idx)\<lparr>vi_irqen := v\<rparr>]\<rparr>)"
    using assms(2) all by (intro daemon_ok_info) (auto dest!: set_update_subset_insert [THEN subsetD])
  then show ?thesis by (simp add: d' daemon_ok_def fds_ok_def client_fds_def)
qed

text \<open>One pass: nothing is pending, or the highest pending line is notified and the loop goes on.\<close>

definition pending_selector :: "env \<Rightarrow> nat \<Rightarrow> nat \<Rightarrow> daemon \<Rightarrow> selector" where
  "pending_selector env idx irq d =
     \<lparr>s_crate = push_bit (vi_cratenumber (d_info d ! idx)) 1, s_irq = push_bit irq 1,
      s_vector = e_vector env (d_clock d), s_payload = 0\<rparr>"

lemma vme_loop_quiet:
  assumes "e_status env (d_clock d) AND irqen = 0"
  shows "vme_loop (Suc fuel) env idx irqen d = Done (tick d)"
  using assms by (subst vme_loop.simps) simp

definition vme_next :: "env \<Rightarrow> nat \<Rightarrow> nat \<Rightarrow> u32 \<Rightarrow> int \<times> daemon \<Rightarrow> u32 \<times> daemon" where
  "vme_next env idx irq irqen r =
     (if fst r = 0 then (irqen, snd r)
      else if e_status env (d_clock (snd r)) AND push_bit irq 1 = 0 then (irqen, tick (snd r))
      else (irqen AND NOT (push_bit irq 1),
            set_irqen (tick (snd r)) idx (irqen AND NOT (push_bit irq 1))))"

lemma vme_loop_pending:
  assumes "irq_mask_ok irqen" "e_status env (d_clock d) AND irqen \<noteq> 0"
  obtains irq where "1 \<le> irq" "irq \<le> 7" "bit (e_status env (d_clock d)) irq" "bit irqen irq"
    "\<forall>j. irq < j \<and> j \<le> 7 \<longrightarrow> \<not> (bit (e_status env (d_clock d)) j \<and> bit irqen j)"
    "vme_loop (Suc fuel) env idx irqen d =
       obind (notify_irq env (tick (tick d)) (pending_selector env idx irq (tick d)))
         (\<lambda>r. vme_loop fuel env idx (fst (vme_next env idx irq irqen r)) (snd (vme_next env idx irq irqen r)))"
proof -
  obtain irq where irq:
    "List.find (\<lambda>irq. (e_status env (d_clock d) AND irqen) AND push_bit irq 1 \<noteq> (0 :: u32)) (rev [1..<8]) = Some irq"
    "1 \<le> irq" "irq \<le> 7" "bit (e_status env (d_clock d)) irq" "bit irqen irq"
    using assms by (rule find_pending)
  show thesis
  proof (rule that [of irq])
    show "\<forall>j. irq < j \<and> j \<le> 7 \<longrightarrow> \<not> (bit (e_status env (d_clock d)) j \<and> bit irqen j)"
      using irq(1) unfolding find_highest by (simp add: bit_and_iff)
    show "vme_loop (Suc fuel) env idx irqen d =
       obind (notify_irq env (tick (tick d)) (pending_selector env idx irq (tick d)))
         (\<lambda>r. vme_loop fuel env idx (fst (vme_next env idx irq irqen r)) (snd (vme_next env idx irq irqen r)))"
      using irq(1) assms(2)
      by (simp add: vme_loop.simps Let_def pending_selector_def vme_next_def case_prod_beta cong: if_cong)
        (rule arg_cong [where f = "obind _"], rule ext, auto split: prod.splits)
  qed (use irq in simp_all)
qed

lemma irq_mask_ok_clear: "irq_mask_ok m \<Longrightarrow> irq_mask_ok (m AND NOT v)"
  by (simp add: irq_mask_ok_bits bit_and_iff)

lemma notify_tick_frame:
  assumes "notify_irq env (tick (tick d)) sel = Done r"
  shows "\<exists>k. snd r = d\<lparr>d_kern := k, d_clock := d_clock d + 2\<rparr>"
proof -
  obtain err d1 where r: "r = (err, d1)" by (cases r)
  then obtain k where "d1 = (tick (tick d))\<lparr>d_kern := k\<rparr>"
    using assms notify_irq_frame by blast
  then have "snd r = d\<lparr>d_kern := k, d_clock := d_clock d + 2\<rparr>"
    using r by (intro daemon.equality) (simp_all add: tick_def)
  then show ?thesis by blast
qed

lemma vme_next_facts:
  assumes "notify_irq env (tick (tick d)) sel = Done r" "irq_mask_ok irqen"
    "idx < length (d_info d)" "irqen = vi_irqen (d_info d ! idx)"
    and next': "vme_next env idx irq irqen r = (irqen', d')"
  shows "vme_frame idx d d'" "d_clock d + 2 \<le> d_clock d'" "irqen' = vi_irqen (d_info d' ! idx)"
    "irq_mask_ok irqen'"
proof -
  from assms(1) obtain k where r: "snd r = d\<lparr>d_kern := k, d_clock := d_clock d + 2\<rparr>"
    using notify_tick_frame by blast
  have eq: "irqen' = fst (vme_next env idx irq irqen r)" "d' = snd (vme_next env idx irq irqen r)"
    by (simp_all add: next')
  show "d_clock d + 2 \<le> d_clock d'" "irqen' = vi_irqen (d_info d' ! idx)" "irq_mask_ok irqen'"
    using assms(2-4) by (auto simp: eq vme_next_def r tick_def set_irqen_def irq_mask_ok_clear)
  have "vme_frame idx d (d\<lparr>d_kern := k, d_clock := n, d_info := (d_info d)[idx := (d_info d ! idx)\<lparr>vi_irqen := v\<rparr>]\<rparr>)"
    if "d_clock d \<le> n" "\<forall>b. bit v b \<longrightarrow> bit irqen b" for n v
    using that assms(4) unfolding vme_frame_def by blast
  from this [of "d_clock d + 2" irqen] this [of "Suc (Suc (Suc (d_clock d)))" irqen]
    this [of "Suc (Suc (Suc (d_clock d)))" "irqen AND NOT (push_bit irq 1)"]
  show "vme_frame idx d d'"
    using assms(3,4) by (auto simp: eq vme_next_def r tick_def set_irqen_def bit_and_iff)
qed

text \<open>The loop keeps the frame, and ends because nothing enabled was pending at its last look.\<close>

lemma vme_loop_frame:
  assumes "vme_loop fuel env idx irqen d = Done d'" "irq_mask_ok irqen"
    "idx < length (d_info d)" "irqen = vi_irqen (d_info d ! idx)"
  shows "vme_frame idx d d' \<and> d_clock d < d_clock d' \<and>
    e_status env (d_clock d' - 1) AND vi_irqen (d_info d' ! idx) = 0"
  using assms
proof (induction fuel arbitrary: irqen d)
  case (Suc fuel)
  show ?case
  proof (cases "e_status env (d_clock d) AND irqen = 0")
    case True
    then show ?thesis
      using Suc.prems vme_frame_tick [of idx d] by (auto simp: vme_loop_quiet) (simp_all add: tick_def)
  next
    case False
    obtain irq where eq: "vme_loop (Suc fuel) env idx irqen d =
       obind (notify_irq env (tick (tick d)) (pending_selector env idx irq (tick d)))
         (\<lambda>r. vme_loop fuel env idx (fst (vme_next env idx irq irqen r)) (snd (vme_next env idx irq irqen r)))"
      by (rule vme_loop_pending [OF Suc.prems(2) False])
    obtain r where r: "notify_irq env (tick (tick d)) (pending_selector env idx irq (tick d)) = Done r"
      "vme_loop fuel env idx (fst (vme_next env idx irq irqen r)) (snd (vme_next env idx irq irqen r)) = Done d'"
      using Suc.prems(1) unfolding eq by (rule obind_Done_elim)
    note facts = vme_next_facts [OF r(1) Suc.prems(2-4) surjective_pairing, of irq]
    have "idx < length (d_info (snd (vme_next env idx irq irqen r)))"
      using vme_frame_length [OF facts(1)] Suc.prems(3) by simp
    with Suc.IH [OF r(2) facts(4) _ facts(3)] facts(1,2) Suc.prems(3) show ?thesis
      by (auto intro: vme_frame_trans)
  qed
qed simp

lemma vme_loop_no_exit:
  assumes "irq_mask_ok irqen" "idx < length (d_info d)" "irqen = vi_irqen (d_info d ! idx)"
  shows "vme_loop fuel env idx irqen d \<noteq> Exit c"
  using assms
proof (induction fuel arbitrary: irqen d)
  case (Suc fuel)
  show ?case
  proof (cases "e_status env (d_clock d) AND irqen = 0")
    case False
    obtain irq where eq: "vme_loop (Suc fuel) env idx irqen d =
       obind (notify_irq env (tick (tick d)) (pending_selector env idx irq (tick d)))
         (\<lambda>r. vme_loop fuel env idx (fst (vme_next env idx irq irqen r)) (snd (vme_next env idx irq irqen r)))"
      by (rule vme_loop_pending [OF Suc.prems(1) False])
    have "vme_loop fuel env idx (fst (vme_next env idx irq irqen r)) (snd (vme_next env idx irq irqen r)) \<noteq> Exit c"
      if r: "notify_irq env (tick (tick d)) (pending_selector env idx irq (tick d)) = Done r" for r
    proof -
      note facts = vme_next_facts [OF r Suc.prems surjective_pairing, of irq]
      show ?thesis
        using Suc.IH [OF facts(4) _ facts(3)] vme_frame_length [OF facts(1)] Suc.prems(2) by simp
    qed
    then show ?thesis
      unfolding eq by (auto simp: obind_eq_Exit)
  qed (simp add: vme_loop_quiet)
qed simp

text \<open>If the interrupt lines are quiet from the \<open>N\<close>-th read on, the loop ends: every pass reads
  the device twice at least.\<close>

lemma vme_loop_terminates:
  assumes "irq_mask_ok irqen" "idx < length (d_info d)" "irqen = vi_irqen (d_info d ! idx)"
    "\<forall>n \<ge> N. e_status env n = 0" "N < d_clock d + 2 * fuel"
  shows "vme_loop (Suc fuel) env idx irqen d \<noteq> NoFuel"
  using assms
proof (induction fuel arbitrary: irqen d)
  case 0
  then show ?case by (simp add: vme_loop_quiet)
next
  case (Suc fuel)
  show ?case
  proof (cases "e_status env (d_clock d) AND irqen = 0")
    case False
    obtain irq where eq: "vme_loop (Suc (Suc fuel)) env idx irqen d =
       obind (notify_irq env (tick (tick d)) (pending_selector env idx irq (tick d)))
         (\<lambda>r. vme_loop (Suc fuel) env idx (fst (vme_next env idx irq irqen r)) (snd (vme_next env idx irq irqen r)))"
      by (rule vme_loop_pending [OF Suc.prems(1) False])
    have "vme_loop (Suc fuel) env idx (fst (vme_next env idx irq irqen r)) (snd (vme_next env idx irq irqen r)) \<noteq> NoFuel"
      if r: "notify_irq env (tick (tick d)) (pending_selector env idx irq (tick d)) = Done r" for r
    proof -
      note facts = vme_next_facts [OF r Suc.prems(1-3) surjective_pairing, of irq]
      show ?thesis
        using Suc.IH [OF facts(4) _ facts(3) Suc.prems(4)] vme_frame_length [OF facts(1)]
          facts(2) Suc.prems(2,5) by simp
    qed
    then show ?thesis
      unfolding eq by (auto simp: obind_eq_NoFuel)
  qed (simp add: vme_loop_quiet)
qed

text \<open>
  If nobody takes the interrupts of a crate and the lines stay asserted, every pass clears one
  of them in the enable register, so the loop ends after as many passes as lines were pending.
\<close>

lemma notify_unregistered:
  assumes "table_ok (d_table d)" "lookup_entry (live (d_table d)) sel = None"
  shows "notify_irq env d sel = Done (- EINVAL, d)"
  using assms by (simp add: notify_irq_def find_interrupt_eq)

lemma clear_bit_set:
  fixes w :: u32
  assumes "bit w n"
  shows "{k. bit (w AND NOT (push_bit n 1)) k} = {k. bit w k} - {n}"
proof -
  have "n < 32" using assms bit_imp_le_length by fastforce
  then have one: "bit (push_bit n (1 :: u32)) k \<longleftrightarrow> k = n" for k
    by (auto simp: bit_simps)
  show ?thesis
    unfolding bit_and_iff bit_not_iff one using bit_imp_possible_bit by blast
qed

lemma finite_bits [simp]: "finite {k. bit (w :: u32) k}"
  by (rule finite_subset [of _ "{..<32}"]) (auto dest: bit_imp_le_length)

lemma vme_loop_unattended:
  assumes "daemon_ok d" "idx < length (d_info d)" "irqen = vi_irqen (d_info d ! idx)"
    and "\<forall>n. e_status env n = s"
    and nobody: "\<forall>sel. s_crate sel = push_bit (vi_cratenumber (d_info d ! idx)) 1 \<longrightarrow>
      lookup_entry (live (d_table d)) sel = None"
    and "card {n. bit (s AND irqen) n} \<le> fuel"
  shows "\<exists>d'. vme_loop (Suc fuel) env idx irqen d = Done d' \<and> d_kern d' = d_kern d \<and>
    vi_irqen (d_info d' ! idx) = irqen AND NOT s"
  using assms
proof (induction fuel arbitrary: irqen d)
  case 0
  then have "\<forall>n. \<not> bit (s AND irqen) n"
    by simp
  then have "s AND irqen = 0"
    by (meson word_neq_0_bit)
  with 0 show ?case
    using 0 by (auto simp: vme_loop_quiet tick_def and_eq_0_iff bit_simps intro!: bit_word_eqI)
next
  case (Suc fuel)
  have ok: "table_ok (d_table d)" and mask: "irq_mask_ok irqen"
    using Suc.prems(1-3) by (auto simp: daemon_ok_def info_ok_def)
  show ?case
  proof (cases "e_status env (d_clock d) AND irqen = 0")
    case True
    then show ?thesis
      using Suc.prems(2-4)
      by (auto simp: vme_loop_quiet tick_def and_eq_0_iff bit_simps intro!: bit_word_eqI)
  next
    case False
    obtain irq where irq: "bit (e_status env (d_clock d)) irq" "bit irqen irq"
      and eq: "vme_loop (Suc (Suc fuel)) env idx irqen d =
       obind (notify_irq env (tick (tick d)) (pending_selector env idx irq (tick d)))
         (\<lambda>r. vme_loop (Suc fuel) env idx (fst (vme_next env idx irq irqen r)) (snd (vme_next env idx irq irqen r)))"
      by (rule vme_loop_pending [OF mask False])
    let ?m = "irqen AND NOT (push_bit irq 1)"
    let ?d = "set_irqen (tick (tick (tick d))) idx ?m"
    have n: "notify_irq env (tick (tick d)) (pending_selector env idx irq (tick d)) =
        Done (- EINVAL, tick (tick d))"
      using ok Suc.prems(5) by (intro notify_unregistered) (simp_all add: tick_def pending_selector_def)
    have "s AND push_bit irq 1 \<noteq> 0"
      using irq(1) Suc.prems(4) and_exp_eq_0_iff [of s irq] by simp
    then have next': "vme_next env idx irq irqen (- EINVAL, tick (tick d)) = (?m, ?d)"
      using Suc.prems(4) by (simp add: vme_next_def)
    note facts = vme_next_facts [OF n mask Suc.prems(2,3) next']
    have "bit (s AND irqen) irq"
      using irq Suc.prems(4) by (simp add: bit_and_iff)
    then have "{n. bit (s AND ?m) n} = {n. bit (s AND irqen) n} - {irq}"
      and "irq \<in> {n. bit (s AND irqen) n}"
      using clear_bit_set [of "s AND irqen" irq] by (simp_all only: and.assoc mem_Collect_eq)
    then have "card {n. bit (s AND ?m) n} \<le> fuel"
      using Suc.prems(6) by (simp add: card_Diff_singleton)
    moreover have "vi_cratenumber (d_info ?d ! idx) = vi_cratenumber (d_info d ! idx)"
      "d_table ?d = d_table d" "length (d_info ?d) = length (d_info d)"
      using Suc.prems(2) by (simp_all add: set_irqen_def tick_def)
    ultimately obtain d' where d': "vme_loop (Suc fuel) env idx ?m ?d = Done d'"
      "d_kern d' = d_kern ?d" "vi_irqen (d_info d' ! idx) = ?m AND NOT s"
      using Suc.IH [OF vme_frame_ok [OF facts(1) Suc.prems(1,2)] _ facts(3) Suc.prems(4)]
        Suc.prems(2,5) by metis
    have "?m AND NOT s = irqen AND NOT s"
      using irq(1) Suc.prems(4) by (auto simp: bit_simps intro!: bit_word_eqI)
    then show ?thesis
      using d' by (simp add: eq n next') (simp add: set_irqen_def tick_def)
  qed
qed

end
