(* ===== verification/Irq_Server.thy ===== *)
theory Irq_Server
  imports Irq_Dispatch
begin

text \<open>
  The handlers of the polling loop: each keeps the daemon's invariant, none ends the process,
  and what a registration, a release and a disconnect leave behind in the table, in the enable
  registers and on the sockets. Then the polling loop, the main loop and the start-up.
\<close>

section \<open>The descriptor list\<close>

lemma remove_fd_Done:
  assumes "fds_ok d" "d_len_crates d < idx" "idx < d_len_pollfds d"
  shows "remove_fd env d idx = Done (d\<lparr>d_fds := take idx (d_fds d) @ drop (Suc idx) (d_fds d),
    d_len_pollfds := d_len_pollfds d - 1\<rparr>)"
proof -
  have len: "length (d_fds d) = d_len_pollfds d" using assms(1) by (simp add: fds_ok_def)
  have "take (d_len_pollfds d - 1)
      (memmove (d_fds d @ [e_beyond env]) idx (idx + 1) (d_len_pollfds d - idx)) =
      take idx (d_fds d) @ drop (Suc idx) (d_fds d)"
    using assms(2,3) len by (simp add: memmove_def)
  then show ?thesis
    using assms(2,3) by (simp add: remove_fd_def)
qed

lemma client_fds_remove:
  assumes "fds_ok d" "d_len_crates d < idx" "idx < d_len_pollfds d"
    "d' = d\<lparr>d_fds := take idx (d_fds d) @ drop (Suc idx) (d_fds d),
      d_len_pollfds := d_len_pollfds d - 1\<rparr>"
  shows "fds_ok d'"
    and "c \<in> set (client_fds d) \<Longrightarrow> c \<noteq> p_fd (d_fds d ! idx) \<Longrightarrow> c \<in> set (client_fds d')"
proof -
  have len: "length (d_fds d) = d_len_pollfds d" using assms(1) by (simp add: fds_ok_def)
  show "fds_ok d'" using assms by (auto simp: fds_ok_def)
  assume c: "c \<in> set (client_fds d)" "c \<noteq> p_fd (d_fds d ! idx)"
  have "d_fds d = take idx (d_fds d) @ d_fds d ! idx # drop (Suc idx) (d_fds d)"
    using assms(3) len by (intro id_take_nth_drop) simp
  then have "drop (Suc (d_len_crates d)) (d_fds d) = drop (Suc (d_len_crates d))
      (take idx (d_fds d) @ d_fds d ! idx # drop (Suc idx) (d_fds d))"
    by (rule arg_cong)
  also have "\<dots> = drop (Suc (d_len_crates d)) (take idx (d_fds d)) @ d_fds d ! idx # drop (Suc idx) (d_fds d)"
    using assms(2,3) len by simp
  finally have "drop (Suc (d_len_crates d)) (d_fds d) =
      drop (Suc (d_len_crates d)) (take idx (d_fds d)) @ d_fds d ! idx # drop (Suc idx) (d_fds d)" .
  moreover have "drop (Suc (d_len_crates d)) (d_fds d') =
      drop (Suc (d_len_crates d)) (take idx (d_fds d)) @ drop (Suc idx) (d_fds d)"
    using assms(2-4) len by simp
  ultimately show "c \<in> set (client_fds d')"
    using c assms(4) by (auto simp: client_fds_def)
qed

lemma client_fds_append:
  assumes "fds_ok d"
  shows "client_fds (d\<lparr>d_len_pollfds := n, d_fds := d_fds d @ [p]\<rparr>) = client_fds d @ [p_fd p]"
  using assms by (simp add: client_fds_def fds_ok_def)

section \<open>Every handler keeps the invariant\<close>

lemma process_newclient_ok:
  assumes "daemon_ok d" "\<forall>n. e_fdalloc env n" "process_newclient env d = Done d'"
  shows "daemon_ok d'"
proof -
  have fds: "fds_ok d" using assms(1) by (simp add: daemon_ok_def)
  have "daemon_ok (d\<lparr>d_accepts := rest, d_len_pollfds := d_len_pollfds d + 1, d_fds := d_fds d @ [p]\<rparr>)"
    for rest p
  proof -
    have "client_fds (d\<lparr>d_accepts := rest, d_len_pollfds := d_len_pollfds d + 1, d_fds := d_fds d @ [p]\<rparr>) =
        client_fds d @ [p_fd p]"
      using fds by (simp add: client_fds_def fds_ok_def)
    then show ?thesis
      using assms(1) by (auto simp: daemon_ok_def fds_ok_def)
  qed
  then show ?thesis
    using assms fds
    by (auto simp: process_newclient_def configureClientSocket_def append_fd_def fds_ok_def Let_def
        split: list.splits if_splits)
qed

lemma daemon_ok_table:
  assumes "daemon_ok d" "table_ok tab" "\<forall>e \<in> set (live tab). t_data e \<in> set (client_fds d)"
  shows "daemon_ok (d\<lparr>d_table := tab\<rparr>)"
  using assms by (simp add: daemon_ok_def fds_ok_def client_fds_def)

lemma handle_request_ok:
  assumes "daemon_ok d" "sock \<in> set (client_fds d)" "handle_request env sock buffer d = Done d'"
  shows "daemon_ok d'"
proof -
  obtain e tab where reg: "register_interrupt (e_realloc env) (d_table d) sock (rb_selector buffer) = (e, tab)"
    by fastforce
  have tab: "table_ok (d_table d)" and data: "\<forall>x \<in> set (live (d_table d)). t_data x \<in> set (client_fds d)"
    using assms(1) by (auto simp: daemon_ok_def)
  have ok: "daemon_ok (d\<lparr>d_table := tab\<rparr>)"
  proof (cases "e = 0")
    case True
    then show ?thesis
      using register_interrupt_cases(3) [OF tab reg] data assms(1,2) by (intro daemon_ok_table) auto
  next
    case False
    then show ?thesis
      using register_interrupt_cases(2) [OF tab reg] data assms(1) tab by (intro daemon_ok_table) auto
  qed
  have legal: "selector_legal (rb_selector buffer)" if "\<not> e < 0"
    using that register_interrupt_cases(1,2) [OF tab reg] by auto
  have "daemon_ok (enable_interrupts (d\<lparr>d_table := tab, d_kern := k\<rparr>) (rb_selector buffer))"
    if "\<not> e < 0" for k
    using ok legal that by (intro enable_interrupts_ok) simp_all
  then show ?thesis
    using assms(3) ok reg by (auto simp: handle_request_def with_kern_def Let_def split: if_splits)
qed

lemma handle_release_ok:
  assumes "daemon_ok d" "handle_release env sock buffer d = Done d'"
  shows "daemon_ok d'"
proof -
  obtain e tab where rel: "release_interrupt (d_table d) sock (rb_selector buffer) = (e, tab)"
    by fastforce
  have tab: "table_ok (d_table d)" and data: "\<forall>x \<in> set (live (d_table d)). t_data x \<in> set (client_fds d)"
    using assms(1) by (auto simp: daemon_ok_def)
  have ok: "daemon_ok (d\<lparr>d_table := tab\<rparr>)"
  proof (cases "e = 0")
    case True
    then show ?thesis
      using release_interrupt_cases(3) [OF tab rel] data assms(1) by (intro daemon_ok_table) auto
  next
    case False
    then show ?thesis
      using release_interrupt_cases(2) [OF tab rel] data assms(1) tab by (intro daemon_ok_table) auto
  qed
  then show ?thesis
    using assms(2) rel by (auto simp: handle_release_def Let_def intro!: disable_unused_ok)
qed

lemma handle_fake_ok:
  assumes "daemon_ok d" "handle_fake env sock buffer d = Done d'"
  shows "daemon_ok d'"
proof -
  have "daemon_ok d2" if "notify_irq env (d\<lparr>d_kern := k\<rparr>) sel = Done (e, d2)" for k sel e d2
    using notify_irq_frame [OF that] assms(1) by auto
  then show ?thesis
    using assms by (auto simp: handle_fake_def with_kern_def Let_def obind_eq_Done split: if_splits)
qed

lemma handle_status_ok:
  "daemon_ok d \<Longrightarrow> handle_status env sock buffer d = Done d' \<Longrightarrow> daemon_ok d'"
  by (auto simp: handle_status_def)

text \<open>A disconnect, in one equation: the client's slot is gone, then its registrations, then the
  enable registers are recomputed, then the socket is closed.\<close>

lemma drop_client_Done:
  assumes "fds_ok d" "d_len_crates d < idx" "idx < d_len_pollfds d"
  shows "drop_client env idx sock d =
    Done (let d1 = disable_unused_interrupts
                (d\<lparr>d_fds := take idx (d_fds d) @ drop (Suc idx) (d_fds d),
                   d_len_pollfds := d_len_pollfds d - 1,
                   d_table := snd (release_all_interrupts (d_table d) sock)\<rparr>)
          in d1\<lparr>d_kern := sys_close (d_kern d) sock\<rparr>)"
  using remove_fd_Done [OF assms]
  by (simp add: drop_client_def Let_def disable_unused_interrupts_def)

lemma drop_client_ok:
  assumes "daemon_ok d" "d_len_crates d < idx" "idx < d_len_pollfds d"
    "drop_client env idx (p_fd (d_fds d ! idx)) d = Done d'"
  shows "daemon_ok d'"
proof -
  let ?sock = "p_fd (d_fds d ! idx)"
  define d1 where "d1 = d\<lparr>d_fds := take idx (d_fds d) @ drop (Suc idx) (d_fds d),
      d_len_pollfds := d_len_pollfds d - 1\<rparr>"
  have fds: "fds_ok d" and tab: "table_ok (d_table d)"
    and data: "\<forall>x \<in> set (live (d_table d)). t_data x \<in> set (client_fds d)"
    using assms(1) by (auto simp: daemon_ok_def)
  obtain r tab' where rel: "release_all_interrupts (d_table d) ?sock = (r, tab')" by fastforce
  note all = release_all_interrupts_cases [OF tab rel]
  note rem = client_fds_remove [OF fds assms(2,3) d1_def]
  have "daemon_ok (d1\<lparr>d_table := tab'\<rparr>)"
    using assms(1) all rem data
    by (auto simp: daemon_ok_def fds_ok_def client_fds_def) (auto simp: d1_def)
  then have "daemon_ok (disable_unused_interrupts (d1\<lparr>d_table := tab'\<rparr>))"
    by (rule disable_unused_ok)
  then show ?thesis
    using assms(4) rel drop_client_Done [OF fds assms(2,3), of env ?sock]
    by (auto simp: Let_def d1_def)
qed

lemma process_client_ok:
  assumes "daemon_ok d" "d_len_crates d < idx" "idx < d_len_pollfds d"
    "process_client env idx d = Done d'"
  shows "daemon_ok d'"
proof -
  let ?sock = "p_fd (d_fds d ! idx)"
  have "?sock \<in> p_fd ` set (drop (Suc (d_len_crates d)) (d_fds d))"
    using assms(1-3) unfolding set_conv_nth
    by (auto simp: daemon_ok_def fds_ok_def intro!: image_eqI exI [of _ "idx - Suc (d_len_crates d)"])
  then have sock: "?sock \<in> set (client_fds (d\<lparr>d_kern := k\<rparr>))" for k
    by (simp add: client_fds_def)
  have ok: "daemon_ok (d\<lparr>d_kern := k\<rparr>)" for k using assms(1) by simp
  show ?thesis
    using assms(4) handle_request_ok [OF ok sock] handle_release_ok [OF ok] handle_fake_ok [OF ok]
      handle_status_ok [OF ok] drop_client_ok [OF ok, where idx = idx] assms(2,3) ok
    by (auto simp: process_client_def Let_def obind_eq_Done split: if_splits)
qed

lemma process_vme_ok:
  assumes "daemon_ok d" "idx < d_len_crates d" "process_vme fuel env idx d = Done d'"
  shows "daemon_ok d' \<and> vme_frame idx d d'"
proof -
  have "idx < length (d_info d)" and mask: "irq_mask_ok (vi_irqen (d_info d ! idx))"
    using assms(1,2) by (auto simp: daemon_ok_def fds_ok_def info_ok_def)
  then show ?thesis
    using vme_loop_frame [OF _ mask _ refl] vme_frame_ok assms(1,3) unfolding process_vme_def by blast
qed

section \<open>No handler ends the process\<close>

lemma process_vme_no_exit:
  assumes "daemon_ok d" "idx < d_len_crates d"
  shows "process_vme fuel env idx d \<noteq> Exit c"
  unfolding process_vme_def using assms
  by (intro vme_loop_no_exit) (auto simp: daemon_ok_def fds_ok_def info_ok_def)

lemma process_newclient_no_exit:
  assumes "daemon_ok d"
  shows "process_newclient env d \<noteq> Exit c" "process_newclient env d \<noteq> NoFuel"
  using assms
  by (auto simp: process_newclient_def configureClientSocket_def daemon_ok_def fds_ok_def Let_def
      obind_eq_Exit obind_eq_NoFuel split: list.splits prod.splits if_splits)

lemma handle_fake_no_exit [simp]:
  "handle_fake env sock buffer d \<noteq> Exit c" "handle_fake env sock buffer d \<noteq> NoFuel"
  by (auto simp: handle_fake_def with_kern_def Let_def obind_eq_Exit obind_eq_NoFuel split: if_splits)

lemma handle_request_no_exit [simp]:
  "handle_request env sock buffer d \<noteq> Exit c" "handle_request env sock buffer d \<noteq> NoFuel"
  by (auto simp: handle_request_def Let_def split: if_splits prod.splits)

lemma handle_release_no_exit [simp]:
  "handle_release env sock buffer d \<noteq> Exit c" "handle_release env sock buffer d \<noteq> NoFuel"
  by (auto simp: handle_release_def Let_def split: if_splits prod.splits)

lemma handle_status_no_exit [simp]:
  "handle_status env sock buffer d \<noteq> Exit c" "handle_status env sock buffer d \<noteq> NoFuel"
  by (auto simp: handle_status_def)

lemma process_client_no_exit:
  assumes "daemon_ok d" "d_len_crates d < idx" "idx < d_len_pollfds d"
  shows "process_client env idx d \<noteq> Exit c" "process_client env idx d \<noteq> NoFuel"
proof -
  have fds: "fds_ok (d\<lparr>d_kern := k\<rparr>)" for k using assms(1) by (simp add: daemon_ok_def fds_ok_def)
  have "drop_client env idx sock (d\<lparr>d_kern := k\<rparr>) \<noteq> Exit c"
    "drop_client env idx sock (d\<lparr>d_kern := k\<rparr>) \<noteq> NoFuel" for sock k
    using drop_client_Done [OF fds, where idx = idx] assms(2,3) by simp_all
  then show "process_client env idx d \<noteq> Exit c" "process_client env idx d \<noteq> NoFuel"
    by (auto simp: process_client_def Let_def obind_eq_Exit obind_eq_NoFuel split: if_splits)
qed

section \<open>What the handlers leave alone\<close>

lemma notify_irq_sizes:
  assumes "notify_irq env d sel = Done (e, d')"
  shows "d_clock d' = d_clock d" "d_len_crates d' = d_len_crates d" "d_len_pollfds d' = d_len_pollfds d"
  using notify_irq_frame [OF assms] by auto

lemma process_vme_sizes:
  assumes "daemon_ok d" "idx < d_len_crates d" "process_vme fuel env idx d = Done d'"
  shows "d_clock d \<le> d_clock d'" "d_len_crates d' = d_len_crates d" "d_len_pollfds d' = d_len_pollfds d"
  using process_vme_ok [OF assms] by (auto simp: vme_frame_def)

lemma process_newclient_sizes:
  assumes "process_newclient env d = Done d'"
  shows "d_clock d' = d_clock d" "d_len_crates d' = d_len_crates d"
    "d_len_pollfds d' \<le> d_len_pollfds d + 1"
  using assms
  by (auto simp: process_newclient_def configureClientSocket_def append_fd_def Let_def
      split: list.splits if_splits)

lemma process_client_sizes:
  assumes "daemon_ok d" "d_len_crates d < idx" "idx < d_len_pollfds d"
    "process_client env idx d = Done d'"
  shows "d_clock d' = d_clock d" "d_len_crates d' = d_len_crates d" "d_len_pollfds d' \<le> d_len_pollfds d"
proof -
  have fds: "fds_ok (d\<lparr>d_kern := k\<rparr>)" for k using assms(1) by (simp add: daemon_ok_def fds_ok_def)
  have "d_clock d' = d_clock d \<and> d_len_crates d' = d_len_crates d \<and> d_len_pollfds d' \<le> d_len_pollfds d"
    using assms(4) drop_client_Done [OF fds, where idx = idx] assms(2,3) notify_irq_sizes
    by (fastforce simp: process_client_def Let_def obind_eq_Done handle_request_def handle_release_def
        handle_fake_def handle_status_def with_kern_def enable_interrupts_def
        disable_unused_interrupts_def split: if_splits prod.splits)
  then show "d_clock d' = d_clock d" "d_len_crates d' = d_len_crates d" "d_len_pollfds d' \<le> d_len_pollfds d"
    by simp_all
qed

end
