(* ===== verification/Irq_Daemon_Run.thy ===== *)
theory Irq_Daemon_Run
  imports Irq_Server
begin

text \<open>
  Runs of the daemon: the walk over the polled descriptors, the main loop over any sequence of
  poll results, and the start-up. The invariant holds from the end of the start-up on, no
  client and no interrupt can make the process exit, and the walk over the descriptors ends.
\<close>

section \<open>The polling loop\<close>

text \<open>One entry of the walk: the handler the index selects.\<close>

definition dispatch :: "nat \<Rightarrow> env \<Rightarrow> nat \<Rightarrow> daemon \<Rightarrow> daemon outcome" where
  "dispatch vfuel env idx d =
     (if idx < d_len_crates d then process_vme vfuel env idx d
      else if idx = d_len_crates d then process_newclient env d
      else process_client env idx d)"

lemma poll_loop_step:
  "poll_loop (Suc fuel) vfuel env idx nevents d =
     (if idx < d_len_pollfds d \<and> nevents \<noteq> 0 then
        if p_revents (d_fds d ! idx) \<noteq> 0 then
          obind (dispatch vfuel env idx d) (poll_loop fuel vfuel env (idx + 1) (nevents - 1))
        else poll_loop fuel vfuel env (idx + 1) nevents d
      else Done d)"
  by (simp add: poll_loop.simps(2) dispatch_def)

lemma dispatch_ok:
  assumes "daemon_ok d" "\<forall>n. e_fdalloc env n" "idx < d_len_pollfds d" "dispatch vfuel env idx d = Done d'"
  shows "daemon_ok d'"
proof (cases idx "d_len_crates d" rule: linorder_cases)
  case less
  then show ?thesis using assms process_vme_ok by (auto simp: dispatch_def)
next
  case equal
  then show ?thesis using assms process_newclient_ok by (auto simp: dispatch_def)
next
  case greater
  then show ?thesis using assms process_client_ok by (auto simp: dispatch_def)
qed

lemma dispatch_no_exit:
  assumes "daemon_ok d" "idx < d_len_pollfds d"
  shows "dispatch vfuel env idx d \<noteq> Exit c"
proof (cases idx "d_len_crates d" rule: linorder_cases)
  case less
  then show ?thesis using assms process_vme_no_exit by (auto simp: dispatch_def)
next
  case equal
  then show ?thesis using assms process_newclient_no_exit by (auto simp: dispatch_def)
next
  case greater
  then show ?thesis using assms process_client_no_exit by (auto simp: dispatch_def)
qed

lemma dispatch_fuel:
  assumes "daemon_ok d" "idx < d_len_pollfds d"
    "\<forall>n \<ge> N. e_status env n = 0" "N < d_clock d + 2 * vfuel"
  shows "dispatch (Suc vfuel) env idx d \<noteq> NoFuel"
proof (cases idx "d_len_crates d" rule: linorder_cases)
  case less
  have "vme_loop (Suc vfuel) env idx (vi_irqen (d_info d ! idx)) d \<noteq> NoFuel"
    using assms less by (intro vme_loop_terminates) (auto simp: daemon_ok_def fds_ok_def info_ok_def)
  then show ?thesis using less by (simp add: dispatch_def process_vme_def)
next
  case equal
  then show ?thesis using assms process_newclient_no_exit by (auto simp: dispatch_def)
next
  case greater
  then show ?thesis using assms process_client_no_exit by (auto simp: dispatch_def)
qed

text \<open>How much of the walk is left: the entries behind the index, and one for a client that may
  still be accepted.\<close>

definition walk_left :: "daemon \<Rightarrow> nat \<Rightarrow> nat" where
  "walk_left d idx = d_len_pollfds d - idx + (if idx \<le> d_len_crates d then 1 else 0)"

lemma dispatch_sizes:
  assumes "daemon_ok d" "idx < d_len_pollfds d" "dispatch vfuel env idx d = Done d'"
  shows "d_clock d \<le> d_clock d'" "walk_left d' (idx + 1) < walk_left d idx"
proof -
  have "d_clock d \<le> d_clock d' \<and> walk_left d' (idx + 1) < walk_left d idx"
  proof (cases idx "d_len_crates d" rule: linorder_cases)
    case less
    then show ?thesis
      using assms(2,3) process_vme_sizes [OF assms(1) less, of vfuel env d']
      by (auto simp: dispatch_def walk_left_def)
  next
    case equal
    then show ?thesis
      using assms(2,3) process_newclient_sizes [of env d d'] by (auto simp: dispatch_def walk_left_def)
  next
    case greater
    then show ?thesis
      using assms(2,3) process_client_sizes [OF assms(1) greater assms(2), of env d']
      by (auto simp: dispatch_def walk_left_def)
  qed
  then show "d_clock d \<le> d_clock d'" "walk_left d' (idx + 1) < walk_left d idx" by simp_all
qed

lemma poll_loop_ok:
  assumes "daemon_ok d" "\<forall>n. e_fdalloc env n" "poll_loop fuel vfuel env idx nevents d = Done d'"
  shows "daemon_ok d'"
  using assms
proof (induction fuel arbitrary: idx nevents d)
  case (Suc fuel)
  have "daemon_ok d1" if "dispatch vfuel env idx d = Done d1" "idx < d_len_pollfds d" for d1
    using dispatch_ok [OF Suc.prems(1,2) that(2,1)] .
  then show ?case
    using Suc.prems Suc.IH [OF _ assms(2)]
    by (auto simp: poll_loop_step obind_eq_Done split: if_splits)
qed simp

lemma poll_loop_no_exit:
  assumes "daemon_ok d" "\<forall>n. e_fdalloc env n"
  shows "poll_loop fuel vfuel env idx nevents d \<noteq> Exit c"
  using assms
proof (induction fuel arbitrary: idx nevents d)
  case (Suc fuel)
  show ?case
    using Suc.prems Suc.IH dispatch_ok dispatch_no_exit
    by (auto simp: poll_loop_step obind_eq_Exit)
qed simp

lemma poll_loop_fuel:
  assumes "daemon_ok d" "\<forall>n. e_fdalloc env n"
    "\<forall>n \<ge> N. e_status env n = 0" "N < d_clock d + 2 * vfuel" "walk_left d idx < fuel"
  shows "poll_loop fuel (Suc vfuel) env idx nevents d \<noteq> NoFuel"
  using assms
proof (induction fuel arbitrary: idx nevents d)
  case (Suc fuel)
  show ?case
  proof (cases "idx < d_len_pollfds d")
    case True
    have skip: "poll_loop fuel (Suc vfuel) env (idx + 1) nevents d \<noteq> NoFuel"
      using Suc.prems True by (intro Suc.IH) (auto simp: walk_left_def split: if_splits)
    have "poll_loop fuel (Suc vfuel) env (idx + 1) (nevents - 1) d1 \<noteq> NoFuel"
      if "dispatch (Suc vfuel) env idx d = Done d1" for d1
      using Suc.prems dispatch_ok [OF Suc.prems(1,2) True that] dispatch_sizes [OF Suc.prems(1) True that]
      by (intro Suc.IH) auto
    then show ?thesis
      using skip dispatch_fuel [OF Suc.prems(1) True Suc.prems(3,4)]
      by (auto simp: poll_loop_step obind_eq_NoFuel)
  qed (simp add: poll_loop_step)
qed simp

section \<open>The main loop\<close>

lemma map_fst_fds:
  "map p_fd (map2 (\<lambda>p i. p\<lparr>p_revents := revs i\<rparr>) xs [a..<a + length xs]) = map p_fd xs"
proof (induction xs arbitrary: a)
  case (Cons x xs)
  have "[a..<a + length (x # xs)] = a # [Suc a..<Suc a + length xs]"
    by (simp add: upt_rec)
  then show ?case
    using Cons [of "Suc a"] by simp
qed simp

lemma client_fds_set_revents [simp]: "client_fds (set_revents revs d) = client_fds d"
proof -
  have "client_fds (set_revents revs d) = drop (Suc (d_len_crates d)) (map p_fd (d_fds (set_revents revs d)))"
    by (simp add: client_fds_def drop_map set_revents_def)
  also have "map p_fd (d_fds (set_revents revs d)) = map p_fd (d_fds d)"
    using map_fst_fds [of revs "d_fds d" 0] by (simp add: set_revents_def)
  finally show ?thesis
    by (simp add: client_fds_def drop_map)
qed

lemma set_revents_ok [simp]: "daemon_ok (set_revents revs d) = daemon_ok d"
proof -
  have "fds_ok (set_revents revs d) = fds_ok d" by (simp add: set_revents_def fds_ok_def)
  then show ?thesis
    by (simp add: daemon_ok_def) (simp add: set_revents_def)
qed

lemma mainloop_ok:
  assumes "daemon_ok d" "\<forall>n. e_fdalloc env n" "mainloop fuel vfuel env pr d = Done (r, d')"
  shows "daemon_ok d'"
proof -
  have "daemon_ok d1"
    if "poll_loop fuel vfuel env 0 n (set_revents revs d) = Done d1" for n revs d1
    using poll_loop_ok [OF _ assms(2) that] assms(1) by simp
  then show ?thesis
    using assms(1,3)
    by (auto simp: mainloop_def signalhandler_def Let_def obind_eq_Done
        split: poll_result.splits if_splits)
qed

lemma mainloop_no_exit:
  assumes "daemon_ok d" "\<forall>n. e_fdalloc env n"
  shows "mainloop fuel vfuel env pr d \<noteq> Exit c"
  using assms
  by (auto simp: mainloop_def Let_def obind_eq_Exit poll_loop_no_exit split: poll_result.splits)

lemma main_loop_ok:
  assumes "daemon_ok d" "\<forall>n. e_fdalloc env n"
  shows "main_loop fuel vfuel env prs d = Done (r, d') \<Longrightarrow> daemon_ok d'"
    and "main_loop fuel vfuel env prs d \<noteq> Exit c"
  using assms
proof (induction prs arbitrary: d)
  case (Cons pr prs)
  {
    case 1
    then show ?case using Cons.IH(1) mainloop_ok
      by (auto simp: obind_eq_Done split: if_splits)
  next
    case 2
    then show ?case using Cons.IH(2) mainloop_ok mainloop_no_exit
      by (auto simp: obind_eq_Exit)
  }
qed simp_all

section \<open>Start-up\<close>

text \<open>Before the server socket is opened every polled descriptor belongs to a crate.\<close>

definition startup_ok :: "nat \<Rightarrow> daemon \<Rightarrow> bool" where
  "startup_ok c d \<longleftrightarrow> length (d_fds d) = d_len_pollfds d \<and> d_len_pollfds d = d_len_crates d \<and>
     length (d_info d) = d_len_crates d \<and> d_len_crates d \<le> c \<and>
     (\<forall>i \<in> set (d_info d). vi_cratenumber i < c \<and> irq_mask_ok (vi_irqen i)) \<and> d_table d = []"

lemma open_crate_ok:
  assumes "startup_ok c d" "irq_mask_ok (e_irqen env c)" "open_crate env c d = Done d'"
  shows "startup_ok (Suc c) d'"
  using assms
  by (auto simp: open_crate_def append_fd_def Let_def startup_ok_def less_Suc_eq le_Suc_eq split: if_splits)

lemma configure_crates_ok:
  assumes "startup_ok 0 d" "\<forall>c. irq_mask_ok (e_irqen env c)"
    "fold (\<lambda>crate m. obind m (open_crate env crate)) [0..<n] (Done d) = Done d'"
  shows "startup_ok n d'"
  using assms(3)
proof (induction n arbitrary: d')
  case 0
  then show ?case using assms(1) by simp
next
  case (Suc n)
  then obtain d1 where "fold (\<lambda>crate m. obind m (open_crate env crate)) [0..<n] (Done d) = Done d1"
    "open_crate env n d1 = Done d'"
    by (auto simp: obind_eq_Done)
  then show ?case using Suc.IH open_crate_ok assms(2) by blast
qed

definition daemon_zero :: "kernel \<Rightarrow> int list \<Rightarrow> daemon" where
  "daemon_zero k accepts =
     \<lparr>d_fds = [], d_len_crates = 0, d_len_pollfds = 0,
      d_settings = \<lparr>allowFakeIrq = False, debugMode = False, noDaemon = False, noVME = False\<rparr>,
      d_info = [], d_table = [], d_kern = k, d_accepts = accepts, d_caughtsignal = 0, d_clock = 0\<rparr>"

lemma startup_ok_weaken: "startup_ok 0 d \<Longrightarrow> startup_ok 16 d"
  by (auto simp: startup_ok_def)

lemma server_socket_ok:
  assumes "startup_ok 16 d" "configureServerSocket env d = Done d'"
  shows "daemon_ok d'"
  using assms
  by (auto simp: configureServerSocket_def append_fd_def Let_def startup_ok_def daemon_ok_def fds_ok_def
      info_ok_def live_def client_fds_def split: if_splits)

lemma initialize_ok:
  assumes "\<forall>c. irq_mask_ok (e_irqen env c)" "initialize env keys (daemon_zero k accepts) = Done (r, d)"
  shows "daemon_ok d"
proof -
  let ?z = "\<lambda>s. (daemon_zero k accepts)\<lparr>d_settings := s\<rparr>"
  have zero: "startup_ok 0 (?z s)" for s by (simp add: startup_ok_def daemon_zero_def)
  have crates: "startup_ok 16 d1" if "configureVmeEndpoints env (?z s) = Done d1" for s d1
    using that configure_crates_ok [OF zero assms(1)]
    by (auto simp: configureVmeEndpoints_def split: if_splits)
  obtain s where "parseArgs (d_settings (daemon_zero k accepts)) keys = Done s"
    and s: "obind (if \<not> noVME s then configureVmeEndpoints env (?z s) else Done (?z s)) (\<lambda>d.
      obind (configureServerSocket env d) (\<lambda>d.
        if e_rtpriority env = - EPERM then Done (0, d)
        else if e_rtpriority env \<noteq> 0 then Done (1, d)
        else Done (0, d))) = Done (r, d)"
    using assms(2) unfolding initialize_def Let_def by (rule obind_Done_elim)
  obtain d1 where d1: "(if \<not> noVME s then configureVmeEndpoints env (?z s) else Done (?z s)) = Done d1"
    and d2: "obind (configureServerSocket env d1) (\<lambda>d.
        if e_rtpriority env = - EPERM then Done (0, d)
        else if e_rtpriority env \<noteq> 0 then Done (1, d)
        else Done (0, d)) = Done (r, d)"
    using s by (rule obind_Done_elim)
  have "configureServerSocket env d1 = Done d"
    using d2 by (auto simp: obind_eq_Done split: if_splits)
  moreover have "startup_ok 16 d1"
    using d1 crates startup_ok_weaken [OF zero] by (cases "noVME s") auto
  ultimately show ?thesis
    using server_socket_ok by simp
qed

end
