(* ===== verification/Irq_Properties.thy ===== *)
theory Irq_Properties
  imports Irq_Daemon_Run
begin

text \<open>
  The properties of the interrupt subsystem: of the vector table, of the wire format and the
  socket calls, and of the dispatch daemon built on them.
\<close>

section \<open>The vector table\<close>

text \<open>Every table the operations can produce from the empty one.\<close>

inductive table_reachable :: "table_t list \<Rightarrow> bool" where
  empty: "table_reachable []"
| register: "table_reachable tab \<Longrightarrow> table_reachable (snd (register_interrupt ralloc tab sd r))"
| release: "table_reachable tab \<Longrightarrow> table_reachable (snd (release_interrupt tab sd r))"
| release_all: "table_reachable tab \<Longrightarrow> table_reachable (snd (release_all_interrupts tab sd))"
| free_all: "table_reachable tab \<Longrightarrow> table_reachable (free_all_interrupts tab)"

lemma reachable_table_ok: "table_reachable tab \<Longrightarrow> table_ok tab"
proof (induction rule: table_reachable.induct)
  case (register tab ralloc sd r)
  obtain ret tab' where reg: "register_interrupt ralloc tab sd r = (ret, tab')" by fastforce
  show ?case
    using register_interrupt_cases(2,3) [OF register.IH reg] register.IH reg by (cases "ret = 0") auto
next
  case (release tab sd r)
  obtain ret tab' where rel: "release_interrupt tab sd r = (ret, tab')" by fastforce
  show ?case
    using release_interrupt_cases(2,3) [OF release.IH rel] release.IH rel by (cases "ret = 0") auto
next
  case (release_all tab sd)
  then show ?case
    using release_all_interrupts_cases(2) [OF release_all.IH] by (metis surjective_pairing)
qed (simp_all add: free_all_interrupts_def)

text \<open>C7: whatever sequence of registrations, releases and disconnects produced the table, it is
  well formed (used slots first, unused slots zeroed, allocated in steps of 32, only legal
  selectors), and every registration in it is effective: an interrupt with exactly the
  registered selector is delivered to the socket that registered it, with its own payload.\<close>

theorem reachable_table_delivers:
  assumes "table_reachable tab"
  shows "table_ok tab \<and>
    (\<forall>e \<in> set (live tab). find_interrupt tab (t_selector e) errno = (t_data e, errno, t_selector e))"
  using reachable_table_ok [OF assms] reg.find_own by blast

definition sel_a :: selector where
  "sel_a = \<lparr>s_crate = 1, s_irq = 4, s_vector = 0x55, s_payload = 9\<rparr>"

definition tab_a :: "table_t list" where
  "tab_a = snd (register_interrupt (\<lambda>n. True) [] 7 sel_a)"

lemma tab_a_eq: "tab_a = \<lparr>t_selector = sel_a, t_data = 7\<rparr> # replicate 31 zero_entry"
proof -
  have "replicate INTERRUPT_VECTOR_INCR zero_entry = zero_entry # replicate 31 zero_entry"
    by (simp add: INTERRUPT_VECTOR_INCR_def numeral_eq_Suc)
  then show ?thesis
    by (simp add: tab_a_def register_interrupt_def sel_a_def ANYIRQ_def locate_interrupt.simps
        foreach_end.simps)
qed

lemma tab_a_ok: "table_ok tab_a" "live tab_a = [\<lparr>t_selector = sel_a, t_data = 7\<rparr>]"
proof -
  have "replicate 31 zero_entry = zero_entry # replicate 30 zero_entry"
    by (simp add: numeral_eq_Suc)
  then show "live tab_a = [\<lparr>t_selector = sel_a, t_data = 7\<rparr>]"
    by (simp add: tab_a_eq live_def)
  show "table_ok tab_a"
    unfolding tab_a_def by (intro reachable_table_ok table_reachable.intros)
qed

theorem reachable_table_delivers_witness:
  "table_reachable tab_a \<and> find_interrupt tab_a sel_a 0 = (7, 0, sel_a)"
proof -
  have "table_reachable tab_a"
    unfolding tab_a_def by (intro table_reachable.intros)
  then show ?thesis
    using reachable_table_delivers [of tab_a 0] tab_a_ok(2) by simp
qed

text \<open>C28: the search through the array returns the owner and the payload of the first
  registration whose crates and interrupts include the request's and whose vector is the
  request's or ANYVECTOR; without one it returns 0, sets errno to EINVAL and leaves the request
  as it was.\<close>

theorem find_interrupt_first_match:
  assumes "table_ok tab"
  shows "find_interrupt tab r errno =
    (case List.find (\<lambda>e. s_crate (t_selector e) AND s_crate r = s_crate r \<and>
        s_irq (t_selector e) AND s_irq r = s_irq r \<and>
        (s_vector (t_selector e) = ANYVECTOR \<or> s_vector (t_selector e) = s_vector r)) (live tab) of
       None \<Rightarrow> (0, EINVAL, r)
     | Some e \<Rightarrow> (t_data e, errno, r\<lparr>s_payload := s_payload (t_selector e)\<rparr>))"
  using find_interrupt_eq [OF assms] unfolding lookup_entry_def sel_match_masks .

theorem find_interrupt_first_match_witness:
  "find_interrupt tab_a (sel_a\<lparr>s_payload := 0\<rparr>) 3 = (7, 3, sel_a) \<and>
   find_interrupt tab_a (sel_a\<lparr>s_irq := 8\<rparr>) 3 = (0, EINVAL, sel_a\<lparr>s_irq := 8\<rparr>)"
  using find_interrupt_first_match [OF tab_a_ok(1)] by (simp add: tab_a_ok(2) sel_a_def)

text \<open>C27: registration answers every request as documented: a zero data word, an empty crate
  mask or an interrupt mask outside lines 1 to 7 is EINVAL; a request an existing registration
  already covers is EADDRINUSE; a full table that cannot grow is ENOMEM; all of these leave the
  table alone. Everything else is appended behind the existing registrations.\<close>

theorem register_interrupt_outcome:
  assumes "table_ok tab" "register_interrupt ralloc tab sd r = (ret, tab')"
  shows "ret =
    (if sd = 0 \<or> s_crate r = 0 \<or> s_irq r = 0 \<or> s_irq r AND NOT 0xFE \<noteq> 0 then - EINVAL
     else if \<exists>e \<in> set (live tab). sel_match (t_selector e) r then - EADDRINUSE
     else if length (live tab) = length tab \<and> \<not> ralloc (length tab + 32) then - ENOMEM
     else 0) \<and>
    (if ret = 0 then table_ok tab' \<and> live tab' = live tab @ [\<lparr>t_selector = r, t_data = sd\<rparr>]
     else tab' = tab)"
proof -
  obtain es k where t: "tab = layout es k" "live tab = es" "\<forall>e \<in> set es. is_live e"
    using assms(1) by (rule table_ok_cases)
  have fe: "foreach_end tab 0 = length es"
    using foreach_end_layout [OF t(3), of 0 k] t(1) by simp
  have loc: "locate_interrupt tab r 0 = None \<longleftrightarrow> lookup_entry es r = None"
    using locate_layout [OF t(3), where k = k and r = r and i = 0] t(1) by (auto split: option.splits)
  have look: "lookup_entry es r = None \<longleftrightarrow> \<not> (\<exists>e \<in> set es. sel_match (t_selector e) r)"
    by (auto simp: lookup_entry_def find_None_iff)
  have "ret =
    (if sd = 0 \<or> s_crate r = 0 \<or> s_irq r = 0 \<or> s_irq r AND NOT 0xFE \<noteq> 0 then - EINVAL
     else if \<exists>e \<in> set es. sel_match (t_selector e) r then - EADDRINUSE
     else if length es = length tab \<and> \<not> ralloc (length tab + 32) then - ENOMEM
     else 0)"
    using assms(2)
    by (simp add: register_interrupt_def loc look fe ANYIRQ_def INTERRUPT_VECTOR_INCR_def Let_def split: if_splits)
  then show ?thesis
    using register_interrupt_cases(2,3) [OF assms] t(2) by auto
qed

theorem register_interrupt_outcome_witness:
  "table_ok tab_a \<and> fst (register_interrupt (\<lambda>n. True) tab_a 8 sel_a) = - EADDRINUSE \<and>
   fst (register_interrupt (\<lambda>n. True) tab_a 8 (sel_a\<lparr>s_irq := 2\<rparr>)) = 0"
  using register_interrupt_outcome [OF tab_a_ok(1) surjective_pairing, of "\<lambda>n. True" 8 sel_a]
    register_interrupt_outcome [OF tab_a_ok(1) surjective_pairing, of "\<lambda>n. True" 8 "sel_a\<lparr>s_irq := 2\<rparr>"]
  by (simp add: tab_a_ok sel_match_masks) (simp add: sel_a_def)

text \<open>A successful registration can be found at once under its own selector, and it takes
  nothing from the others: every request that had a recipient before keeps that recipient.\<close>

theorem register_then_find:
  assumes "table_ok tab" "register_interrupt ralloc tab sd r = (0, tab')"
  shows "find_interrupt tab' r errno = (sd, errno, r) \<and>
    (\<forall>q. fst (find_interrupt tab q errno) \<noteq> 0 \<longrightarrow> find_interrupt tab' q errno = find_interrupt tab q errno)"
proof (intro conjI allI impI)
  show "find_interrupt tab' r errno = (sd, errno, r)"
    using assms by (rule reg.find_registered)
  fix q assume "fst (find_interrupt tab q errno) \<noteq> 0"
  then have "lookup_entry (live tab) q \<noteq> None"
    using find_interrupt_eq [OF assms(1), of q errno] by (cases "lookup_entry (live tab) q") simp_all
  with assms show "find_interrupt tab' q errno = find_interrupt tab q errno"
    by (rule reg.find_stable)
qed

theorem register_then_find_witness:
  "fst (find_interrupt (snd (register_interrupt (\<lambda>n. True) tab_a 8 (sel_a\<lparr>s_irq := 2\<rparr>))) sel_a 0) = 7"
proof -
  have "fst (register_interrupt (\<lambda>n. True) tab_a 8 (sel_a\<lparr>s_irq := 2\<rparr>)) = 0"
    using register_interrupt_cases(1) [OF tab_a_ok(1) surjective_pairing]
    by (simp add: tab_a_ok lookup_entry_def sel_match_masks)
      (simp add: tab_a_eq sel_a_def selector_legal_def ANYIRQ_def)
  then have "register_interrupt (\<lambda>n. True) tab_a 8 (sel_a\<lparr>s_irq := 2\<rparr>) =
      (0, snd (register_interrupt (\<lambda>n. True) tab_a 8 (sel_a\<lparr>s_irq := 2\<rparr>)))"
    by (metis prod.collapse)
  from register_then_find [OF tab_a_ok(1) this, of 0] show ?thesis
    using find_interrupt_eq [OF tab_a_ok(1), of sel_a 0] by (simp add: tab_a_ok lookup_entry_def)
qed

text \<open>A release succeeds exactly for the registration with the same crates, interrupts and
  vector made through the same socket; it removes that registration and keeps every other one, in
  its order. A release by a socket that does not own the registration is refused.\<close>

theorem release_interrupt_exact:
  assumes "table_ok tab" "release_interrupt tab sd r = (ret, tab')"
  shows "(if \<exists>e \<in> set (live tab). hasheq (t_selector e) r \<and> t_data e = sd
     then ret = 0 \<and> table_ok tab' \<and> live tab' = filter (\<lambda>e. \<not> hasheq (t_selector e) r) (live tab)
     else ret = - EINVAL \<and> tab' = tab)"
  using release_interrupt_cases [OF assms] by (cases "ret = 0") auto

theorem release_interrupt_exact_witness:
  "fst (release_interrupt tab_a 7 sel_a) = 0 \<and> fst (release_interrupt tab_a 8 sel_a) = - EINVAL"
  using release_interrupt_exact [OF tab_a_ok(1) surjective_pairing, where sd = 7 and r = sel_a]
    release_interrupt_exact [OF tab_a_ok(1) surjective_pairing, where sd = 8 and r = sel_a]
  by (simp add: tab_a_ok hasheq_def)

text \<open>When a client goes away all of its registrations go, wherever they stand in the array:
  no request finds its socket again; the recipients of other clients' interrupts do not change.\<close>

theorem release_all_complete:
  assumes "table_ok tab" "release_all_interrupts tab sd = (ret, tab')" "sd \<noteq> 0"
  shows "ret = 0 \<and> table_ok tab' \<and> live tab' = filter (\<lambda>e. t_data e \<noteq> sd) (live tab) \<and>
    (\<forall>r errno. fst (find_interrupt tab' r errno) \<noteq> sd \<and>
      (fst (find_interrupt tab r errno) \<noteq> 0 \<longrightarrow> fst (find_interrupt tab r errno) \<noteq> sd \<longrightarrow>
        find_interrupt tab' r errno = find_interrupt tab r errno))"
proof -
  have "find_interrupt tab' r errno = find_interrupt tab r errno"
    if "fst (find_interrupt tab r errno) \<noteq> 0" "fst (find_interrupt tab r errno) \<noteq> sd" for r errno
  proof (cases "find_interrupt tab r errno")
    case (fields a b c)
    then show ?thesis
      using reg.find_kept_by_release_all [OF assms(1,2) fields] that by simp
  qed
  then show ?thesis
    using release_all_interrupts_cases [OF assms(1,2)] reg.find_after_release_all [OF assms] by blast
qed

theorem release_all_complete_witness:
  "fst (find_interrupt (snd (release_all_interrupts tab_a 7)) sel_a 0) \<noteq> 7"
  using release_all_complete [OF tab_a_ok(1) surjective_pairing, of 7] by simp

text \<open>The enable masks computed from the table are exact for each of the sixteen crates: the
  bit of a line is set when some registration names the crate and the line, and the 8-bit store
  loses nothing.\<close>

theorem list_registered_exact:
  assumes "table_ok tab" "c < 16"
  shows "length (list_registered_interrupts tab) = 16 \<and>
    (\<forall>n. bit (list_registered_interrupts tab ! c) n \<longleftrightarrow>
      (\<exists>e \<in> set (live tab). bit (s_crate (t_selector e)) c \<and> bit (s_irq (t_selector e)) n))"
  using list_registered_cases [OF assms(1)] assms(2) by blast

theorem list_registered_exact_witness:
  "bit (list_registered_interrupts tab_a ! 0) 2 \<and> \<not> bit (list_registered_interrupts tab_a ! 1) 2"
  using list_registered_exact [OF tab_a_ok(1), of 0] list_registered_exact [OF tab_a_ok(1), of 1]
  by (simp add: tab_a_ok sel_a_def bit_1_iff)

section \<open>Messages and sockets\<close>

text \<open>The message layout is a faithful encoding: what is stored in a message of full size is
  read back unchanged, and storing one part keeps the parts it does not overlap.\<close>

theorem message_roundtrip:
  assumes "length b = RB_SIZE"
  shows "rb_msg (rb_set_selector (rb_set_msg b m) s) = m \<and>
    rb_selector (rb_set_selector (rb_set_msg b m) s) = s \<and>
    rb_msg (rb_set_status (rb_set_msg b m) t) = m \<and>
    rb_status (rb_set_status (rb_set_msg b m) t) = t \<and>
    length (rb_set_status (rb_set_selector (rb_set_msg b m) s) t) = RB_SIZE"
  using msg_sel.get_both [OF assms, of m s] msg_stat.get_both [OF assms, of m t] assms by (simp only: length_rb_set)

theorem message_roundtrip_witness:
  "rb_selector (rb_set_selector (rb_set_msg (replicate RB_SIZE 0) ACK) sel_a) = sel_a"
  using message_roundtrip [of "replicate RB_SIZE 0" ACK sel_a] by simp

text \<open>\<open>v120irqd_ilog2f\<close> is the integer logarithm: for a nonzero word the exponent of the
  highest set bit, and -1 for zero.\<close>

theorem ilog2f_floor_log:
  "if x = 0 then v120irqd_ilog2f x = - 1
   else \<exists>r < 32. v120irqd_ilog2f x = int r \<and> 2 ^ r \<le> unat x \<and> unat x < 2 ^ Suc r"
proof (cases "x = 0")
  case True
  then show ?thesis by (simp add: v120irqd_ilog2f_def)
next
  case False
  then obtain r where r: "v120irqd_ilog2f x = int r" "highest_bit x r"
    using ilog2f_highest_bit by blast
  then have "r < 32"
    using bit_imp_le_length [of x r] by (simp add: highest_bit_def)
  then show ?thesis
    using False r highest_bit_bounds [OF r(2)] by auto
qed

text \<open>A client and a server given the same socket name (or both the default) use the same
  address; an abstract name (a leading \<open>@\<close>) is never looked up in the file system, so nothing
  is unlinked and nothing is remembered for the clean-up, and a call that returns a descriptor
  has closed none.\<close>

theorem client_server_meet:
  "sr_addr (v120irqd_client env name) = sr_addr (v120irqd_server env' sl name) \<and>
   (hd (strncpy_buf UNIX_PATH_MAX (case name of None \<Rightarrow> DEFAULTSOCKET | Some n \<Rightarrow> n)) = CHR ''@'' \<longrightarrow>
     sr_unlinked (v120irqd_server env' sl name) = [] \<and>
     sr_socket_list (v120irqd_server env' sl name) = sl) \<and>
   (sr_fd (v120irqd_server env' sl name) \<noteq> - 1 \<longrightarrow> sr_closed (v120irqd_server env' sl name) = [])"
  by (auto simp: v120irqd_client_def v120irqd_server_def Let_def)

theorem client_server_meet_witness:
  "sr_unlinked (v120irqd_server \<lparr>se_unlink = 0, se_malloc = True, se_socket = 5, se_bind_fails = False,
     se_listen_fails = False, se_connect_fails = False\<rparr> [] None) = []"
  using client_server_meet [of undefined None] by (simp add: strncpy_buf_def UNIX_PATH_MAX_def DEFAULTSOCKET_def)

end
