(* ===== verification/Irq_Daemon_Props.thy ===== *)
theory Irq_Daemon_Props
  imports Irq_Properties
begin

text \<open>The properties of the dispatch daemon, from a single handler to complete runs.\<close>

section \<open>Facts on one exchange of messages\<close>

lemma ack_ok:
  assumes "k_wr k sock = []"
  shows "v120irqd_ack junk k sock = (0, k\<lparr>k_out := k_out k @ [(sock, rb_set_msg junk ACK)]\<rparr>)"
    and "v120irqd_nak junk k sock = (0, k\<lparr>k_out := k_out k @ [(sock, rb_set_msg junk NAK)]\<rparr>)"
  using assms by (simp_all add: v120irqd_ack_def v120irqd_nak_def msg_respond_def msg_send_ok)

lemma interrupt_acked:
  assumes "k_wr k sock = []" "k_in k sock = RecvMsg a # rs" "length a = RB_SIZE" "rb_msg a = ACK"
    "length junk = RB_SIZE"
  shows "v120irqd_interrupt junk k sock sel =
    Done (0, k\<lparr>k_out := k_out k @ [(sock, rb_set_selector (rb_set_msg junk IRQ_SIGNAL) sel)],
               k_in := (k_in k)(sock := rs)\<rparr>)"
proof -
  have "v120_irqd_msg_recv (k\<lparr>k_out := out\<rparr>) sock (rb_set_selector (rb_set_msg junk IRQ_SIGNAL) sel) =
      Done (int RB_SIZE, a, k\<lparr>k_out := out, k_in := (k_in k)(sock := rs)\<rparr>)" for out
    using recv_full_message [of "k\<lparr>k_out := out\<rparr>" sock a rs] assms by simp
  then show ?thesis
    using assms(1,4,5)
    by (simp add: v120irqd_interrupt_def msg_send_ok RB_SIZE_def message_defs)
qed

lemma getinterrupt_frame:
  assumes "k_in k sock = RecvMsg g # rs" "length g = RB_SIZE" "length junk = RB_SIZE" "rb_msg g = IRQ_SIGNAL"
  shows "v120irqd_getinterrupt junk k sock s = Done (0, rb_selector g, k\<lparr>k_in := (k_in k)(sock := rs)\<rparr>)"
  using recv_full_message [OF assms(1-3)] assms(4)
  by (simp add: v120irqd_getinterrupt_def RB_SIZE_def)

section \<open>The interrupt side\<close>

text \<open>C30: when the handler of a crate's interrupts returns, nothing that is still enabled was
  pending at its last look at the status register; it has changed nothing but the sockets and
  its own crate's enable register, in which it only cleared bits.\<close>

theorem process_vme_serves_all:
  assumes "daemon_ok d" "idx < d_len_crates d" "process_vme fuel env idx d = Done d'"
  shows "e_status env (d_clock d' - 1) AND vi_irqen (d_info d' ! idx) = 0 \<and>
    (\<forall>n. bit (vi_irqen (d_info d' ! idx)) n \<longrightarrow> bit (vi_irqen (d_info d ! idx)) n) \<and>
    (\<forall>i < length (d_info d). i \<noteq> idx \<longrightarrow> d_info d' ! i = d_info d ! i) \<and>
    d_table d' = d_table d \<and> d_fds d' = d_fds d"
proof -
  have idx: "idx < length (d_info d)" and mask: "irq_mask_ok (vi_irqen (d_info d ! idx))"
    using assms(1,2) by (auto simp: daemon_ok_def fds_ok_def info_ok_def)
  have "e_status env (d_clock d' - 1) AND vi_irqen (d_info d' ! idx) = 0" "vme_frame idx d d'"
    using vme_loop_frame [OF assms(3) [unfolded process_vme_def] mask idx refl] by simp_all
  then show ?thesis
    using idx by (auto simp: vme_frame_def)
qed

definition env_a :: env where
  "env_a = \<lparr>e_status = (\<lambda>n. if n = 0 then 4 else 0), e_vector = (\<lambda>n. 0x55), e_pid = 1,
     e_realloc = (\<lambda>n. True), e_fdalloc = (\<lambda>n. True), e_junk = replicate RB_SIZE 0, e_newrev = 0,
     e_beyond = \<lparr>p_fd = 0, p_events = 0, p_revents = 0\<rparr>, e_open = (\<lambda>n. True), e_irq_open = (\<lambda>n. 3),
     e_irqen = (\<lambda>n. 4),
     e_sock = \<lparr>se_unlink = 0, se_malloc = True, se_socket = 5, se_bind_fails = False,
       se_listen_fails = False, se_connect_fails = False\<rparr>, e_rtpriority = 0\<rparr>"

definition ack_frame :: bytes where
  "ack_frame = rb_set_msg (replicate RB_SIZE 0) ACK"

text \<open>One crate (number 0) with line 2 enabled, and one client on socket 7 that takes it.\<close>

definition daemon_a :: daemon where
  "daemon_a = \<lparr>d_fds = [\<lparr>p_fd = 3, p_events = 1, p_revents = 1\<rparr>, \<lparr>p_fd = 5, p_events = 1, p_revents = 0\<rparr>,
       \<lparr>p_fd = 7, p_events = 1, p_revents = 0\<rparr>], d_len_crates = 1, d_len_pollfds = 3,
     d_settings = \<lparr>allowFakeIrq = False, debugMode = False, noDaemon = False, noVME = False\<rparr>,
     d_info = [\<lparr>vi_cratenumber = 0, vi_irqen = 4\<rparr>], d_table = tab_a,
     d_kern = \<lparr>k_in = (\<lambda>s. [RecvMsg ack_frame]), k_wr = (\<lambda>s. []), k_out = [], k_closed = []\<rparr>,
     d_accepts = [], d_caughtsignal = 0, d_clock = 0\<rparr>"

lemma daemon_a_ok: "daemon_ok daemon_a"
proof -
  have "irq_mask_ok 4" by (simp add: irq_mask_ok_def)
  then show ?thesis
    by (simp add: daemon_ok_def fds_ok_def info_ok_def client_fds_def daemon_a_def tab_a_ok)
qed

theorem process_vme_serves_all_witness:
  "process_vme 1 (env_a\<lparr>e_status := \<lambda>n. 8\<rparr>) 0 daemon_a = Done (tick daemon_a) \<and>
   8 AND vi_irqen (d_info (tick daemon_a) ! 0) = 0"
proof -
  have run: "process_vme 1 (env_a\<lparr>e_status := \<lambda>n. 8\<rparr>) 0 daemon_a = Done (tick daemon_a)"
    by (simp add: process_vme_def vme_loop.simps daemon_a_def)
  then show ?thesis
    using process_vme_serves_all [OF daemon_a_ok _ run] by (simp add: daemon_a_def)
qed

text \<open>C6: an enabled line that is pending is dispatched highest line first: the client that owns
  the first matching registration gets one IRQ_SIGNAL message, and what its
  \<open>v120irqd_getinterrupt\<close> returns is the crate, the line, the vector read from the crate and
  the payload the client registered. If the client acknowledges and the line is released, the
  handler ends with the line still enabled.\<close>

theorem vme_delivers_highest:
  assumes "daemon_ok d" "idx < d_len_crates d"
    and "bit (e_status env (d_clock d)) irq" "bit (vi_irqen (d_info d ! idx)) irq"
    and "\<forall>j. irq < j \<and> j \<le> 7 \<longrightarrow> \<not> (bit (e_status env (d_clock d)) j \<and> bit (vi_irqen (d_info d ! idx)) j)"
    and "sel = \<lparr>s_crate = push_bit (vi_cratenumber (d_info d ! idx)) 1, s_irq = push_bit irq 1,
      s_vector = e_vector env (d_clock d + 1), s_payload = 0\<rparr>"
    and "lookup_entry (live (d_table d)) sel = Some e"
    and "k_wr (d_kern d) (t_data e) = []" "k_in (d_kern d) (t_data e) = RecvMsg a # rs"
    and "length a = RB_SIZE" "rb_msg a = ACK" "length (e_junk env) = RB_SIZE"
    and "e_status env (d_clock d + 2) AND vi_irqen (d_info d ! idx) = 0"
  shows "\<exists>d' g. process_vme (Suc (Suc fuel)) env idx d = Done d' \<and>
    k_out (d_kern d') = k_out (d_kern d) @ [(t_data e, g)] \<and> d_info d' = d_info d \<and>
    (\<forall>junk k sock s gs. length junk = RB_SIZE \<longrightarrow> k_in k sock = RecvMsg g # gs \<longrightarrow>
      v120irqd_getinterrupt junk k sock s =
        Done (0, sel\<lparr>s_payload := s_payload (t_selector e)\<rparr>, k\<lparr>k_in := (k_in k)(sock := gs)\<rparr>))"
proof -
  let ?m = "vi_irqen (d_info d ! idx)"
  have idx: "idx < length (d_info d)" and mask: "irq_mask_ok ?m"
    and tab: "table_ok (d_table d)"
    using assms(1,2) by (auto simp: daemon_ok_def fds_ok_def info_ok_def)
  have live: "t_data e \<noteq> 0"
    using assms(7) tab find_in_set [of _ "live (d_table d)" e] live_is_live unfolding lookup_entry_def by blast
  have pend: "e_status env (d_clock d) AND ?m \<noteq> 0"
    using assms(3,4) by (auto simp: and_eq_0_iff)
  obtain i where i: "i \<le> 7" "bit (e_status env (d_clock d)) i" "bit ?m i"
    "\<forall>j. i < j \<and> j \<le> 7 \<longrightarrow> \<not> (bit (e_status env (d_clock d)) j \<and> bit ?m j)"
    and loop: "vme_loop (Suc (Suc fuel)) env idx ?m d =
       obind (notify_irq env (tick (tick d)) (pending_selector env idx i (tick d)))
         (\<lambda>r. vme_loop (Suc fuel) env idx (fst (vme_next env idx i ?m r)) (snd (vme_next env idx i ?m r)))"
    by (rule vme_loop_pending [OF mask pend])
  have "irq \<le> 7" using mask assms(4) by (simp add: irq_mask_ok_bits)
  then have "i = irq"
    using i assms(3,4,5) by (meson linorder_neqE_nat)
  then have psel: "pending_selector env idx i (tick d) = sel"
    using assms(6) by (simp add: pending_selector_def tick_def)
  define g where "g = rb_set_selector (rb_set_msg (e_junk env) IRQ_SIGNAL) (sel\<lparr>s_payload := s_payload (t_selector e)\<rparr>)"
  have g: "length g = RB_SIZE" "rb_msg g = IRQ_SIGNAL"
    "rb_selector g = sel\<lparr>s_payload := s_payload (t_selector e)\<rparr>"
    using assms(12) by (simp_all add: g_def)
  define d1 where "d1 = (tick (tick d))\<lparr>d_kern := (d_kern d)\<lparr>k_out := k_out (d_kern d) @ [(t_data e, g)],
      k_in := (k_in (d_kern d))(t_data e := rs)\<rparr>\<rparr>"
  have "notify_irq env (tick (tick d)) sel = Done (0, d1)"
    using tab live assms(7) interrupt_acked [OF assms(8-12)]
    by (simp add: notify_irq_def find_interrupt_eq tick_def d1_def g_def)
  moreover have "vme_loop (Suc fuel) env idx ?m d1 = Done (tick d1)"
    using assms(13) by (intro vme_loop_quiet) (simp add: d1_def tick_def)
  ultimately have "process_vme (Suc (Suc fuel)) env idx d = Done (tick d1)"
    by (simp add: process_vme_def loop psel vme_next_def)
  moreover have "k_out (d_kern (tick d1)) = k_out (d_kern d) @ [(t_data e, g)]" "d_info (tick d1) = d_info d"
    by (simp_all add: d1_def tick_def)
  ultimately show ?thesis
    using g getinterrupt_frame by metis
qed

theorem vme_delivers_highest_witness:
  "\<exists>d' g. process_vme 2 env_a 0 daemon_a = Done d' \<and> k_out (d_kern d') = [(7, g)] \<and>
    v120irqd_getinterrupt ack_frame ((d_kern daemon_a)\<lparr>k_in := (\<lambda>s. [RecvMsg g])\<rparr>) 4 sel_a =
      Done (0, sel_a, (d_kern daemon_a)\<lparr>k_in := (\<lambda>s. [RecvMsg g])(4 := [])\<rparr>)"
proof -
  have "lookup_entry (live (d_table daemon_a)) (sel_a\<lparr>s_payload := 0\<rparr>) = Some \<lparr>t_selector = sel_a, t_data = 7\<rparr>"
    by (simp add: daemon_a_def tab_a_ok lookup_entry_def)
  moreover have "bit (4 :: u32) 2"
    by (simp add: bit_iff_odd)
  moreover have "\<not> bit (4 :: u32) j" if "2 < j" for j
    using that bit_exp_iff [where ?'a = "32 word", of 2 j] by simp
  ultimately show ?thesis
    using vme_delivers_highest [OF daemon_a_ok, of 0 env_a 2 "sel_a\<lparr>s_payload := 0\<rparr>"
        "\<lparr>t_selector = sel_a, t_data = 7\<rparr>" ack_frame "[]" 0]
    by (force simp: daemon_a_def env_a_def sel_a_def ack_frame_def numeral_2_eq_2)
qed



section \<open>The client side\<close>

lemma process_client_message:
  assumes "k_in (d_kern d) (p_fd (d_fds d ! idx)) = RecvMsg f # rs" "length f = RB_SIZE"
    "length (e_junk env) = RB_SIZE"
  shows "process_client env idx d =
    (let sock = p_fd (d_fds d ! idx);
         d = d\<lparr>d_kern := (d_kern d)\<lparr>k_in := (k_in (d_kern d))(sock := rs)\<rparr>\<rparr> in
     if rb_msg f = REQUEST_IRQ then handle_request env sock f d
     else if rb_msg f = RELEASE_IRQ then handle_release env sock f d
     else if rb_msg f = IRQ_SIGNAL then handle_fake env sock f d
     else if rb_msg f = SERVER_STATUS then handle_status env sock f d
     else Done d)"
  using recv_full_message [OF assms] by (simp add: process_client_def Let_def RB_SIZE_def)

text \<open>C5: the request protocol, both ends together: for the message a client's
  \<open>v120irqd_request\<close> sends, the server answers with one message to the same socket, on which the
  client's call returns 0 when the registration was accepted and -EPERM when the table refused it.
  When it was accepted, the table delivers the selector to this client, and the requested lines
  are enabled on every crate of the daemon.\<close>

theorem request_protocol:
  assumes "daemon_ok d" "sock = p_fd (d_fds d ! idx)"
    and "request = rb_set_selector (rb_set_msg junk REQUEST_IRQ) sel"
    and "k_in (d_kern d) sock = RecvMsg request # rs" "k_wr (d_kern d) sock = []"
    and "length junk = RB_SIZE" "length (e_junk env) = RB_SIZE"
    and "register_interrupt (e_realloc env) (d_table d) sock sel = (ret, tab)"
  shows "\<exists>d' g. process_client env idx d = Done d' \<and> d_table d' = tab \<and>
    k_out (d_kern d') = k_out (d_kern d) @ [(sock, g)] \<and>
    (\<forall>k cs gs. k_wr k cs = [] \<longrightarrow> k_in k cs = RecvMsg g # gs \<longrightarrow>
      v120irqd_request junk k cs sel =
        Done (if ret = 0 then 0 else - EPERM,
              k\<lparr>k_out := k_out k @ [(cs, request)], k_in := (k_in k)(cs := gs)\<rparr>)) \<and>
    (ret = 0 \<longrightarrow> find_interrupt (d_table d') sel 0 = (sock, 0, sel) \<and>
      (\<forall>i \<in> set (d_info d'). \<forall>n. bit (s_irq sel) n \<longrightarrow> bit (vi_irqen i) n))"
proof -
  have tab: "table_ok (d_table d)" and crates: "\<forall>i \<in> set (d_info d). vi_cratenumber i < 16"
    using assms(1) by (auto simp: daemon_ok_def info_ok_def)
  have req: "length request = RB_SIZE" "rb_msg request = REQUEST_IRQ" "rb_selector request = sel"
    using assms(6) by (simp_all add: assms(3))
  define g where "g = rb_set_msg (e_junk env) (if ret = 0 then ACK else NAK)"
  have g: "length g = RB_SIZE" "rb_msg g = (if ret = 0 then ACK else NAK)"
    using assms(7) by (simp_all add: g_def)
  have neg: "ret \<noteq> 0 \<Longrightarrow> ret < 0"
    using register_interrupt_cases(2) [OF tab assms(8)] by simp
  define d1 where "d1 = d\<lparr>d_table := tab, d_kern := (d_kern d)\<lparr>k_in := (k_in (d_kern d))(sock := rs),
      k_out := k_out (d_kern d) @ [(sock, g)]\<rparr>\<rparr>"
  define d' where "d' = (if ret = 0 then enable_interrupts d1 sel else d1)"
  have "process_client env idx d = handle_request env sock request
      (d\<lparr>d_kern := (d_kern d)\<lparr>k_in := (k_in (d_kern d))(sock := rs)\<rparr>\<rparr>)"
    using process_client_message [of d idx request rs env] req assms(2,4,7) by (simp add: Let_def)
  also have "\<dots> = Done d'"
    using assms(5,8) neg req(3)
    by (cases "ret = 0") (auto simp: handle_request_def with_kern_def ack_ok d'_def d1_def g_def)
  finally have run: "process_client env idx d = Done d'" .
  have "\<forall>i \<in> set (d_info d'). \<forall>n. bit (s_irq sel) n \<longrightarrow> bit (vi_irqen i) n" if "ret = 0"
  proof -
    have "selector_legal sel"
      using that register_interrupt_cases(1) [OF tab assms(8)] by simp
    then have "s_crate sel \<noteq> 0" by (simp add: selector_legal_def)
    moreover have "(push_bit (vi_cratenumber i) 1 :: u32) \<noteq> 0" if "i \<in> set (d_info d)" for i
      using crates that by (force simp: word_neq_0_bit bit_simps)
    ultimately show ?thesis
      using that bit_imp_le_length [of "s_irq sel"]
      by (fastforce simp: d'_def d1_def enable_interrupts_def bit_or_iff bit_ucast_iff)
  qed
  moreover have "ret = 0 \<Longrightarrow> find_interrupt tab sel 0 = (sock, 0, sel)"
    using reg.find_registered [OF tab] assms(8) by simp
  moreover have "d_table d' = tab" "k_out (d_kern d') = k_out (d_kern d) @ [(sock, g)]"
    by (simp_all add: d'_def d1_def enable_interrupts_def)
  moreover have "v120irqd_request junk k cs sel =
        Done (if ret = 0 then 0 else - EPERM,
              k\<lparr>k_out := k_out k @ [(cs, request)], k_in := (k_in k)(cs := gs)\<rparr>)"
    if "k_wr k cs = []" "k_in k cs = RecvMsg g # gs" for k cs gs
    using that g req(1) recv_full_message [of "k\<lparr>k_out := k_out k @ [(cs, request)]\<rparr>" cs g gs request]
    using assms(3)
    by (cases "ret = 0") (simp_all add: v120irqd_request_def msg_send_ok message_defs RB_SIZE_def Let_def)
  ultimately show ?thesis
    using run by blast
qed

text \<open>A daemon like \<open>daemon_a\<close> whose client sends the given messages.\<close>

definition daemon_with :: "bytes list \<Rightarrow> daemon" where
  "daemon_with fs = daemon_a\<lparr>d_kern := (d_kern daemon_a)\<lparr>k_in := (\<lambda>s. map RecvMsg fs)\<rparr>\<rparr>"

lemma daemon_with_ok: "daemon_ok (daemon_with fs)"
  using daemon_a_ok by (simp add: daemon_with_def)

lemma daemon_with_simps [simp]:
  "d_table (daemon_with fs) = tab_a" "p_fd (d_fds (daemon_with fs) ! 2) = 7"
  "d_len_crates (daemon_with fs) = 1" "d_len_pollfds (daemon_with fs) = 3"
  "k_in (d_kern (daemon_with fs)) = (\<lambda>s. map RecvMsg fs)" "k_wr (d_kern (daemon_with fs)) = (\<lambda>s. [])"
  "k_out (d_kern (daemon_with fs)) = []" "k_closed (d_kern (daemon_with fs)) = []"
  by (simp_all add: daemon_with_def daemon_a_def)

lemma env_a_simps [simp]:
  "e_realloc env_a = (\<lambda>n. True)" "e_fdalloc env_a = (\<lambda>n. True)" "e_junk env_a = replicate RB_SIZE 0"
  "e_pid env_a = 1" "e_rtpriority env_a = 0"
  by (simp_all add: env_a_def)

definition request_a :: bytes where
  "request_a = rb_set_selector (rb_set_msg (replicate RB_SIZE 0) REQUEST_IRQ) sel_a"

theorem request_protocol_witness:
  "\<exists>d' g. process_client env_a 2 (daemon_with [request_a]) = Done d' \<and> k_out (d_kern d') = [(7, g)] \<and>
    (\<exists>k'. v120irqd_request (replicate RB_SIZE 0) (d_kern (daemon_with [g])) 4 sel_a = Done (- EPERM, k'))"
proof -
  have "register_interrupt (\<lambda>n. True) tab_a 7 sel_a =
      (- EADDRINUSE, snd (register_interrupt (\<lambda>n. True) tab_a 7 sel_a))"
    by (simp add: register_interrupt_def tab_a_eq locate_interrupt.simps sel_a_def ANYIRQ_def hashmatch_def)
  then have reg: "register_interrupt (e_realloc env_a) (d_table (daemon_with [request_a])) 7 sel_a =
      (- EADDRINUSE, snd (register_interrupt (\<lambda>n. True) tab_a 7 sel_a))"
    by simp
  obtain d' g where "process_client env_a 2 (daemon_with [request_a]) = Done d'"
    "k_out (d_kern d') = [(7, g)]"
    and client: "\<forall>k cs gs. k_wr k cs = [] \<longrightarrow> k_in k cs = RecvMsg g # gs \<longrightarrow>
      v120irqd_request (replicate RB_SIZE 0) k cs sel_a = Done (- EPERM,
        k\<lparr>k_out := k_out k @ [(cs, request_a)], k_in := (k_in k)(cs := gs)\<rparr>)"
    using request_protocol [OF daemon_with_ok _ request_a_def _ _ _ _ reg, where idx = 2 and rs = "[]"]
    by auto
  then show ?thesis
    using client [rule_format, of "d_kern (daemon_with [g])" 4 "[]"] by auto
qed

text \<open>C26: when a client shuts its connection down, the daemon forgets it completely: its poll slot
  is gone and the others keep their order, its socket is closed, no interrupt is delivered to it
  any more, and on every crate exactly the lines that remaining registrations ask for are enabled.\<close>

theorem disconnect_forgets_client:
  assumes "daemon_ok d" "d_len_crates d < idx" "idx < d_len_pollfds d"
    and "sock = p_fd (d_fds d ! idx)" "sock \<noteq> 0" "k_in (d_kern d) sock = RecvMsg [] # rs"
  shows "\<exists>d'. process_client env idx d = Done d' \<and>
    d_fds d' = take idx (d_fds d) @ drop (Suc idx) (d_fds d) \<and>
    k_closed (d_kern d') = k_closed (d_kern d) @ [sock] \<and> k_out (d_kern d') = k_out (d_kern d) \<and>
    (\<forall>r. fst (find_interrupt (d_table d') r 0) \<noteq> sock) \<and>
    (\<forall>i \<in> set (d_info d'). \<forall>n. bit (vi_irqen i) n \<longleftrightarrow>
      (\<exists>e \<in> set (live (d_table d')). bit (s_crate (t_selector e)) (vi_cratenumber i) \<and> bit (s_irq (t_selector e)) n))"
proof -
  let ?k = "(d_kern d)\<lparr>k_in := (k_in (d_kern d))(sock := rs)\<rparr>"
  let ?d = "d\<lparr>d_kern := ?k\<rparr>"
  have tab: "table_ok (d_table d)" and crates: "\<forall>i \<in> set (d_info d). vi_cratenumber i < 16"
    and fds: "fds_ok ?d"
    using assms(1) by (auto simp: daemon_ok_def info_ok_def fds_ok_def)
  obtain ret tab' where rel: "release_all_interrupts (d_table d) sock = (ret, tab')" by fastforce
  note all = release_all_interrupts_cases [OF tab rel]
  define d1 where "d1 = ?d\<lparr>d_fds := take idx (d_fds d) @ drop (Suc idx) (d_fds d),
      d_len_pollfds := d_len_pollfds d - 1, d_table := tab'\<rparr>"
  define d' where "d' = (disable_unused_interrupts d1)\<lparr>d_kern := sys_close ?k sock\<rparr>"
  have "v120_irqd_msg_recv (d_kern d) sock (e_junk env) = Done (0, e_junk env, ?k)"
    using assms(6) by (simp add: v120_irqd_msg_recv_def sys_read_def poke_def)
  then have "process_client env idx d = drop_client env idx sock ?d"
    using assms(4) by (simp add: process_client_def Let_def)
  also have "\<dots> = Done d'"
    using drop_client_Done [OF fds, of idx env sock] assms(2,3) rel by (simp add: d'_def d1_def)
  finally have "process_client env idx d = Done d'" .
  moreover have "bit (vi_irqen i) n \<longleftrightarrow>
      (\<exists>e \<in> set (live (d_table d')). bit (s_crate (t_selector e)) (vi_cratenumber i) \<and> bit (s_irq (t_selector e)) n)"
    if i: "i \<in> set (d_info d')" for i n
  proof -
    obtain j where j: "j \<in> set (d_info d)" "i = j\<lparr>vi_irqen := ucast (list_registered_interrupts tab' ! vi_cratenumber j)\<rparr>"
      using i by (auto simp: d'_def d1_def disable_unused_interrupts_def Let_def)
    then have "bit (vi_irqen i) n \<longleftrightarrow> bit (list_registered_interrupts tab' ! vi_cratenumber j) n"
      using bit_imp_le_length [of "list_registered_interrupts tab' ! vi_cratenumber j" n]
      by (auto simp: bit_ucast_iff)
    then show ?thesis
      using list_registered_cases(2) [OF all(2)] crates j
      by (simp add: d'_def d1_def disable_unused_interrupts_def Let_def)
  qed
  moreover have "fst (find_interrupt (d_table d') r 0) \<noteq> sock" for r
    using reg.find_after_release_all [OF tab rel assms(5)]
    by (simp add: d'_def d1_def disable_unused_interrupts_def Let_def)
  ultimately show ?thesis
    by (intro exI [of _ d']) (simp add: d'_def d1_def disable_unused_interrupts_def Let_def sys_close_def)
qed

theorem disconnect_forgets_client_witness:
  "\<exists>d'. process_client env_a 2 (daemon_with [[]]) = Done d' \<and> k_closed (d_kern d') = [7] \<and>
    fst (find_interrupt (d_table d') sel_a 0) \<noteq> 7"
  using disconnect_forgets_client [OF daemon_with_ok, of "[[]]" 2 7 "[]" env_a] by fastforce

text \<open>C29: the release protocol: the client's call returns 0 exactly when this client made that
  registration, which is then gone, and -EPERM otherwise, when the table is unchanged; either way
  the enable registers then hold exactly the lines the table asks for.\<close>

theorem release_protocol:
  assumes "daemon_ok d" "sock = p_fd (d_fds d ! idx)"
    and "request = rb_set_selector (rb_set_msg junk RELEASE_IRQ) sel"
    and "k_in (d_kern d) sock = RecvMsg request # rs" "k_wr (d_kern d) sock = []"
    and "length junk = RB_SIZE" "length (e_junk env) = RB_SIZE"
    and "owner = (\<exists>e \<in> set (live (d_table d)). hasheq (t_selector e) sel \<and> t_data e = sock)"
  shows "\<exists>d' g. process_client env idx d = Done d' \<and>
    k_out (d_kern d') = k_out (d_kern d) @ [(sock, g)] \<and>
    (\<forall>k cs gs. k_wr k cs = [] \<longrightarrow> k_in k cs = RecvMsg g # gs \<longrightarrow>
      v120irqd_release junk k cs sel =
        Done (if owner then 0 else - EPERM,
              k\<lparr>k_out := k_out k @ [(cs, request)], k_in := (k_in k)(cs := gs)\<rparr>)) \<and>
    live (d_table d') = (if owner then filter (\<lambda>e. \<not> hasheq (t_selector e) sel) (live (d_table d))
                         else live (d_table d)) \<and>
    map vi_irqen (d_info d') = map (\<lambda>i. ucast (list_registered_interrupts (d_table d') ! vi_cratenumber i)) (d_info d)"
proof -
  have tab: "table_ok (d_table d)"
    using assms(1) by (auto simp: daemon_ok_def)
  obtain ret tab' where rel: "release_interrupt (d_table d) sock sel = (ret, tab')" by fastforce
  note rc = release_interrupt_cases [OF tab rel]
  have own: "ret = 0 \<longleftrightarrow> owner" using rc(1) assms(8) by simp
  have req: "length request = RB_SIZE" "rb_msg request = RELEASE_IRQ" "rb_selector request = sel"
    using assms(6) by (simp_all add: assms(3))
  define g where "g = rb_set_msg (e_junk env) (if ret = 0 then ACK else NAK)"
  have g: "length g = RB_SIZE" "rb_msg g = (if ret = 0 then ACK else NAK)"
    using assms(7) by (simp_all add: g_def)
  define d' where "d' = disable_unused_interrupts (d\<lparr>d_table := tab',
      d_kern := (d_kern d)\<lparr>k_in := (k_in (d_kern d))(sock := rs), k_out := k_out (d_kern d) @ [(sock, g)]\<rparr>\<rparr>)"
  have "process_client env idx d = handle_release env sock request
      (d\<lparr>d_kern := (d_kern d)\<lparr>k_in := (k_in (d_kern d))(sock := rs)\<rparr>\<rparr>)"
    using process_client_message [of d idx request rs env] req assms(2,4,7)
    by (simp add: Let_def message_defs)
  also have "\<dots> = Done d'"
    using assms(5) rel rc(2) req(3)
    by (cases "ret = 0") (auto simp: handle_release_def with_kern_def ack_ok d'_def g_def)
  finally have "process_client env idx d = Done d'" .
  moreover have "v120irqd_release junk k cs sel =
        Done (if owner then 0 else - EPERM,
              k\<lparr>k_out := k_out k @ [(cs, request)], k_in := (k_in k)(cs := gs)\<rparr>)"
    if "k_wr k cs = []" "k_in k cs = RecvMsg g # gs" for k cs gs
    using that g req(1) recv_full_message [of "k\<lparr>k_out := k_out k @ [(cs, request)]\<rparr>" cs g gs request]
      assms(3) own
    by (cases "ret = 0") (simp_all add: v120irqd_release_def msg_send_ok message_defs RB_SIZE_def Let_def)
  moreover have "live tab' = (if owner then filter (\<lambda>e. \<not> hasheq (t_selector e) sel) (live (d_table d))
      else live (d_table d))"
    using rc(2,3) own by auto
  ultimately show ?thesis
    by (intro exI [of _ d'] exI [of _ g]) (simp add: d'_def disable_unused_interrupts_def Let_def)
qed

definition release_a :: bytes where
  "release_a = rb_set_selector (rb_set_msg (replicate RB_SIZE 0) RELEASE_IRQ) sel_a"

theorem release_protocol_witness:
  "\<exists>d'. process_client env_a 2 (daemon_with [release_a]) = Done d' \<and> live (d_table d') = []"
  using release_protocol [OF daemon_with_ok [of "[release_a]"] _ release_a_def, where sock = 7 and idx = 2 and
      rs = "[]" and env = env_a and owner = True]
  by (fastforce simp: tab_a_ok hasheq_def)

lemma crates_mask_bit:
  "bit (fold (\<lambda>i m. m OR push_bit (vi_cratenumber i) (1 :: u32)) is m) n \<longleftrightarrow>
    bit m n \<or> (n < 32 \<and> (\<exists>i \<in> set is. vi_cratenumber i = n))"
proof (induction "is" arbitrary: m)
  case (Cons i "is")
  then show ?case by (auto simp: bit_or_iff bit_push_bit_iff bit_exp_iff)
qed simp

text \<open>C31: the status query reports the daemon's state: its process id, the crates it serves, the
  number of connected clients and the number of live registrations.\<close>

theorem status_protocol:
  assumes "daemon_ok d" "sock = p_fd (d_fds d ! idx)"
    and "request = rb_set_msg (replicate RB_SIZE 0) SERVER_STATUS"
    and "k_in (d_kern d) sock = RecvMsg request # rs" "k_wr (d_kern d) sock = []"
    and "length (e_junk env) = RB_SIZE"
  shows "\<exists>d' g st. process_client env idx d = Done d' \<and> d_table d' = d_table d \<and>
    k_out (d_kern d') = k_out (d_kern d) @ [(sock, g)] \<and>
    (\<forall>k cs gs s. k_wr k cs = [] \<longrightarrow> k_in k cs = RecvMsg g # gs \<longrightarrow>
      v120irqd_status k cs s =
        Done (0, st, k\<lparr>k_out := k_out k @ [(cs, request)], k_in := (k_in k)(cs := gs)\<rparr>)) \<and>
    st_pid st = e_pid env \<and> st_clients st = of_nat (length (client_fds d)) \<and>
    st_irq_requests st = of_nat (length (live (d_table d))) \<and>
    (\<forall>n. bit (st_crates st) n \<longleftrightarrow> n \<in> vi_cratenumber ` set (d_info d))"
proof -
  have fds: "length (d_fds d) = d_len_pollfds d" "d_len_crates d < d_len_pollfds d"
    and crates: "\<forall>i \<in> set (d_info d). vi_cratenumber i < 16"
    using assms(1) by (auto simp: daemon_ok_def fds_ok_def info_ok_def)
  have req: "length request = RB_SIZE" "rb_msg request = SERVER_STATUS"
    by (simp_all add: assms(3))
  define st where "st = build_status_report env d"
  define g where "g = rb_set_status request st"
  have g: "length g = RB_SIZE" "rb_msg g = SERVER_STATUS" "rb_status g = st"
    using req by (simp_all add: g_def)
  define d' where "d' = d\<lparr>d_kern := (d_kern d)\<lparr>k_in := (k_in (d_kern d))(sock := rs),
      k_out := k_out (d_kern d) @ [(sock, g)]\<rparr>\<rparr>"
  have "process_client env idx d = handle_status env sock request
      (d\<lparr>d_kern := (d_kern d)\<lparr>k_in := (k_in (d_kern d))(sock := rs)\<rparr>\<rparr>)"
    using process_client_message [of d idx request rs env] req assms(2,4,6)
    by (simp add: Let_def message_defs)
  also have "\<dots> = Done d'"
    using assms(5)
    by (simp add: handle_status_def with_kern_def msg_send_ok d'_def g_def st_def build_status_report_def
        count_clients_def)
  finally have "process_client env idx d = Done d'" .
  moreover have "v120irqd_status k cs s =
        Done (0, st, k\<lparr>k_out := k_out k @ [(cs, request)], k_in := (k_in k)(cs := gs)\<rparr>)"
    if "k_wr k cs = []" "k_in k cs = RecvMsg g # gs" for k cs gs s
    using that g req(1) recv_full_message [of "k\<lparr>k_out := k_out k @ [(cs, request)]\<rparr>" cs g gs request]
      assms(3)
    by (simp add: v120irqd_status_def msg_send_ok message_defs RB_SIZE_def Let_def)
  moreover have "d_len_pollfds d = Suc (d_len_crates d + length (client_fds d))"
    using fds by (simp add: client_fds_def)
  then have "count_clients d = of_nat (length (client_fds d))"
    by (simp add: count_clients_def)
  moreover have "bit (st_crates st) n \<longleftrightarrow> n \<in> vi_cratenumber ` set (d_info d)" for n
    using crates crates_mask_bit [of "d_info d" 0 n] by (auto simp: st_def build_status_report_def)
  ultimately show ?thesis
    by (intro exI [of _ d'] exI [of _ g] exI [of _ st])
      (simp add: d'_def st_def build_status_report_def count_registered_eq)
qed

theorem status_protocol_witness:
  "\<exists>d' g (st :: serverstatus).
    process_client env_a 2 (daemon_with [rb_set_msg (replicate RB_SIZE 0) SERVER_STATUS]) = Done d' \<and>
    k_out (d_kern d') = [(7, g)] \<and> st_pid st = 1 \<and> st_clients st = 1 \<and> st_irq_requests st = 1"
proof -
  have "length (client_fds (daemon_with fs)) = 1" for fs
    by (simp add: client_fds_def daemon_with_def daemon_a_def)
  note clients = this
  obtain d' g and st :: serverstatus where "process_client env_a 2 (daemon_with [rb_set_msg (replicate RB_SIZE 0) SERVER_STATUS]) = Done d'"
    "k_out (d_kern d') = [(7, g)]" "st_pid st = 1" "st_clients st = of_nat 1" "st_irq_requests st = of_nat 1"
    using status_protocol [OF daemon_with_ok [of "[rb_set_msg (replicate RB_SIZE 0) SERVER_STATUS]"] _ refl,
        of 7 2 "[]" env_a] clients tab_a_ok(2) by auto
  then show ?thesis by auto
qed

section \<open>Complete runs\<close>

text \<open>C1: from the start-up on, through any sequence of interrupts, connections, client messages
  and signals, the daemon keeps its invariant: the descriptor list has a slot per crate, the server
  socket and the clients; the table is well formed; every registration belongs to a socket that is
  still polled; only lines 1 to 7 are enabled. No input makes the main loop exit the process.\<close>

theorem daemon_run_invariant:
  assumes "\<forall>c. e_irqen env c AND NOT 0xFE = 0" "\<forall>n. e_fdalloc env n"
    and "initialize env keys (daemon_zero k accepts) = Done (r, d)"
  shows "(\<forall>c. main_loop fuel vfuel env prs d \<noteq> Exit c) \<and>
    (\<forall>r' d'. main_loop fuel vfuel env prs d = Done (r', d') \<longrightarrow>
      fds_ok d' \<and> table_ok (d_table d') \<and>
      (\<forall>e \<in> set (live (d_table d')). t_data e \<in> set (client_fds d')) \<and>
      (\<forall>i \<in> set (d_info d'). vi_irqen i AND NOT 0xFE = 0))"
proof -
  have ok: "daemon_ok d"
    using initialize_ok [OF _ assms(3)] assms(1) unfolding irq_mask_ok_def by blast
  then show ?thesis
    using main_loop_ok(2) [OF ok assms(2)] main_loop_ok(1) [OF ok assms(2)]
    by (auto simp: daemon_ok_def info_ok_def irq_mask_ok_def)
qed

definition daemon_b :: daemon where
  "daemon_b = (daemon_zero (d_kern daemon_a) [9])
     \<lparr>d_settings := \<lparr>allowFakeIrq = True, debugMode = False, noDaemon = False, noVME = True\<rparr>,
      d_len_pollfds := 1, d_fds := [\<lparr>p_fd = 5, p_events = POLLIN, p_revents = 0\<rparr>]\<rparr>"

lemma daemon_b_init: "initialize env_a ''n'' (daemon_zero (d_kern daemon_a) [9]) = Done (0, daemon_b)"
  by (simp add: initialize_def parseArgs_def daemon_zero_def configureServerSocket_def append_fd_def
      env_a_def v120irqd_server_def Let_def strncpy_buf_def UNIX_PATH_MAX_def DEFAULTSOCKET_def daemon_b_def)

lemma daemon_b_run: "\<exists>d'. main_loop (Suc (Suc 0)) 1 env_a [PollEvents (\<lambda>i. 1)] daemon_b = Done (0, d')"
  by (simp add: mainloop_def set_revents_def count_events_def poll_loop.simps(2) process_newclient_def
      configureClientSocket_def append_fd_def daemon_b_def daemon_zero_def env_a_def)

theorem daemon_run_invariant_witness:
  "\<exists>d'. main_loop (Suc (Suc 0)) 1 env_a [PollEvents (\<lambda>i. 1)] daemon_b = Done (0, d') \<and> fds_ok d'"
proof -
  obtain d' where run: "main_loop (Suc (Suc 0)) 1 env_a [PollEvents (\<lambda>i. 1)] daemon_b = Done (0, d')"
    using daemon_b_run by blast
  have "\<forall>c. e_irqen env_a c AND NOT 0xFE = 0" "\<forall>n. e_fdalloc env_a n"
    by (simp_all add: env_a_def)
  then show ?thesis
    using daemon_run_invariant [OF _ _ daemon_b_init, of "Suc (Suc 0)" 1 "[PollEvents (\<lambda>i. 1)]"] run by blast
qed



section \<open>Deviations\<close>

text \<open>A request for some crates enables its lines on every crate the daemon serves: the test in
  \<open>enable_interrupts\<close> does not look at the bit of the crate.\<close>

theorem enable_interrupts_all_crates:
  assumes "daemon_ok d" "s_crate st \<noteq> 0"
  shows "d_info (enable_interrupts d st) = map (\<lambda>i. i\<lparr>vi_irqen := vi_irqen i OR ucast (s_irq st)\<rparr>) (d_info d)"
proof -
  have "(push_bit (vi_cratenumber i) 1 :: u32) \<noteq> 0" if "i \<in> set (d_info d)" for i
    using assms(1) that by (force simp: daemon_ok_def info_ok_def word_neq_0_bit bit_simps)
  then show ?thesis
    using assms(2) by (simp add: enable_interrupts_def)
qed

theorem enable_interrupts_all_crates_witness:
  "map vi_irqen (d_info (enable_interrupts daemon_a (sel_a\<lparr>s_crate := 2, s_irq := 8\<rparr>))) = [12]"
  using enable_interrupts_all_crates [OF daemon_a_ok, of "sel_a\<lparr>s_crate := 2, s_irq := 8\<rparr>"]
  by (simp add: daemon_a_def)

text \<open>When the descriptor list cannot grow for a new client, the list's length is wrong afterwards.\<close>

lemma append_fd_failure_breaks_length:
  assumes "fds_ok d" "\<not> e_fdalloc env (d_len_pollfds d + 1)" "d_accepts d = c # cs" "0 \<le> c"
  shows "\<exists>d'. process_newclient env d = Done d' \<and> d_len_pollfds d' = length (d_fds d') + 1"
  using assms
  by (simp add: process_newclient_def configureClientSocket_def append_fd_def fds_ok_def)

end
