(* ===== verification/V120_Handle.thy ===== *)
theory V120_Handle
  imports C_Stdio
begin

text \<open>
  The access library \<open>libV120/V120.c\<close>: the handle of a crate, the list of its memory mappings,
  opening, closing and walking over crates, the mapping of VME pages, the page descriptors and
  the monitor dump. The operating system is a record of what is open and mapped; what it answers
  is the environment, a parameter. The device is the array of its 64-bit cells from the start of
  the control mapping: cells 0 to 8191 are the page descriptors, the configuration registers
  follow at cell 8192. The register numbers of the driver's header are not part of the sources.
\<close>

section \<open>State\<close>

definition V120_PAGE_SIZE :: nat where "V120_PAGE_SIZE = 0x4000"
definition V120_PAGE_COUNT :: nat where "V120_PAGE_COUNT = 8192"
definition V120_MMAP_SIZE :: nat where "V120_MMAP_SIZE = 0x20000"
definition CONFIG_OFFS :: nat where "CONFIG_OFFS = 0x10000"
definition MON_OFFS :: nat where "MON_OFFS = 0x14000"
definition RECORD_OFFS :: nat where "RECORD_OFFS = 0x14800"

record vme_region =
  vr_base :: "nat option"
  vr_start_page :: u32
  vr_end_page :: u32
  vr_vme_addr :: u64
  vr_len :: u64
  vr_config :: u64
  vr_tag :: "string option"

text \<open>A mapping is its address and its size; the list of a handle has the latest first.\<close>

record v120_handle =
  h_list :: "vme_region list"
  h_fd_ctrl :: int
  h_fd_vme :: int
  h_fd_irq :: int
  h_bar :: "int \<Rightarrow> u64"
  h_mapptr :: nat
  h_errnum :: int
  h_mmlist :: "(nat \<times> nat) list"
  h_crateno :: u32

record os =
  os_maps :: "(nat \<times> nat) list"
  os_fds :: "int list"
  os_errno :: int

text \<open>
  The environment: what \<open>open\<close> answers for a device name (an error number or a descriptor), what
  \<open>mmap\<close> answers as the number of mappings, the sz and the offset say (\<open>None\<close> is
  \<open>MAP_FAILED\<close>), whether \<open>malloc\<close> and \<open>calloc\<close> succeed, the answer of the driver's \<open>ioctl\<close>
  calls by their number, the contents of the device when it is mapped, and the uninitialised
  variable \<open>endpage\<close>.
\<close>

record v120_env =
  ve_open :: "string \<Rightarrow> int + int"
  ve_mmap :: "nat \<Rightarrow> nat \<Rightarrow> nat \<Rightarrow> nat option"
  ve_malloc :: bool
  ve_calloc :: bool
  ve_ioctl :: "int \<Rightarrow> nat \<Rightarrow> int"
  ve_device :: "u32 \<Rightarrow> int \<Rightarrow> u64"
  ve_junk :: u32

definition sys_open :: "v120_env \<Rightarrow> string \<Rightarrow> os \<Rightarrow> int \<times> os" where
  "sys_open env name os =
     (case ve_open env name of
        Inl e \<Rightarrow> (- 1, os\<lparr>os_errno := e\<rparr>)
      | Inr fd \<Rightarrow> (fd, os\<lparr>os_fds := fd # os_fds os\<rparr>))"

definition os_close :: "int \<Rightarrow> os \<Rightarrow> os" where
  "os_close fd os = os\<lparr>os_fds := remove1 fd (os_fds os)\<rparr>"

definition sys_mmap :: "v120_env \<Rightarrow> nat \<Rightarrow> nat \<Rightarrow> os \<Rightarrow> nat option \<times> os" where
  "sys_mmap env sz offs os =
     (case ve_mmap env (length (os_maps os)) sz offs of
        None \<Rightarrow> (None, os)
      | Some ptr \<Rightarrow> if ptr = 0 then (None, os) else (Some ptr, os\<lparr>os_maps := (ptr, sz) # os_maps os\<rparr>))"

definition sys_munmap :: "nat \<Rightarrow> nat \<Rightarrow> os \<Rightarrow> os" where
  "sys_munmap ptr sz os = os\<lparr>os_maps := remove1 (ptr, sz) (os_maps os)\<rparr>"

section \<open>The list of mappings\<close>

definition v120_set_errno :: "v120_handle \<Rightarrow> os \<Rightarrow> int \<Rightarrow> v120_handle \<times> os" where
  "v120_set_errno h os err = (h\<lparr>h_errnum := err\<rparr>, os\<lparr>os_errno := err\<rparr>)"

definition v120_add_to_mm_list ::
  "v120_env \<Rightarrow> v120_handle \<Rightarrow> os \<Rightarrow> nat \<Rightarrow> nat \<Rightarrow> int \<times> v120_handle \<times> os" where
  "v120_add_to_mm_list env h os ptr sz =
     (if \<not> ve_malloc env then (let (h, os) = v120_set_errno h os ENOMEM in (- 1, h, os))
      else (0, h\<lparr>h_mmlist := (ptr, sz) # h_mmlist h\<rparr>, os))"

text \<open>The element \<open>p\<close> to remove is given by its position in the list.\<close>

definition v120_remove_from_mm_list :: "v120_handle \<Rightarrow> os \<Rightarrow> nat \<Rightarrow> int \<times> v120_handle \<times> os" where
  "v120_remove_from_mm_list h os p =
     (if length (h_mmlist h) \<le> p then (- 1, h, os)
      else (let (ptr, sz) = h_mmlist h ! p in
            (0, h\<lparr>h_mmlist := take p (h_mmlist h) @ drop (Suc p) (h_mmlist h)\<rparr>, sys_munmap ptr sz os)))"

function v120_clean_mem_list :: "v120_handle \<Rightarrow> os \<Rightarrow> int \<times> v120_handle \<times> os" where
  "v120_clean_mem_list h os =
     (if h_mmlist h = [] then (0, h, os)
      else (let (r, h', os') = v120_remove_from_mm_list h os 0 in
            if r < 0 then (- 1, h', os') else v120_clean_mem_list h' os'))"
  by pat_completeness auto
termination
proof (relation "measure (\<lambda>(h, os). length (h_mmlist h))")
  fix h :: v120_handle and os :: os and x r y h' os'
  assume "h_mmlist h \<noteq> []" "x = v120_remove_from_mm_list h os 0" "(r, y) = x" "(h', os') = y" "\<not> r < 0"
  then show "((h', os'), (h, os)) \<in> measure (\<lambda>(h, os). length (h_mmlist h))"
    by (cases "h_mmlist h") (auto simp: v120_remove_from_mm_list_def split: prod.splits)
qed simp

declare v120_clean_mem_list.simps [simp del]

section \<open>Opening and closing\<close>

definition v120_delete_vme_list :: "v120_handle \<Rightarrow> v120_handle" where
  "v120_delete_vme_list h = h\<lparr>h_list := []\<rparr>"

text \<open>A failure of \<open>v120_clean_mem_list\<close> ends the process. The handle is freed: only the
  operating system is left.\<close>

definition v120_cleanup :: "v120_handle \<Rightarrow> os \<Rightarrow> os outcome" where
  "v120_cleanup h os =
     (let (r, h, os) = v120_clean_mem_list h os in
      if r < 0 then Exit 1
      else
        (let os = (if h_mapptr h \<noteq> 0 then sys_munmap (h_mapptr h) V120_MMAP_SIZE os else os);
             h = v120_delete_vme_list h;
             os = (if 0 \<le> h_fd_irq h then os_close (h_fd_irq h) os else os);
             os = os_close (h_fd_ctrl h) os;
             os = (if 0 \<le> h_fd_vme h then os_close (h_fd_vme h) os else os)
         in Done os))"

definition v120_close :: "v120_handle \<Rightarrow> os \<Rightarrow> os outcome" where
  "v120_close h os = v120_cleanup h os"

definition sDEVNAME_CTRL :: string where "sDEVNAME_CTRL = ''/dev/v120_c''"
definition sDEVNAME_VME :: string where "sDEVNAME_VME = ''/dev/v120_v''"
definition sDEVNAME_IRQ :: string where "sDEVNAME_IRQ = ''/dev/v120_q''"

definition v120_open_device :: "v120_env \<Rightarrow> string \<Rightarrow> u32 \<Rightarrow> os \<Rightarrow> int \<times> os" where
  "v120_open_device env filename crateno os =
     sys_open env (snprintf_text 19 (filename @ fmt_u (unat crateno))) os"

definition v120_open :: "v120_env \<Rightarrow> int \<Rightarrow> os \<Rightarrow> v120_handle option \<times> os" where
  "v120_open env unit_id os =
     (if 15 < unit_id then (None, os\<lparr>os_errno := EINVAL\<rparr>)
      else if \<not> ve_calloc env then (None, os)
      else
        (let (fd, os) = v120_open_device env sDEVNAME_CTRL (of_int unit_id) os in
         if fd < 0 then (None, os)
         else (case sys_mmap env V120_MMAP_SIZE 0 os of
           (None, os) \<Rightarrow> (None, os_close fd os)
         | (Some ptr, os) \<Rightarrow>
             (Some \<lparr>h_list = [], h_fd_ctrl = fd, h_fd_vme = - 1, h_fd_irq = - 1,
                    h_bar = ve_device env (of_int unit_id), h_mapptr = ptr, h_errnum = 0,
                    h_mmlist = [], h_crateno = of_int unit_id\<rparr>, os))))"

declare v120_open_def [open_eval] v120_open_device_def [open_eval] sys_open_def [open_eval] sys_mmap_def [open_eval]

text \<open>The loop of \<open>v120_next\<close> over the crates from \<open>i\<close> on.\<close>

function v120_next_from :: "v120_env \<Rightarrow> int \<Rightarrow> os \<Rightarrow> v120_handle option \<times> os" where
  "v120_next_from env i os =
     (if i < 16 then
        (case v120_open env i os of
           (Some h, os') \<Rightarrow> (Some h, os')
         | (None, os') \<Rightarrow> v120_next_from env (i + 1) os')
      else (None, os))"
  by pat_completeness auto
termination by (relation "measure (\<lambda>(env, i, os). nat (16 - i))") auto

declare v120_next_from.simps [simp del]

definition v120_next :: "v120_env \<Rightarrow> v120_handle option \<Rightarrow> os \<Rightarrow> (v120_handle option \<times> os) outcome" where
  "v120_next env ho os =
     (case ho of
        None \<Rightarrow> Done (v120_next_from env 0 os)
      | Some h \<Rightarrow> obind (v120_close h os) (\<lambda>os. Done (v120_next_from env (sint (h_crateno h + 1)) os)))"

section \<open>Mapping VME pages\<close>

definition v120_alloc_pages ::
  "v120_env \<Rightarrow> v120_handle \<Rightarrow> os \<Rightarrow> int \<Rightarrow> int \<Rightarrow> nat option \<times> v120_handle \<times> os" where
  "v120_alloc_pages env h os pageno npages =
     (if pageno < 0 \<or> npages < 0 then (let (h, os) = v120_set_errno h os EINVAL in (None, h, os))
      else
        (let sz = V120_PAGE_SIZE * nat npages;
             (fd, os) = (if h_fd_vme h < 0 then v120_open_device env sDEVNAME_VME (h_crateno h) os
                         else (h_fd_vme h, os));
             h = h\<lparr>h_fd_vme := fd\<rparr> in
         if fd < 0 then (let (h, os) = v120_set_errno h os EBADFD in (None, h, os))
         else (case sys_mmap env sz (V120_PAGE_SIZE * nat pageno) os of
           (None, os) \<Rightarrow> (let (h, os) = v120_set_errno h os ENOMEM in (None, h, os))
         | (Some ptr, os) \<Rightarrow>
             (let (r, h, os) = v120_add_to_mm_list env h os ptr sz in
              if r < 0 then (let (h, os) = v120_set_errno h (sys_munmap ptr sz os) ENOMEM in (None, h, os))
              else (Some ptr, h, os)))))"

definition v120_get_all_vme :: "v120_env \<Rightarrow> v120_handle \<Rightarrow> os \<Rightarrow> nat option \<times> v120_handle \<times> os" where
  "v120_get_all_vme env h os = v120_alloc_pages env h os 0 (int V120_PAGE_COUNT)"

definition v120_get_vme ::
  "v120_env \<Rightarrow> v120_handle \<Rightarrow> os \<Rightarrow> int \<Rightarrow> int \<Rightarrow> nat option \<times> v120_handle \<times> os" where
  "v120_get_vme env h os start_page end_page =
     (let (start_page, end_page) =
            (if end_page < start_page then (end_page, start_page) else (start_page, end_page)) in
      if int V120_PAGE_COUNT \<le> end_page then (let (h, os) = v120_set_errno h os EINVAL in (None, h, os))
      else v120_alloc_pages env h os start_page (end_page - start_page + 1))"

section \<open>Page descriptors\<close>

text \<open>The store through \<open>hV120->pd\<close> is not checked: any cell can be the target.\<close>

definition v120_configure_pd :: "v120_handle \<Rightarrow> int \<Rightarrow> u64 \<Rightarrow> u64 \<Rightarrow> v120_handle" where
  "v120_configure_pd h pageno base config =
     h\<lparr>h_bar := (h_bar h)(pageno := config OR push_bit 14 (base div of_nat V120_PAGE_SIZE))\<rparr>"

definition v120_configure_pd_range :: "v120_handle \<Rightarrow> int \<Rightarrow> u64 \<Rightarrow> u64 \<Rightarrow> nat \<Rightarrow> v120_handle" where
  "v120_configure_pd_range h startpg base config npages =
     fold (\<lambda>i h. v120_configure_pd h (startpg + int i) (base + of_nat (i * V120_PAGE_SIZE)) config)
       [0..<npages] h"

definition v120_configure_page ::
  "v120_env \<Rightarrow> v120_handle \<Rightarrow> os \<Rightarrow> int \<Rightarrow> u64 \<Rightarrow> u64 \<Rightarrow> nat option \<times> v120_handle \<times> os" where
  "v120_configure_page env h os idx base config =
     (if int V120_PAGE_COUNT \<le> idx \<or> base mod of_nat V120_PAGE_SIZE \<noteq> 0
      then (let (h, os) = v120_set_errno h os EINVAL in (None, h, os))
      else v120_alloc_pages env (v120_configure_pd h idx base config) os idx 1)"

definition v120_get_page_configuration :: "v120_handle \<Rightarrow> int \<Rightarrow> u64" where
  "v120_get_page_configuration h idx = h_bar h idx"

section \<open>Regions\<close>

definition v120_add_vme_region :: "v120_handle \<Rightarrow> vme_region \<Rightarrow> v120_handle" where
  "v120_add_vme_region h r = h\<lparr>h_list := r # h_list h\<rparr>"

fun region_walk :: "vme_region list \<Rightarrow> string \<Rightarrow> vme_region option" where
  "region_walk [] name = None"
| "region_walk (r # rs) name = (if vr_tag r = Some name then Some r else region_walk rs name)"

definition v120_get_vme_region :: "v120_handle \<Rightarrow> string \<Rightarrow> vme_region option" where
  "v120_get_vme_region h name = region_walk (h_list h) name"

text \<open>
  The loop of \<open>v120_allocate_vme\<close> over the list: the regions already done, the result, and the
  variable \<open>endpage\<close>. All page numbers are 32-bit; \<open>v120_get_vme\<close> receives them as \<open>int\<close>. The
  descriptors are written before the result of the mapping is tested.
\<close>

fun allocate_loop ::
  "v120_env \<Rightarrow> vme_region list \<Rightarrow> u32 \<Rightarrow> u32 \<Rightarrow> v120_handle \<Rightarrow> os \<Rightarrow>
    (int \<times> vme_region list) \<times> v120_handle \<times> os" where
  "allocate_loop env [] pgno endpage h os = ((sint (endpage + 1), []), h, os)"
| "allocate_loop env (r # rs) pgno endpage h os =
     (let pgoffs = vr_vme_addr r mod of_nat V120_PAGE_SIZE;
          len = ucast (vr_len r + pgoffs) :: u32;
          npages = (len + of_nat V120_PAGE_SIZE - 1) div of_nat V120_PAGE_SIZE;
          endpage = pgno + npages - 1;
          (base, h, os) = v120_get_vme env h os (sint pgno) (sint endpage);
          h = v120_configure_pd_range h (sint pgno) (vr_vme_addr r) (vr_config r) (nat (sint npages)) in
      case base of
        None \<Rightarrow> ((- 1, r\<lparr>vr_base := None\<rparr> # rs), h, os)
      | Some ptr \<Rightarrow>
          (let r' = r\<lparr>vr_base := Some (ptr + unat pgoffs), vr_start_page := pgno,
                      vr_end_page := pgno + npages - 1\<rparr>;
               ((ret, rs'), h, os) = allocate_loop env rs (pgno + npages) endpage h os
           in ((ret, r' # rs'), h, os)))"

definition v120_allocate_vme :: "v120_env \<Rightarrow> v120_handle \<Rightarrow> os \<Rightarrow> u32 \<Rightarrow> int \<times> v120_handle \<times> os" where
  "v120_allocate_vme env h os start_page =
     (if of_nat V120_PAGE_COUNT \<le> start_page
      then (let (h, os) = v120_set_errno h os EINVAL in (- 1, h, os))
      else
        (let ((ret, rs), h, os) = allocate_loop env (h_list h) start_page (ve_junk env) h os
         in (ret, h\<lparr>h_list := rs\<rparr>, os)))"

section \<open>Interrupt descriptor and driver calls\<close>

definition v120_irq_open :: "v120_env \<Rightarrow> v120_handle \<Rightarrow> os \<Rightarrow> int \<times> v120_handle \<times> os" where
  "v120_irq_open env h os =
     (if h_fd_irq h < 0 then
        (let (fd, os) = v120_open_device env sDEVNAME_IRQ (h_crateno h) os in
         if fd < 0 then (- 1, h, os) else (fd, h\<lparr>h_fd_irq := fd\<rparr>, os))
      else (h_fd_irq h, h, os))"

text \<open>\<open>v120_dma_xfr\<close>, and \<open>v120_dma_status\<close> with another number of the driver call.\<close>

definition v120_dma_ioctl :: "v120_env \<Rightarrow> nat \<Rightarrow> v120_handle \<Rightarrow> os \<Rightarrow> int \<times> v120_handle \<times> os" where
  "v120_dma_ioctl env nr h os =
     (let (fd, os) = (if h_fd_vme h < 0 then v120_open_device env sDEVNAME_VME (h_crateno h) os
                      else (h_fd_vme h, os));
          h = h\<lparr>h_fd_vme := fd\<rparr> in
      if fd < 0 then (let (h, os) = v120_set_errno h os EBADFD in (- 1, h, os))
      else (ve_ioctl env fd nr, h, os))"

definition v120_dma_xfr :: "v120_env \<Rightarrow> nat \<Rightarrow> v120_handle \<Rightarrow> os \<Rightarrow> int \<times> v120_handle \<times> os" where
  "v120_dma_xfr env V120_IOC_DMA_XFR h os = v120_dma_ioctl env V120_IOC_DMA_XFR h os"

definition v120_dma_status :: "v120_env \<Rightarrow> nat \<Rightarrow> v120_handle \<Rightarrow> os \<Rightarrow> int \<times> v120_handle \<times> os" where
  "v120_dma_status env V120_IOC_DMA_STATUS h os = v120_dma_ioctl env V120_IOC_DMA_STATUS h os"

definition v120_persist :: "v120_env \<Rightarrow> nat \<Rightarrow> v120_handle \<Rightarrow> int" where
  "v120_persist env V120_IOC_PERSIST h = ve_ioctl env (h_fd_ctrl h) V120_IOC_PERSIST"

definition v120_crate :: "v120_handle \<Rightarrow> int" where
  "v120_crate h = sint (h_crateno h)"

text \<open>Byte offsets into the control mapping; a negative index is not refused.\<close>

definition v120_get_records :: "v120_handle \<Rightarrow> os \<Rightarrow> int \<Rightarrow> int option \<times> os" where
  "v120_get_records h os rec =
     (if 128 \<le> rec then (None, os\<lparr>os_errno := EINVAL\<rparr>)
      else (Some (int (h_mapptr h) + int RECORD_OFFS + 16 * rec), os))"

definition v120_get_monitor :: "v120_handle \<Rightarrow> os \<Rightarrow> int \<Rightarrow> int option \<times> os" where
  "v120_get_monitor h os monitor =
     (if 4 \<le> monitor then (None, os\<lparr>os_errno := EINVAL\<rparr>)
      else (Some (int (h_mapptr h) + int MON_OFFS + 64 * monitor), os))"

end
