(* ===== verification/V120_Alloc.thy ===== *)
theory V120_Alloc
  imports V120_Handle "HOL-Library.Multiset"
begin

text \<open>
  What \<open>v120_allocate_vme\<close> achieves: the regions of a crate get consecutive page ranges, and the
  page descriptors translate every byte of a region to its VME address. And the handling of
  resources: whatever is done with a handle, closing it gives back every mapping and descriptor.
\<close>

section \<open>Words as numbers\<close>

lemma unat_page [simp]: "unat (of_nat V120_PAGE_SIZE :: u64) = 0x4000" "unat (of_nat V120_PAGE_SIZE :: u32) = 0x4000"
  by (simp_all add: V120_PAGE_SIZE_def)

lemma uint_u32: "uint (w :: u32) = int (unat w)"
  by simp

lemma sint_small:
  fixes w :: u32
  assumes "unat w < 2 ^ 31"
  shows "sint w = int (unat w)"
proof -
  have "uint w < 2 ^ 31"
    using assms by (metis uint_u32 of_nat_less_iff of_nat_numeral of_nat_power)
  moreover have "- (2 ^ 31) \<le> uint w"
    by (rule order_trans [of _ 0]) (simp_all only: uint_u32, simp_all)
  ultimately have "signed_take_bit 31 (uint w) = uint w"
    by (intro signed_take_bit_int_eq_self)
  moreover have "sint w = signed_take_bit 31 (uint w)"
    by (simp add: sint_uint)
  ultimately show ?thesis
    by (simp only: uint_u32)
qed

lemma unat_of_nat_u64: "k < 2 ^ 64 \<Longrightarrow> unat (of_nat k :: u64) = k"
  by (simp add: unsigned_of_nat take_bit_nat_eq_self)

lemma unat_add_u64:
  fixes a b :: u64
  shows "unat a + unat b < 2 ^ 64 \<Longrightarrow> unat (a + b) = unat a + unat b"
  by (simp add: unat_word_ariths take_bit_nat_eq_self)

lemma unat_add_u32:
  fixes a b :: u32
  shows "unat a + unat b < 2 ^ 32 \<Longrightarrow> unat (a + b) = unat a + unat b"
  by (simp add: unat_word_ariths take_bit_nat_eq_self)

section \<open>Page descriptors\<close>

lemma configure_pd_range_eq:
  "v120_configure_pd_range h s base config n =
    h\<lparr>h_bar := (\<lambda>x. if s \<le> x \<and> x < s + int n
       then config OR push_bit 14 ((base + of_nat (nat (x - s) * V120_PAGE_SIZE)) div of_nat V120_PAGE_SIZE)
       else h_bar h x)\<rparr>"
proof (induction n)
  case 0
  then show ?case
    by (intro v120_handle.equality) (auto simp: v120_configure_pd_range_def fun_eq_iff)
next
  case (Suc n)
  have "v120_configure_pd_range h s base config (Suc n) =
      v120_configure_pd (v120_configure_pd_range h s base config n) (s + int n)
        (base + of_nat (n * V120_PAGE_SIZE)) config"
    by (simp add: v120_configure_pd_range_def)
  then show ?case
    by (auto simp: Suc v120_configure_pd_def fun_eq_iff)
qed

lemma page_of_base:
  fixes base :: u64
  assumes "unat base + i * 0x4000 < 2 ^ 64"
  shows "(base + of_nat (i * V120_PAGE_SIZE)) div of_nat V120_PAGE_SIZE = of_nat (unat base div 0x4000 + i)"
proof -
  have "unat (of_nat (i * V120_PAGE_SIZE) :: u64) = i * 0x4000"
    using assms by (subst unat_of_nat_u64) (simp_all add: V120_PAGE_SIZE_def)
  then have "unat (base + of_nat (i * V120_PAGE_SIZE)) = unat base + i * 0x4000"
    using assms by (subst unat_add_u64) simp_all
  then have "unat ((base + of_nat (i * V120_PAGE_SIZE)) div of_nat V120_PAGE_SIZE) = unat base div 0x4000 + i"
    by (simp add: unat_div)
  moreover have "unat (of_nat (unat base div 0x4000 + i) :: u64) = unat base div 0x4000 + i"
    using assms by (intro unat_of_nat_u64) simp
  ultimately show ?thesis
    by (simp only: word_unat_eq_iff)
qed

section \<open>Placing one region\<close>

definition page_offset :: "vme_region \<Rightarrow> nat" where
  "page_offset r = unat (vr_vme_addr r) mod 0x4000"

text \<open>The number of pages that cover a region, with its offset in the first page.\<close>

definition region_pages :: "vme_region \<Rightarrow> nat" where
  "region_pages r = (page_offset r + unat (vr_len r) + 0x3FFF) div 0x4000"

definition region_fits :: "vme_region \<Rightarrow> bool" where
  "region_fits r \<longleftrightarrow> 0 < unat (vr_len r) \<and> unat (vr_vme_addr r) + unat (vr_len r) + 0x4000 \<le> 2 ^ 64 \<and>
     region_pages r \<le> V120_PAGE_COUNT"

lemma region_pages_pos: "region_fits r \<Longrightarrow> 0 < region_pages r"
  by (simp add: region_fits_def region_pages_def div_greater_zero_iff)

lemma region_fits_small:
  assumes "region_fits r"
  shows "page_offset r + unat (vr_len r) \<le> 2 ^ 27"
proof -
  have "(page_offset r + unat (vr_len r) + 16383) div 16384 \<le> 8192"
    using assms by (simp add: region_fits_def region_pages_def V120_PAGE_COUNT_def)
  then have "page_offset r + unat (vr_len r) \<le> 134217728" by linarith
  then show ?thesis by simp
qed

lemma region_words:
  assumes "region_fits r"
  defines "pgoffs \<equiv> vr_vme_addr r mod of_nat V120_PAGE_SIZE"
  defines "len \<equiv> ucast (vr_len r + pgoffs) :: u32"
  shows "unat pgoffs = page_offset r"
    and "unat ((len + of_nat V120_PAGE_SIZE - 1) div of_nat V120_PAGE_SIZE) = region_pages r"
proof -
  show off: "unat pgoffs = page_offset r"
    by (simp add: pgoffs_def unat_mod page_offset_def)
  have small: "page_offset r + unat (vr_len r) \<le> 2 ^ 27"
    using assms(1) by (rule region_fits_small)
  then have "unat (vr_len r + pgoffs) = page_offset r + unat (vr_len r)"
    by (subst unat_add_u64) (simp_all add: off)
  then have len: "unat len = page_offset r + unat (vr_len r)"
    using small by (simp add: len_def unsigned_ucast_eq take_bit_nat_eq_self)
  have "len + of_nat V120_PAGE_SIZE - 1 = len + 0x3FFF"
    by (simp add: V120_PAGE_SIZE_def)
  moreover have "unat (len + 0x3FFF) = unat len + 0x3FFF"
    using small len by (subst unat_add_u32) simp_all
  ultimately have "unat (len + of_nat V120_PAGE_SIZE - 1) = page_offset r + unat (vr_len r) + 0x3FFF"
    using len by (simp only:)
  then show "unat ((len + of_nat V120_PAGE_SIZE - 1) div of_nat V120_PAGE_SIZE) = region_pages r"
    by (simp only: unat_div unat_page region_pages_def)
qed

section \<open>Placing the list of regions\<close>

text \<open>An environment in which opening, mapping and allocating succeed.\<close>

definition env_ok :: "v120_env \<Rightarrow> bool" where
  "env_ok env \<longleftrightarrow> ve_malloc env \<and> (\<forall>name. \<exists>fd \<ge> 0. ve_open env name = Inr fd) \<and>
     (\<forall>n sz offs. \<exists>ptr. ve_mmap env n sz offs = Some ptr \<and> ptr \<noteq> 0)"

lemma alloc_pages_ok:
  assumes "env_ok env" "0 \<le> pageno" "0 \<le> npages"
  obtains ptr h' os' where "v120_alloc_pages env h os pageno npages = (Some ptr, h', os')"
    "h_bar h' = h_bar h" "h_list h' = h_list h" "ptr \<noteq> 0"
proof -
  obtain fd where "0 \<le> fd" "ve_open env (snprintf_text 19 (sDEVNAME_VME @ fmt_u (unat (h_crateno h)))) = Inr fd"
    using assms(1) unfolding env_ok_def by blast
  moreover obtain p where "\<forall>n sz offs. ve_mmap env n sz offs = Some (p n sz offs) \<and> p n sz offs \<noteq> 0"
    using assms(1) unfolding env_ok_def by metis
  ultimately show thesis
    using assms that
    by (cases "h_fd_vme h < 0")
      (auto simp: v120_alloc_pages_def open_eval env_ok_def
        v120_add_to_mm_list_def Let_def)
qed

text \<open>The result for one region: where it starts, and which pages of the device translate it.\<close>

definition region_placed :: "nat \<Rightarrow> vme_region \<Rightarrow> vme_region \<Rightarrow> (int \<Rightarrow> u64) \<Rightarrow> bool" where
  "region_placed p r r' bar \<longleftrightarrow>
     unat (vr_start_page r') = p \<and> unat (vr_end_page r') = p + region_pages r - 1 \<and>
     vr_base r' \<noteq> None \<and>
     r' = r\<lparr>vr_base := vr_base r', vr_start_page := vr_start_page r', vr_end_page := vr_end_page r'\<rparr> \<and>
     (\<forall>i < region_pages r. bar (int (p + i)) = vr_config r OR push_bit 14 (of_nat (unat (vr_vme_addr r) div 0x4000 + i)))"

fun regions_placed :: "nat \<Rightarrow> vme_region list \<Rightarrow> vme_region list \<Rightarrow> (int \<Rightarrow> u64) \<Rightarrow> bool" where
  "regions_placed p [] rs' bar = (rs' = [])"
| "regions_placed p (r # rs) rs' bar =
     (case rs' of [] \<Rightarrow> False | r' # rs' \<Rightarrow>
        region_placed p r r' bar \<and> regions_placed (p + region_pages r) rs rs' bar)"

lemma allocate_loop_ok:
  assumes "env_ok env" "\<forall>r \<in> set rs. region_fits r"
    "unat pgno + sum_list (map region_pages rs) \<le> V120_PAGE_COUNT"
    "rs = [] \<longrightarrow> endpage + 1 = pgno"
  shows "\<exists>rs' h' os'. allocate_loop env rs pgno endpage h os =
      ((int (unat pgno + sum_list (map region_pages rs)), rs'), h', os') \<and>
    regions_placed (unat pgno) rs rs' (h_bar h') \<and> h_list h' = h_list h \<and>
    (\<forall>x. x < int (unat pgno) \<longrightarrow> h_bar h' x = h_bar h x) \<and>
    (\<forall>x. int V120_PAGE_COUNT \<le> x \<longrightarrow> h_bar h' x = h_bar h x)"
  using assms(2-)
proof (induction rs arbitrary: pgno endpage h os)
  case Nil
  then have "sint (endpage + 1) = int (unat pgno)"
    by (simp add: sint_small V120_PAGE_COUNT_def)
  then show ?case by simp
next
  case (Cons r rs)
  let ?P = "region_pages r"
  define pgoffs where "pgoffs = vr_vme_addr r mod of_nat V120_PAGE_SIZE"
  define npages where "npages = (ucast (vr_len r + pgoffs) + of_nat V120_PAGE_SIZE - 1 :: u32) div of_nat V120_PAGE_SIZE"
  have fits: "region_fits r" and pos: "0 < ?P"
    using Cons.prems(1) region_pages_pos by auto
  have np: "unat npages = ?P" and off: "unat pgoffs = page_offset r"
    using region_words [OF fits] by (simp_all only: npages_def pgoffs_def)
  have bound: "unat pgno + ?P \<le> 8192"
    using Cons.prems(2) by (simp add: V120_PAGE_COUNT_def)
  have pg': "unat (pgno + npages) = unat pgno + ?P"
    using np bound by (subst unat_add_u32) simp_all
  have "pgno + npages \<noteq> 0" using pg' pos by auto
  then have "unat (pgno + npages - 1) = unat pgno + ?P - 1"
    using pg' by (simp add: unat_minus_one)
  then have end': "unat (pgno + npages - 1) = unat pgno + ?P - 1" .
  have sints: "sint pgno = int (unat pgno)" "sint npages = int ?P"
    "sint (pgno + npages - 1) = int (unat pgno + ?P - 1)"
    using bound np pos end' sint_small [of pgno] sint_small [of npages] sint_small [of "pgno + npages - 1"]
    by simp_all
  obtain ptr h1 os1 where a: "v120_alloc_pages env h os (int (unat pgno)) (int ?P) = (Some ptr, h1, os1)"
    "h_bar h1 = h_bar h" "h_list h1 = h_list h"
    using assms(1) by (rule alloc_pages_ok [of env "int (unat pgno)" "int ?P"]) simp_all
  have bound': "uint pgno + int ?P \<le> 8192"
    unfolding uint_u32 using bound by linarith
  have g: "v120_get_vme env h os (sint pgno) (sint (pgno + npages - 1)) = (Some ptr, h1, os1)"
    using a(1) bound bound' pos by (simp add: v120_get_vme_def sints V120_PAGE_COUNT_def of_nat_diff)
  define h2 where "h2 = v120_configure_pd_range h1 (sint pgno) (vr_vme_addr r) (vr_config r) (nat (sint npages))"
  have bar2: "h_bar h2 x = (if int (unat pgno) \<le> x \<and> x < int (unat pgno + ?P)
      then vr_config r OR push_bit 14 (of_nat (unat (vr_vme_addr r) div 0x4000 + nat (x - int (unat pgno))))
      else h_bar h x)" for x
  proof -
    have "unat (vr_vme_addr r) + i * 0x4000 < 2 ^ 64" if "i < ?P" for i
    proof -
      have "i * 0x4000 < page_offset r + unat (vr_len r)"
        using that by (simp add: region_pages_def less_eq_div_iff_mult_less_eq flip: Suc_le_eq)
      moreover have "page_offset r < 0x4000" by (simp add: page_offset_def)
      ultimately show ?thesis
        using fits by (simp add: region_fits_def)
    qed
    note small = this
    have raw: "h_bar h2 x = (if sint pgno \<le> x \<and> x < sint pgno + int (nat (sint npages))
       then vr_config r OR push_bit 14 ((vr_vme_addr r + of_nat (nat (x - sint pgno) * V120_PAGE_SIZE)) div of_nat V120_PAGE_SIZE)
       else h_bar h x)"
      unfolding h2_def configure_pd_range_eq a(2) by simp
    show ?thesis
    proof (cases "int (unat pgno) \<le> x \<and> x < int (unat pgno + ?P)")
      case True
      then have "nat (x - int (unat pgno)) < ?P" by linarith
      note page = page_of_base [OF small [OF this]]
      have "sint pgno \<le> x \<and> x < sint pgno + int (nat (sint npages))"
        using True unfolding sints by linarith
      then show ?thesis
        unfolding raw sints page using True by (simp only: if_True)
    next
      case False
      then have "\<not> (sint pgno \<le> x \<and> x < sint pgno + int (nat (sint npages)))"
        unfolding sints by linarith
      then show ?thesis
        unfolding raw using False by (simp only: if_False)
    qed
  qed
  have l2: "h_list h2 = h_list h" by (simp add: h2_def configure_pd_range_eq a(3))
  define r' where "r' = r\<lparr>vr_base := Some (ptr + unat pgoffs), vr_start_page := pgno,
      vr_end_page := pgno + npages - 1\<rparr>"
  obtain rs' h3 os3 where ih: "allocate_loop env rs (pgno + npages) (pgno + npages - 1) h2 os1 =
      ((int (unat (pgno + npages) + sum_list (map region_pages rs)), rs'), h3, os3)"
    "regions_placed (unat (pgno + npages)) rs rs' (h_bar h3)" "h_list h3 = h_list h2"
    "\<forall>x. x < int (unat (pgno + npages)) \<longrightarrow> h_bar h3 x = h_bar h2 x"
    "\<forall>x. int V120_PAGE_COUNT \<le> x \<longrightarrow> h_bar h3 x = h_bar h2 x"
    using Cons.IH [of "pgno + npages" "pgno + npages - 1" h2 os1] Cons.prems pg' by auto
  have "allocate_loop env (r # rs) pgno endpage h os =
      ((int (unat pgno + ?P + sum_list (map region_pages rs)), r' # rs'), h3, os3)"
    by (simp only: allocate_loop.simps Let_def g ih(1) [unfolded pg'] prod.case option.case
        flip: pgoffs_def npages_def h2_def r'_def)
  moreover have "region_placed (unat pgno) r r' (h_bar h3)"
    using ih(4) bar2 pg' end' by (simp add: region_placed_def r'_def)
  ultimately show ?case
    using ih bar2 l2 pg' bound bound' by (auto simp: V120_PAGE_COUNT_def)
qed

section \<open>Resources\<close>

text \<open>Descriptors are not negative (the contract of \<open>open\<close>).\<close>

definition env_fds :: "v120_env \<Rightarrow> bool" where
  "env_fds env \<longleftrightarrow> (\<forall>name fd. ve_open env name = Inr fd \<longrightarrow> 0 \<le> fd)"

text \<open>A handle owns its list of mappings, the control mapping and its descriptors; the rest of
  the process is as it was when the handle was opened.\<close>

definition fd_mset :: "int \<Rightarrow> int multiset" where
  "fd_mset fd = (if 0 \<le> fd then {#fd#} else {#})"

definition owns :: "os \<Rightarrow> v120_handle \<Rightarrow> os \<Rightarrow> bool" where
  "owns os0 h os \<longleftrightarrow> h_mapptr h \<noteq> 0 \<and>
     mset (os_maps os) = mset (h_mmlist h) + {#(h_mapptr h, V120_MMAP_SIZE)#} + mset (os_maps os0) \<and>
     mset (os_fds os) = {#h_fd_ctrl h#} + fd_mset (h_fd_vme h) + fd_mset (h_fd_irq h) + mset (os_fds os0)"

lemma owns_frame [simp]:
  "owns os0 (h\<lparr>h_errnum := e\<rparr>) os = owns os0 h os"
  "owns os0 (h\<lparr>h_list := l\<rparr>) os = owns os0 h os"
  "owns os0 (h\<lparr>h_bar := b\<rparr>) os = owns os0 h os"
  "owns os0 h (os\<lparr>os_errno := e\<rparr>) = owns os0 h os"
  by (simp_all add: owns_def)

lemma set_errno_owns: "v120_set_errno h os e = (h', os') \<Longrightarrow> owns os0 h' os' = owns os0 h os"
  by (auto simp: v120_set_errno_def)

lemma open_device_cases:
  assumes "env_fds env" "v120_open_device env name c os = (fd, os')"
  shows "os_maps os' = os_maps os" "mset (os_fds os') = fd_mset fd + mset (os_fds os)"
  using assms by (auto simp: v120_open_device_def sys_open_def env_fds_def fd_mset_def split: sum.splits)

lemma alloc_pages_owns:
  assumes "env_fds env" "owns os0 h os" "v120_alloc_pages env h os p n = (r, h', os')"
  shows "owns os0 h' os'"
proof -
  define fr where "fr = (if h_fd_vme h < 0 then v120_open_device env sDEVNAME_VME (h_crateno h) os else (h_fd_vme h, os))"
  obtain fd os1 where fr': "fr = (fd, os1)" by fastforce
  have own1: "owns os0 (h\<lparr>h_fd_vme := fd\<rparr>) os1"
  proof (cases "h_fd_vme h < 0")
    case True
    then have "v120_open_device env sDEVNAME_VME (h_crateno h) os = (fd, os1)"
      using fr' by (simp add: fr_def)
    from open_device_cases [OF assms(1) this] show ?thesis
      using True assms(2) by (simp add: owns_def fd_mset_def)
  next
    case False
    then show ?thesis using fr' assms(2) by (simp add: fr_def owns_def)
  qed
  have fr_eq: "(if h_fd_vme h < 0 then v120_open_device env sDEVNAME_VME (h_crateno h) os else (h_fd_vme h, os)) = (fd, os1)"
    using fr' by (simp add: fr_def)
  have mapped: "owns os0 (h\<lparr>h_fd_vme := fd, h_mmlist := (ptr, sz) # h_mmlist h\<rparr>) (os1\<lparr>os_maps := (ptr, sz) # os_maps os1\<rparr>)" for ptr sz
    using own1 by (simp add: owns_def)
  have unmapped: "owns os0 (h\<lparr>h_fd_vme := fd\<rparr>) (os1\<lparr>os_maps := remove1 (ptr, sz) ((ptr, sz) # os_maps os1), os_errno := e\<rparr>)" for ptr sz e
    using own1 by (simp add: owns_def)
  show ?thesis
    using assms(2,3) own1 mapped unmapped
    unfolding v120_alloc_pages_def fr_eq
    by (auto simp: v120_set_errno_def sys_mmap_def v120_add_to_mm_list_def sys_munmap_def Let_def
        split: if_splits option.splits)
qed

lemma get_vme_owns:
  assumes "env_fds env" "owns os0 h os" "v120_get_vme env h os a b = (r, h', os')"
  shows "owns os0 h' os'"
  using assms alloc_pages_owns [OF assms(1,2)]
  by (auto simp: v120_get_vme_def v120_set_errno_def Let_def split: if_splits)

lemma allocate_loop_owns:
  assumes "env_fds env" "owns os0 h os" "allocate_loop env rs p e h os = (r, h', os')"
  shows "owns os0 h' os'"
  using assms(2,3)
proof (induction rs arbitrary: p e h os r h' os')
  case (Cons x rs)
  define pg where "pg = vr_vme_addr x mod of_nat V120_PAGE_SIZE"
  define n where "n = (ucast (vr_len x + pg) + of_nat V120_PAGE_SIZE - 1 :: u32) div of_nat V120_PAGE_SIZE"
  obtain b h1 os1 where g: "v120_get_vme env h os (sint p) (sint (p + n - 1)) = (b, h1, os1)"
    by (cases "v120_get_vme env h os (sint p) (sint (p + n - 1))")
  define h2 where "h2 = v120_configure_pd_range h1 (sint p) (vr_vme_addr x) (vr_config x) (nat (sint n))"
  have own: "owns os0 h2 os1"
    using get_vme_owns [OF assms(1) Cons.prems(1) g] by (simp add: h2_def configure_pd_range_eq)
  show ?case
  proof (cases b)
    case None
    then show ?thesis
      using Cons.prems(2) own
      by (simp only: allocate_loop.simps Let_def g prod.case option.case prod.inject flip: pg_def n_def h2_def)
  next
    case (Some ptr)
    obtain ret rs' h3 os3 where l: "allocate_loop env rs (p + n) (p + n - 1) h2 os1 = ((ret, rs'), h3, os3)"
      by (cases "allocate_loop env rs (p + n) (p + n - 1) h2 os1") auto
    have "owns os0 h3 os3" using Cons.IH [OF own l] .
    moreover have "h' = h3" "os' = os3"
      using Cons.prems(2) Some
      by (simp_all only: allocate_loop.simps Let_def g l prod.case option.case prod.inject flip: pg_def n_def h2_def)
    ultimately show ?thesis by simp
  qed
qed simp

text \<open>Everything a program can do with a handle between opening and closing it.\<close>

inductive v120_session :: "v120_env \<Rightarrow> os \<Rightarrow> v120_handle \<Rightarrow> os \<Rightarrow> bool" for env os0 where
  opened: "v120_open env unit_id os0 = (Some h, os) \<Longrightarrow> v120_session env os0 h os"
| mapped: "v120_session env os0 h os \<Longrightarrow> v120_get_vme env h os a b = (r, h', os') \<Longrightarrow> v120_session env os0 h' os'"
| mapped_all: "v120_session env os0 h os \<Longrightarrow> v120_get_all_vme env h os = (r, h', os') \<Longrightarrow> v120_session env os0 h' os'"
| configured: "v120_session env os0 h os \<Longrightarrow> v120_configure_page env h os i base cfg = (r, h', os') \<Longrightarrow>
    v120_session env os0 h' os'"
| added: "v120_session env os0 h os \<Longrightarrow> v120_session env os0 (v120_add_vme_region h reg) os"
| deleted: "v120_session env os0 h os \<Longrightarrow> v120_session env os0 (v120_delete_vme_list h) os"
| allocated: "v120_session env os0 h os \<Longrightarrow> v120_allocate_vme env h os p = (ret, h', os') \<Longrightarrow> v120_session env os0 h' os'"
| irq_opened: "v120_session env os0 h os \<Longrightarrow> v120_irq_open env h os = (ret, h', os') \<Longrightarrow> v120_session env os0 h' os'"
| dma: "v120_session env os0 h os \<Longrightarrow> v120_dma_ioctl env nr h os = (ret, h', os') \<Longrightarrow> v120_session env os0 h' os'"

lemma open_owns:
  assumes "env_fds env" "v120_open env unit_id os0 = (ho, os)"
  shows "case ho of Some h \<Rightarrow> owns os0 h os | None \<Rightarrow> os_maps os = os_maps os0 \<and> os_fds os = os_fds os0"
proof -
  have "0 \<le> fd" if "ve_open env name = Inr fd" for name fd
    using assms(1) that by (simp add: env_fds_def)
  then have "\<And>name fd. ve_open env name = Inr fd \<Longrightarrow> \<not> fd < 0" by fastforce
  then show ?thesis
    using assms(2)
    by (auto simp: open_eval Let_def
        owns_def fd_mset_def os_close_def split: if_splits option.splits sum.splits)
qed

lemma dma_ioctl_owns:
  assumes "env_fds env" "owns os0 h os" "v120_dma_ioctl env nr h os = (ret, h', os')"
  shows "owns os0 h' os'"
proof -
  obtain fd os1 where o: "v120_open_device env sDEVNAME_VME (h_crateno h) os = (fd, os1)" by fastforce
  show ?thesis
    using assms(2,3) open_device_cases [OF assms(1) o]
    by (auto simp: v120_dma_ioctl_def o owns_def fd_mset_def v120_set_errno_def Let_def split: if_splits)
qed

lemma session_owns:
  assumes "env_fds env" "v120_session env os0 h os"
  shows "owns os0 h os"
  using assms(2)
proof (induction rule: v120_session.induct)
  case (opened unit_id h os)
  then show ?case using open_owns [OF assms(1), of unit_id os0 "Some h" os] by simp
next
  case (mapped h os a b r h' os')
  then show ?case using get_vme_owns [OF assms(1)] by blast
next
  case (mapped_all h os r h' os')
  then show ?case using alloc_pages_owns [OF assms(1)] by (auto simp: v120_get_all_vme_def)
next
  case (configured h os i base cfg r h' os')
  then show ?case using alloc_pages_owns [OF assms(1)]
    by (auto simp: v120_configure_page_def v120_set_errno_def v120_configure_pd_def Let_def split: if_splits)
      (metis owns_frame(3))
next
  case (allocated h os p ret h' os')
  then show ?case using allocate_loop_owns [OF assms(1)]
    by (auto simp: v120_allocate_vme_def v120_set_errno_def Let_def split: if_splits prod.splits)
next
  case (irq_opened h os ret h' os')
  obtain fd os1 where o: "v120_open_device env sDEVNAME_IRQ (h_crateno h) os = (fd, os1)" by fastforce
  show ?case
    using irq_opened open_device_cases [OF assms(1) o]
    by (auto simp: v120_irq_open_def o owns_def fd_mset_def split: if_splits)
next
  case (dma h os nr ret h' os')
  then show ?case using dma_ioctl_owns [OF assms(1)] by blast
qed (simp_all add: v120_add_vme_region_def v120_delete_vme_list_def)

lemma clean_mem_list_eq:
  "v120_clean_mem_list h os = (0, h\<lparr>h_mmlist := []\<rparr>, os\<lparr>os_maps := fold remove1 (h_mmlist h) (os_maps os)\<rparr>)"
proof (induction h os rule: v120_clean_mem_list.induct)
  case (1 h os)
  show ?case
  proof (cases "h_mmlist h")
    case Nil
    then show ?thesis by (subst v120_clean_mem_list.simps) simp
  next
    case (Cons m ms)
    obtain ptr sz where m: "m = (ptr, sz)" by fastforce
    have step: "v120_remove_from_mm_list h os 0 = (0, h\<lparr>h_mmlist := ms\<rparr>, sys_munmap ptr sz os)"
      by (simp add: v120_remove_from_mm_list_def Cons m)
    have "v120_clean_mem_list (h\<lparr>h_mmlist := ms\<rparr>) (sys_munmap ptr sz os) =
        (0, h\<lparr>h_mmlist := []\<rparr>, os\<lparr>os_maps := fold remove1 ms (remove1 m (os_maps os))\<rparr>)"
      using 1 [OF _ step [symmetric] refl refl] Cons m by (simp add: sys_munmap_def)
    then show ?thesis
      by (subst v120_clean_mem_list.simps) (simp add: Cons step)
  qed
qed

lemma mset_fold_remove1: "mset (fold remove1 xs ys) = mset ys - mset xs"
  by (induction xs arbitrary: ys) simp_all

lemma close_gives_back:
  assumes "owns os0 h os"
  shows "\<exists>os'. v120_close h os = Done os' \<and> mset (os_maps os') = mset (os_maps os0) \<and>
    mset (os_fds os') = mset (os_fds os0)"
  using assms
  by (auto simp: v120_close_def v120_cleanup_def clean_mem_list_eq owns_def sys_munmap_def os_close_def
      v120_delete_vme_list_def mset_fold_remove1 fd_mset_def Let_def)

end
