(* ===== verification/V120_Cmd.thy ===== *)
theory V120_Cmd
  imports V120_Alloc
begin

text \<open>
  The command line of \<open>v120\<close>: option values (\<open>v120/main.c\<close>), the subcommand tables, and the
  loop of \<open>v120/common.c\<close> that runs a subcommand on one or all crates. The page descriptor
  constants of the driver's header are a parameter. What \<open>getopt_long\<close> delivers is a list of
  options with their arguments.
\<close>

section \<open>Options\<close>

datatype vme_dwidth = VME_D8EO | VME_D8O | VME_D16 | VME_D32

record pd_consts =
  V120_A16 :: u64
  V120_A24 :: u64
  V120_A32 :: u64
  V120_SSLOW :: u64
  V120_SMED :: u64
  V120_SFAST :: u64
  V120_SMAX :: u64
  V120_D16 :: u64
  V120_EAUTO :: u64

record v120_args =
  a_crate :: int
  a_awidth :: u64
  a_dwidth :: vme_dwidth
  a_split :: bool
  a_binary :: bool
  a_vmeprint :: bool
  a_fpga :: bool
  a_fair :: bool
  a_speed :: u64
  a_slot0 :: bool
  a_verbose :: bool

abbreviation EXIT_SUCCESS :: int where "EXIT_SUCCESS \<equiv> 0"
abbreviation EXIT_FAILURE :: int where "EXIT_FAILURE \<equiv> 1"

definition ALL_CRATES :: int where "ALL_CRATES = 65"

text \<open>\<open>errno\<close> is read but never reset by the parsers.\<close>

definition parse_awidth :: "pd_consts \<Rightarrow> int \<Rightarrow> string \<Rightarrow> u64 outcome" where
  "parse_awidth pd errno s =
     (let (v, n, errno) = strtoul 0 s errno in
      if n \<noteq> 0 \<and> errno = 0 then
        (if v = 16 then Done (V120_A16 pd) else if v = 24 then Done (V120_A24 pd)
         else if v = 32 then Done (V120_A32 pd) else Exit EXIT_FAILURE)
      else Exit EXIT_FAILURE)"

definition parse_dwidth :: "string \<Rightarrow> (vme_dwidth \<times> bool) outcome" where
  "parse_dwidth s =
     (case s of
        [] \<Rightarrow> Exit EXIT_FAILURE
      | c # _ \<Rightarrow>
          if c = CHR ''b'' then Done (VME_D8EO, False)
          else if c = CHR ''s'' then Done (VME_D16, True)
          else if c = CHR ''w'' then Done (VME_D16, False)
          else if c = CHR ''l'' then Done (VME_D32, False)
          else Exit EXIT_FAILURE)"

text \<open>The \<open>long\<close> of \<open>strtol\<close> is stored in an \<open>int\<close> before it is compared.\<close>

definition parse_crate :: "int \<Rightarrow> string \<Rightarrow> int outcome" where
  "parse_crate errno s =
     (if s \<noteq> [] \<and> hd s = CHR ''A'' then Done ALL_CRATES
      else
        (let (l, n, errno) = strtol 0 s errno;
             v = sint (of_int l :: u32) in
         if n = 0 \<or> errno \<noteq> 0 \<or> 15 < v then Exit EXIT_FAILURE else Done v))"

definition parse_slot0 :: "string \<Rightarrow> bool outcome" where
  "parse_slot0 s =
     (case s of
        [] \<Rightarrow> Exit EXIT_FAILURE
      | c # _ \<Rightarrow>
          if c_toupper c \<in> {CHR ''0'', CHR ''F'', CHR ''N''} then Done False
          else if c_toupper c \<in> {CHR ''1'', CHR ''T'', CHR ''Y''} then Done True
          else Exit EXIT_FAILURE)"

definition parse_speed :: "pd_consts \<Rightarrow> int \<Rightarrow> string \<Rightarrow> u64 outcome" where
  "parse_speed pd errno s =
     (let (v, n, errno) = strtoul 0 s errno in
      if n \<noteq> 0 \<and> errno = 0 then
        (if v = 0 then Done (V120_SSLOW pd) else if v = 1 then Done (V120_SMED pd)
         else if v = 2 then Done (V120_SFAST pd) else if v = 3 then Done (V120_SMAX pd)
         else Exit EXIT_FAILURE)
      else Exit EXIT_FAILURE)"

definition default_args :: "pd_consts \<Rightarrow> v120_args" where
  "default_args pd =
     \<lparr>a_crate = - 1, a_awidth = V120_A16 pd, a_dwidth = VME_D16, a_split = False, a_binary = False,
      a_vmeprint = False, a_fpga = False, a_fair = False, a_speed = V120_SMED pd, a_slot0 = False,
      a_verbose = False\<rparr>"

definition parse_option :: "pd_consts \<Rightarrow> int \<Rightarrow> v120_args \<Rightarrow> char \<times> string \<Rightarrow> v120_args outcome" where
  "parse_option pd errno args opn =
     (let (opt, optarg) = opn in
      if opt = CHR ''a'' then obind (parse_awidth pd errno optarg) (\<lambda>v. Done (args\<lparr>a_awidth := v\<rparr>))
      else if opt = CHR ''b'' then Done (args\<lparr>a_binary := True\<rparr>)
      else if opt = CHR ''d'' then
        obind (parse_dwidth optarg) (\<lambda>(v, split). Done (args\<lparr>a_dwidth := v, a_split := split\<rparr>))
      else if opt = CHR ''e'' then Done (args\<lparr>a_vmeprint := True\<rparr>)
      else if opt = CHR ''F'' then Done (args\<lparr>a_fair := True\<rparr>)
      else if opt = CHR ''f'' then Done (args\<lparr>a_fpga := True\<rparr>)
      else if opt = CHR ''m'' then obind (parse_crate errno optarg) (\<lambda>v. Done (args\<lparr>a_crate := v\<rparr>))
      else if opt = CHR ''s'' then obind (parse_speed pd errno optarg) (\<lambda>v. Done (args\<lparr>a_speed := v\<rparr>))
      else if opt = CHR ''S'' then obind (parse_slot0 optarg) (\<lambda>v. Done (args\<lparr>a_slot0 := v\<rparr>))
      else if opt = CHR ''v'' then Done (args\<lparr>a_verbose := True\<rparr>)
      else if opt = CHR ''V'' then Exit EXIT_SUCCESS
      else if opt = CHR ''?'' then Exit EXIT_SUCCESS
      else Exit EXIT_FAILURE)"

definition parse_cmdline :: "pd_consts \<Rightarrow> int \<Rightarrow> (char \<times> string) list \<Rightarrow> v120_args outcome" where
  "parse_cmdline pd errno opns =
     fold (\<lambda>opn m. obind m (\<lambda>args. parse_option pd errno args opn)) opns (Done (default_args pd))"

section \<open>Subcommands\<close>

datatype subcommand = FlashUpgrade | Report | Help | Reset | Write | Read | Sysreset | Reinit
  | LoopbackUpgrade | Requester | Scan

datatype report = ReportFlash | ReportIdent | ReportPower | ReportUptime | ReportStatus
  | ReportMonitor | ReportPcie

text \<open>The tables are searched in order; the chosen entry is run with \<open>optind\<close> behind its name.\<close>

fun lut_find :: "(string \<times> 'c) list \<Rightarrow> string \<Rightarrow> 'c option" where
  "lut_find [] subc = None"
| "lut_find ((name, fn) # t) subc = (if subc = name then Some fn else lut_find t subc)"

definition exec_subc :: "string list \<Rightarrow> nat \<Rightarrow> (string \<times> 'c) list \<Rightarrow> ('c \<times> nat) option" where
  "exec_subc argv optind lut =
     (if length argv \<le> optind then None
      else case lut_find lut (argv ! optind) of None \<Rightarrow> None | Some fn \<Rightarrow> Some (fn, optind + 1))"

definition subc_lut :: "(string \<times> subcommand) list" where
  "subc_lut =
     [(''flash-upgrade'', FlashUpgrade), (''report'', Report), (''help'', Help), (''reset'', Reset),
      (''write'', Write), (''read'', Read), (''sysreset'', Sysreset), (''reinit'', Reinit),
      (''loopback-upgrade'', LoopbackUpgrade), (''requester'', Requester), (''scan'', Scan)]"

definition rept_lut :: "(string \<times> report) list" where
  "rept_lut =
     [(''flash'', ReportFlash), (''ident'', ReportIdent), (''id'', ReportIdent), (''power'', ReportPower),
      (''uptime'', ReportUptime), (''status'', ReportStatus), (''monitor'', ReportMonitor),
      (''pcie'', ReportPcie), (''pci'', ReportPcie)]"

section \<open>Running on one or all crates\<close>

type_synonym 'w crate_fn = "v120_handle \<Rightarrow> os \<Rightarrow> 'w \<Rightarrow> (int \<times> v120_handle \<times> os \<times> 'w) outcome"

text \<open>The loop of \<open>-m A\<close>, with fuel for the crates; \<open>sep\<close> prints the line between two crates.\<close>

fun dfec_loop :: "nat \<Rightarrow> v120_env \<Rightarrow> 'w crate_fn \<Rightarrow> ('w \<Rightarrow> 'w) \<Rightarrow> bool \<Rightarrow> v120_handle option \<Rightarrow> os \<Rightarrow> 'w \<Rightarrow>
    nat \<Rightarrow> int \<Rightarrow> (nat \<times> int \<times> os \<times> 'w) outcome" where
  "dfec_loop 0 env fn sep interm v120 os w cnt ret = NoFuel"
| "dfec_loop (Suc fuel) env fn sep interm v120 os w cnt ret =
     obind (v120_next env v120 os) (\<lambda>(ho, os).
       case ho of
         None \<Rightarrow> Done (cnt, ret, os, w)
       | Some h \<Rightarrow>
           (let w = (if 0 < cnt \<and> \<not> interm then sep w else w) in
            obind (fn h os w) (\<lambda>(ret, h, os, w).
              dfec_loop fuel env fn sep interm (Some h) os w (cnt + 1) ret)))"

declare dfec_loop.simps(2) [simp del]

definition do_for_each_crate ::
  "nat \<Rightarrow> v120_env \<Rightarrow> v120_args \<Rightarrow> 'w crate_fn \<Rightarrow> ('w \<Rightarrow> 'w) \<Rightarrow> bool \<Rightarrow> bool \<Rightarrow> os \<Rightarrow> 'w \<Rightarrow>
    (int \<times> os \<times> 'w) outcome" where
  "do_for_each_crate fuel env args fn sep interm notall os w =
     (if a_crate args = ALL_CRATES then
        if notall then Done (EXIT_FAILURE, os, w)
        else obind (dfec_loop fuel env fn sep interm None os w 0 EXIT_FAILURE) (\<lambda>(cnt, ret, os, w).
          Done (if cnt = 0 then EXIT_FAILURE else ret, os, w))
      else
        obind (if a_crate args < 0 then v120_next env None os
               else Done (v120_open env (a_crate args) os)) (\<lambda>(ho, os).
          case ho of
            None \<Rightarrow> Done (EXIT_FAILURE, os, w)
          | Some h \<Rightarrow>
              obind (fn h os w) (\<lambda>(ret, h, os, w).
                obind (v120_close h os) (\<lambda>os. Done (ret, os, w)))))"

text \<open>\<open>v120 reinit\<close>.\<close>

definition persist_one :: "v120_env \<Rightarrow> nat \<Rightarrow> 'w crate_fn" where
  "persist_one env nr h os w =
     Done (if v120_persist env nr h \<noteq> 0 then EXIT_FAILURE else EXIT_SUCCESS, h, os, w)"

definition persist :: "nat \<Rightarrow> v120_env \<Rightarrow> nat \<Rightarrow> v120_args \<Rightarrow> os \<Rightarrow> 'w \<Rightarrow> (int \<times> os \<times> 'w) outcome" where
  "persist fuel env nr args os w = do_for_each_crate fuel env args (persist_one env nr) id True False os w"

section \<open>All crates, once each\<close>

definition ctrl_name :: "nat \<Rightarrow> string" where
  "ctrl_name c = snprintf_text 19 (sDEVNAME_CTRL @ fmt_u c)"

definition attached :: "v120_env \<Rightarrow> nat \<Rightarrow> bool" where
  "attached env c \<longleftrightarrow> (\<exists>fd. ve_open env (ctrl_name c) = Inr fd)"

definition mapping_works :: "v120_env \<Rightarrow> bool" where
  "mapping_works env \<longleftrightarrow> ve_calloc env \<and> env_fds env \<and>
     (\<forall>n sz offs. \<exists>ptr. ve_mmap env n sz offs = Some ptr \<and> ptr \<noteq> 0)"

definition same_os :: "os \<Rightarrow> os \<Rightarrow> bool" where
  "same_os a b \<longleftrightarrow> os_maps a = os_maps b \<and> os_fds a = os_fds b"

lemma unat_crate: "c < 16 \<Longrightarrow> unat (of_nat c :: u32) = c"
  by (simp add: unsigned_of_nat take_bit_nat_eq_self)

lemma open_attached:
  assumes "mapping_works env" "c < 16" "attached env c"
  obtains h os' where "v120_open env (int c) os = (Some h, os')" "h_crateno h = of_nat c"
    "\<exists>os2. v120_close h os' = Done os2 \<and> same_os os2 os"
proof -
  obtain fd where fd: "ve_open env (ctrl_name c) = Inr fd" "0 \<le> fd"
    using assms(1,3) by (auto simp: attached_def mapping_works_def env_fds_def)
  obtain ptr where ptr: "ve_mmap env (length (os_maps os)) V120_MMAP_SIZE 0 = Some ptr" "ptr \<noteq> 0"
    using assms(1) unfolding mapping_works_def by blast
  define h where "h = \<lparr>h_list = [], h_fd_ctrl = fd, h_fd_vme = - 1, h_fd_irq = - 1,
      h_bar = ve_device env (of_int (int c)), h_mapptr = ptr, h_errnum = 0, h_mmlist = [], h_crateno = of_int (int c)\<rparr>"
  define os1 where "os1 = os\<lparr>os_fds := fd # os_fds os, os_maps := (ptr, V120_MMAP_SIZE) # os_maps os\<rparr>"
  have "v120_open env (int c) os = (Some h, os1)"
    using assms(1,2) fd ptr unat_crate [OF assms(2)]
    by (simp add: open_eval mapping_works_def h_def os1_def
        ctrl_name_def)
  moreover have "\<exists>os2. v120_close h os1 = Done os2 \<and> same_os os2 os"
    using ptr(2)
    by (simp add: v120_close_def v120_cleanup_def v120_clean_mem_list.simps h_def os1_def sys_munmap_def
        v120_delete_vme_list_def os_close_def same_os_def)
  ultimately show thesis
    using that by (simp add: h_def)
qed

lemma open_detached:
  assumes "c < 16" "\<not> attached env c"
  shows "\<exists>os'. v120_open env (int c) os = (None, os') \<and> same_os os' os"
  using assms unat_crate [OF assms(1)]
  by (cases "ve_open env (ctrl_name c)")
    (auto simp: open_eval attached_def ctrl_name_def same_os_def)

lemma next_from_first:
  assumes "mapping_works env" "i \<le> 16" "same_os os os0"
  shows "case List.find (attached env) [i..<16] of
      None \<Rightarrow> \<exists>os'. v120_next_from env (int i) os = (None, os') \<and> same_os os' os0
    | Some c \<Rightarrow> c < 16 \<and> (\<exists>h os'. v120_next_from env (int i) os = (Some h, os') \<and> h_crateno h = of_nat c \<and>
        (\<exists>os2. v120_close h os' = Done os2 \<and> same_os os2 os0))"
  using assms(2,3)
proof (induction "16 - i" arbitrary: i os)
  case 0
  then show ?case by (simp add: v120_next_from.simps)
next
  case (Suc n)
  then have i: "i < 16" and up: "[i..<16] = i # [Suc i..<16]"
    by (simp_all add: upt_conv_Cons)
  show ?case
  proof (cases "attached env i")
    case True
    obtain h os' where o: "v120_open env (int i) os = (Some h, os')" "h_crateno h = of_nat i"
      "\<exists>os2. v120_close h os' = Done os2 \<and> same_os os2 os"
      using open_attached [OF assms(1) i True] .
    then have "v120_next_from env (int i) os = (Some h, os')"
      using i by (subst v120_next_from.simps) simp
    then show ?thesis
      using True i o Suc.prems(2) by (auto simp: up same_os_def)
  next
    case False
    obtain os1 where o: "v120_open env (int i) os = (None, os1)" "same_os os1 os"
      using open_detached [OF i False] by blast
    have eq: "v120_next_from env (int i) os = v120_next_from env (int (Suc i)) os1"
      using i o by (subst v120_next_from.simps) (simp add: add.commute)
    have so: "same_os os1 os0" using o Suc.prems(2) by (simp add: same_os_def)
    have n: "n = 16 - Suc i" "Suc i \<le> 16" using Suc.hyps(2) i by simp_all
    show ?thesis
      using Suc.hyps(1) [OF n so] False unfolding eq up by simp
  qed
qed

lemma filter_find:
  "filter P [i..<n] = (case List.find P [i..<n] of None \<Rightarrow> [] | Some c \<Rightarrow> c # filter P [Suc c..<n])"
proof (induction "n - i" arbitrary: i)
  case (Suc k)
  then have "[i..<n] = i # [Suc i..<n]" by (simp add: upt_conv_Cons)
  with Suc show ?case by simp
qed simp

text \<open>
  What a loop over the crates needs of an iterator: at position \<open>i\<close> everything below \<open>i\<close> has been
  visited, the next call delivers the lowest crate from there on, and \<open>over\<close> holds when none is left.
\<close>

locale crate_walk =
  fixes next_crate :: "'h option \<Rightarrow> 'o \<Rightarrow> ('h option \<times> 'o) outcome"
    and num :: "'h \<Rightarrow> nat"
    and present :: "nat \<Rightarrow> bool"
    and limit :: nat
    and pos :: "nat \<Rightarrow> 'h option \<Rightarrow> 'o \<Rightarrow> bool"
    and over :: "'o \<Rightarrow> bool"
  assumes next_none: "pos i hnd os \<Longrightarrow> List.find present [i..<limit] = None \<Longrightarrow>
      \<exists>os'. next_crate hnd os = Done (None, os') \<and> over os'"
    and next_some: "pos i hnd os \<Longrightarrow> List.find present [i..<limit] = Some c \<Longrightarrow>
      \<exists>h os'. next_crate hnd os = Done (Some h, os') \<and> num h = c \<and> pos (Suc c) (Some h) os'"

locale crate_loop = crate_walk next_crate num present limit pos over
  for next_crate :: "'h option \<Rightarrow> 'o \<Rightarrow> ('h option \<times> 'o) outcome" and num :: "'h \<Rightarrow> nat"
    and present :: "nat \<Rightarrow> bool" and limit :: nat and pos :: "nat \<Rightarrow> 'h option \<Rightarrow> 'o \<Rightarrow> bool"
    and over :: "'o \<Rightarrow> bool" +
  fixes loop :: "nat \<Rightarrow> 'h option \<Rightarrow> 'o \<Rightarrow> 'w \<Rightarrow> nat \<Rightarrow> int \<Rightarrow> (nat \<times> int \<times> 'o \<times> 'w) outcome"
    and code :: "nat \<Rightarrow> int"
    and work :: "nat \<Rightarrow> 'w \<Rightarrow> 'w"
  assumes loop_Suc: "loop (Suc fuel) hnd os w cnt ret =
      obind (next_crate hnd os) (\<lambda>(ho, os).
        case ho of None \<Rightarrow> Done (cnt, ret, os, w)
        | Some h \<Rightarrow> loop fuel (Some h) os (work (num h) w) (cnt + 1) (code (num h)))"
begin

lemma loop_visits:
  assumes "pos i hnd os" "limit - i < fuel"
  shows "\<exists>os'. loop fuel hnd os w cnt ret =
      Done (cnt + length (filter present [i..<limit]),
            (if filter present [i..<limit] = [] then ret else code (last (filter present [i..<limit]))),
            os', fold work (filter present [i..<limit]) w) \<and> over os'"
  using assms
proof (induction fuel arbitrary: i hnd os w cnt ret)
  case (Suc fuel)
  show ?case
  proof (cases "List.find present [i..<limit]")
    case None
    then have "filter present [i..<limit] = []" by (simp add: filter_find)
    then show ?thesis using next_none [OF Suc.prems(1) None] by (auto simp: loop_Suc)
  next
    case (Some c)
    obtain h os1 where h: "next_crate hnd os = Done (Some h, os1)" "num h = c" "pos (Suc c) (Some h) os1"
      using next_some [OF Suc.prems(1) Some] by blast
    have "c \<in> set [i..<limit]" using Some find_in_set by metis
    then have "limit - Suc c < fuel" using Suc.prems(2) unfolding set_upt by fastforce
    from Suc.IH [OF h(3) this, of "work c w" "cnt + 1" "code c"] show ?thesis
      by (auto simp: loop_Suc h(1,2) filter_find [of _ i] Some)
  qed
qed simp

end

text \<open>\<open>v120_next\<close> closes the handle it is given and goes on behind it; \<open>os0\<close> is the state without any.\<close>

definition walk_at :: "v120_env \<Rightarrow> os \<Rightarrow> nat \<Rightarrow> v120_handle option \<Rightarrow> os \<Rightarrow> bool" where
  "walk_at env os0 i hnd os \<longleftrightarrow> mapping_works env \<and> i \<le> 16 \<and>
     (\<exists>os1. (case hnd of None \<Rightarrow> i = 0 \<and> os1 = os
       | Some h \<Rightarrow> i = Suc (unat (h_crateno h)) \<and> v120_close h os = Done os1) \<and> same_os os1 os0)"

lemma next_at:
  assumes "walk_at env os0 i hnd os"
  obtains os1 where "v120_next env hnd os = Done (v120_next_from env (int i) os1)" "same_os os1 os0"
    "mapping_works env" "i \<le> 16"
proof -
  obtain os1 where os1: "case hnd of None \<Rightarrow> i = 0 \<and> os1 = os
      | Some h \<Rightarrow> i = Suc (unat (h_crateno h)) \<and> v120_close h os = Done os1" "same_os os1 os0"
      "mapping_works env" "i \<le> 16"
    using assms unfolding walk_at_def by blast
  have "v120_next env hnd os = Done (v120_next_from env (int i) os1)"
  proof (cases hnd)
    case (Some h)
    then have h: "i = Suc (unat (h_crateno h))" "v120_close h os = Done os1" using os1(1) by auto
    then have "unat (h_crateno h + 1) = i" using os1(4) by (subst unat_add_u32) simp_all
    then have "sint (h_crateno h + 1) = int i" using os1(4) by (simp add: sint_small)
    then show ?thesis using Some h by (simp add: v120_next_def)
  qed (use os1(1) in \<open>simp add: v120_next_def\<close>)
  then show thesis using that os1 by blast
qed

interpretation crates: crate_loop "v120_next env" "\<lambda>h. unat (h_crateno h)" "attached env" 16 "walk_at env os0"
  "\<lambda>os. same_os os os0"
  "\<lambda>fuel. dfec_loop fuel env
     (\<lambda>h os w. Done (code (unat (h_crateno h)), h, os, work (unat (h_crateno h)) w)) sep True" code work
  for env :: v120_env and os0 :: os and sep :: "'w \<Rightarrow> 'w" and code :: "nat \<Rightarrow> int" and work :: "nat \<Rightarrow> 'w \<Rightarrow> 'w"
proof (unfold_locales, goal_cases)
  case (1 i hnd os)
  then show ?case by (elim next_at) (use next_from_first 1(2) in fastforce)
next
  case (2 i hnd os c)
  obtain os1 where n: "v120_next env hnd os = Done (v120_next_from env (int i) os1)" "same_os os1 os0"
    "mapping_works env" "i \<le> 16" using 2(1) by (rule next_at)
  then obtain h os2 os3 where "c < 16" "v120_next_from env (int i) os1 = (Some h, os2)" "h_crateno h = of_nat c"
    "v120_close h os2 = Done os3" "same_os os3 os0"
    using next_from_first [OF n(3,4,2)] 2(2) by auto
  then show ?case using n(1,3) unat_crate by (auto simp: walk_at_def)
qed (auto simp: dfec_loop.simps(2) Let_def intro!: arg_cong2 [where f = obind] split: option.split)

end
