(* ===== verification/V120_Rw.thy ===== *)
theory V120_Rw
  imports V120_Cmd
begin

text \<open>
  \<open>v120 write\<close> and \<open>v120 read\<close> (\<open>v120/rw.c\<close>): one region in the last VME page, and a sequence
  of accesses of one size through its base pointer. A write is a triple of the address, the size
  and the stored value; what a read of an address returns is a parameter. \<open>errno\<close> is the global
  of the process, kept in the operating system's record.
\<close>

section \<open>Access functions\<close>

type_synonym access = "nat \<times> nat \<times> u32"

text \<open>\<open>put_byte\<close>, \<open>put_word\<close> and \<open>put_dword\<close> differ in the size of the store.\<close>

definition put :: "nat \<Rightarrow> nat \<Rightarrow> u32 \<Rightarrow> access" where
  "put sz dst v = (dst, sz, take_bit (8 * sz) v)"

text \<open>\<open>getb_byte\<close>, \<open>getb_word\<close> and \<open>getb_dword\<close> read a little-endian number from a buffer.\<close>

fun getb :: "nat \<Rightarrow> u8 list \<Rightarrow> u32" where
  "getb 0 bs = 0"
| "getb (Suc n) [] = 0"
| "getb (Suc n) (b # bs) = ucast b OR push_bit 8 (getb n bs)"

definition print_unit :: "nat \<Rightarrow> u32 \<Rightarrow> string" where
  "print_unit sz v = ''0x'' @ fmt_X (2 * sz) (unat (take_bit (8 * sz) v))"

definition printb_unit :: "nat \<Rightarrow> u32 \<Rightarrow> u8 list" where
  "printb_unit sz v = map (\<lambda>i. ucast (drop_bit (8 * i) v)) [0..<sz]"

section \<open>Setting up\<close>

definition set_up_dwidth :: "v120_args \<Rightarrow> nat" where
  "set_up_dwidth args =
     (case a_dwidth args of
        VME_D8EO \<Rightarrow> 1 | VME_D8O \<Rightarrow> 1
      | VME_D16 \<Rightarrow> if \<not> a_split args then 2 else 4
      | VME_D32 \<Rightarrow> 4)"

definition rw_region :: "pd_consts \<Rightarrow> v120_args \<Rightarrow> u64 \<Rightarrow> int \<Rightarrow> vme_region" where
  "rw_region pd args address nunits =
     (let len = of_int nunits; config = a_speed args OR a_awidth args;
          (len, config) = (case a_dwidth args of
              VME_D16 \<Rightarrow> (len * 2, config OR V120_D16 pd)
            | VME_D32 \<Rightarrow> (len * 4, config)
            | _ \<Rightarrow> (len, config)) in
      \<lparr>vr_base = None, vr_start_page = 0, vr_end_page = 0, vr_vme_addr = address, vr_len = len,
       vr_config = config, vr_tag = Some ''vrw''\<rparr>)"

definition rw_open_vme ::
  "v120_env \<Rightarrow> pd_consts \<Rightarrow> v120_args \<Rightarrow> u64 \<Rightarrow> int \<Rightarrow> os \<Rightarrow> ((v120_handle \<times> vme_region) option \<times> os) outcome" where
  "rw_open_vme env pd args address nunits os =
     (if a_crate args = ALL_CRATES then Done (None, os)
      else
        obind (if a_crate args < 0 then v120_next env None os
               else Done (v120_open env (a_crate args) os)) (\<lambda>(ho, os).
          case ho of
            None \<Rightarrow> Done (None, os)
          | Some h \<Rightarrow>
              (let h = v120_add_vme_region h (rw_region pd args address nunits);
                   (ret, h, os) = v120_allocate_vme env h os 8191 in
               if ret < 0 then obind (v120_close h os) (\<lambda>os. Done (None, os))
               else Done (Some (h, hd (h_list h)), os))))"

definition parse_address :: "string list \<Rightarrow> nat \<Rightarrow> int \<Rightarrow> (u64 \<times> nat) option" where
  "parse_address argv optind errno =
     (if length argv \<le> optind then None
      else
        (let (v, n, errno) = strtoul 0 (argv ! optind) errno in
         if n = 0 \<or> errno \<noteq> 0 then None else Some (v, optind + 1)))"

definition check_align :: "nat \<Rightarrow> vme_region \<Rightarrow> bool" where
  "check_align sz region \<longleftrightarrow> 1 < sz \<and> vr_vme_addr region AND of_nat (sz - 1) \<noteq> 0"

section \<open>Tokens from standard input\<close>

text \<open>
  \<open>gettok\<close> stores at most \<open>len\<close> characters and then a NUL behind them. The loop returns the
  characters stored, the character that ended it (already taken from the input) and the rest.
\<close>

fun gettok_loop :: "nat \<Rightarrow> nat \<Rightarrow> string \<Rightarrow> string \<times> char option \<times> string" where
  "gettok_loop len p [] = ([], None, [])"
| "gettok_loop len p (c # cs) =
     (if c_isalnum c \<and> p < len then
        (let (t, e, rest) = gettok_loop len (p + 1) cs in (c # t, e, rest))
      else ([], Some c, cs))"

definition gettok :: "nat \<Rightarrow> string \<Rightarrow> int \<times> string \<times> string" where
  "gettok len inp =
     (case dropWhile c_isspace inp of
        [] \<Rightarrow> (1, [], [])
      | c # cs \<Rightarrow>
          (let (t, e, rest) = gettok_loop len 1 cs in
           (case e of Some c' \<Rightarrow> if \<not> c_isspace c' then - 1 else 0 | None \<Rightarrow> 0, c # t, rest)))"

lemma gettok_loop_rest: "gettok_loop len p cs = (t, e, rest) \<Longrightarrow> length rest \<le> length cs"
  by (induction len p cs arbitrary: t e rest rule: gettok_loop.induct)
    (auto split: if_splits prod.splits intro: le_SucI)

lemma gettok_rest: "gettok len inp = (0, tok, rest) \<Longrightarrow> length rest < length inp"
proof -
  assume g: "gettok len inp = (0, tok, rest)"
  then obtain c cs t e where d: "dropWhile c_isspace inp = c # cs" "gettok_loop len 1 cs = (t, e, rest)"
    by (auto simp: gettok_def split: list.splits prod.splits)
  have "length (dropWhile c_isspace inp) \<le> length inp" by (rule length_dropWhile_le)
  then show ?thesis
    using d gettok_loop_rest [OF d(2)] by simp
qed

section \<open>Writing\<close>

text \<open>The writing loops return the count or -1, the accesses in order, and \<open>errno\<close>.\<close>

function v120_write_stdin_ascii :: "nat \<Rightarrow> nat \<Rightarrow> string \<Rightarrow> int \<Rightarrow> int \<Rightarrow> int \<times> access list \<times> int" where
  "v120_write_stdin_ascii sz dst inp errno cnt =
     (case gettok 512 inp of (tokres, buffer, rest) \<Rightarrow>
        if tokres \<noteq> 0 then (cnt, [], errno)
        else
          (case strtoul 0 buffer errno of (v, n, errno') \<Rightarrow>
             if n = 0 \<or> errno' \<noteq> 0 then (- 1, [], errno')
             else
               (case v120_write_stdin_ascii sz (dst + sz) rest errno' (cnt + 1) of
                  (r, ws, e) \<Rightarrow> (r, put sz dst (ucast v) # ws, e))))"
  by pat_completeness auto
termination
  by (relation "measure (\<lambda>(sz, dst, inp, errno, cnt). length inp)") (auto dest: gettok_rest [OF sym])

declare v120_write_stdin_ascii.simps [simp del]

definition put_units :: "nat \<Rightarrow> nat \<Rightarrow> u8 list \<Rightarrow> nat \<Rightarrow> access list" where
  "put_units sz dst buffer n = map (\<lambda>i. put sz (dst + i * sz) (getb sz (drop (i * sz) buffer))) [0..<n]"

text \<open>\<open>fread\<close> delivers the complete units that are left, at most \<open>alen\<close>; sizes are 1, 2 or 4.\<close>

function v120_write_stdin_binary :: "nat \<Rightarrow> nat \<Rightarrow> u8 list \<Rightarrow> int \<times> access list" where
  "v120_write_stdin_binary sz dst inp =
     (let alen = 512 div sz; n = min alen (length inp div sz) in
      if n \<noteq> alen \<or> alen * sz = 0 then (int n, put_units sz dst inp n)
      else
        (let (total, ws) = v120_write_stdin_binary sz (dst + n * sz) (drop (alen * sz) inp)
         in (int n + total, put_units sz dst inp n @ ws)))"
  by pat_completeness auto
termination
proof (relation "measure (\<lambda>(sz, dst, inp). length inp)")
  fix sz dst :: nat and inp :: "u8 list" and alen n
  assume a: "alen = 512 div sz" "n = min alen (length inp div sz)" "\<not> (n \<noteq> alen \<or> alen * sz = 0)"
  then have "0 < alen * sz" "alen \<le> length inp div sz" by auto
  then have "alen * sz \<le> length inp"
    by (meson div_times_less_eq_dividend le_trans mult_le_mono1)
  then show "((sz, dst + n * sz, drop (alen * sz) inp), (sz, dst, inp)) \<in> measure (\<lambda>(sz, dst, inp). length inp)"
    using \<open>0 < alen * sz\<close> by (simp del: mult_eq_0_iff nat_0_less_mult_iff)
qed simp

declare v120_write_stdin_binary.simps [simp del]

fun v120_write_args :: "nat \<Rightarrow> nat \<Rightarrow> string list \<Rightarrow> int \<Rightarrow> int \<times> access list \<times> int" where
  "v120_write_args sz dst [] errno = (EXIT_SUCCESS, [], errno)"
| "v120_write_args sz dst (a # as) errno =
     (case strtoul 0 a errno of (v, n, errno') \<Rightarrow>
        if n = 0 \<or> errno' \<noteq> 0 then (EXIT_FAILURE, [], errno')
        else
          (case v120_write_args sz (dst + sz) as errno' of
             (r, ws, e) \<Rightarrow> (r, put sz dst (ucast v) # ws, e)))"

datatype input = Ascii string | Binary "u8 list"

definition v120_write_stdin :: "nat \<Rightarrow> nat \<Rightarrow> bool \<Rightarrow> string \<Rightarrow> u8 list \<Rightarrow> int \<Rightarrow> int \<times> access list \<times> int" where
  "v120_write_stdin sz base binary txt raw errno =
     (let (cnt, ws, errno) =
            (if binary then (case v120_write_stdin_binary sz base raw of (c, ws) \<Rightarrow> (c, ws, errno))
             else v120_write_stdin_ascii sz base txt errno 0)
      in (if cnt \<le> 0 then EXIT_FAILURE else EXIT_SUCCESS, ws, errno))"

text \<open>The bus status of the last access, for \<open>-e\<close>.\<close>

definition print_trans_data :: "u32 \<Rightarrow> string" where
  "print_trans_data transdata =
     (if transdata AND 16 \<noteq> 0 then ''AF '' else '''') @
     (if transdata AND 4 \<noteq> 0 then ''RETRY '' else '''') @
     (if transdata AND 8 \<noteq> 0 then ''BTO '' else '''') @
     (if transdata AND 2 \<noteq> 0 then ''BERR '' else '''') @
     (if transdata AND 1 \<noteq> 0 then ''DTACK '' else '''') @
     fmt_u (unat ((drop_bit 16 transdata AND 0xFFFF) * 8)) @ '' ns'' @ [char_of (10 :: nat)]"

text \<open>The result of a write: the exit code, the accesses, the text for standard error, and the
  operating system after the handle was closed.\<close>

definition v120_write ::
  "v120_env \<Rightarrow> pd_consts \<Rightarrow> u32 \<Rightarrow> string \<Rightarrow> u8 list \<Rightarrow> string list \<Rightarrow> nat \<Rightarrow> v120_args \<Rightarrow> os \<Rightarrow>
    (int \<times> access list \<times> string \<times> os) outcome" where
  "v120_write env pd vme_acc txt raw argv optind args os =
     (case parse_address argv optind (os_errno os) of
        None \<Rightarrow> Done (EXIT_FAILURE, [], [], os)
      | Some (address, optind) \<Rightarrow>
          (let nunits = length argv - optind in
           obind (rw_open_vme env pd args address (int nunits) os) (\<lambda>(r, os).
             case r of
               None \<Rightarrow> Done (EXIT_FAILURE, [], [], os)
             | Some (h, region) \<Rightarrow>
                 (let sz = set_up_dwidth args; base = the (vr_base region);
                      (ret, ws, errno) =
                        (if check_align sz region then (EXIT_FAILURE, [], os_errno os)
                         else if nunits = 0 then v120_write_stdin sz base (a_binary args) txt raw (os_errno os)
                         else v120_write_args sz base (drop optind argv) (os_errno os));
                      err = (if ret = EXIT_SUCCESS \<and> a_vmeprint args then print_trans_data vme_acc else [])
                  in obind (v120_close h (os\<lparr>os_errno := errno\<rparr>)) (\<lambda>os. Done (ret, ws, err, os))))))"

section \<open>Reading\<close>

definition read_ascii :: "nat \<Rightarrow> nat \<Rightarrow> nat \<Rightarrow> (nat \<Rightarrow> nat \<Rightarrow> u32) \<Rightarrow> string" where
  "read_ascii sz src n mem =
     concat (map (\<lambda>i. (if i = 0 then '''' else '' '') @ print_unit sz (mem (src + i * sz) sz)) [0..<n]) @
     [char_of (10 :: nat)]"

definition read_binary :: "nat \<Rightarrow> nat \<Rightarrow> nat \<Rightarrow> (nat \<Rightarrow> nat \<Rightarrow> u32) \<Rightarrow> u8 list" where
  "read_binary sz src n mem = concat (map (\<lambda>i. printb_unit sz (mem (src + i * sz) sz)) [0..<n])"

text \<open>The count is stored in an \<open>int\<close>; a negative one reads nothing.\<close>

definition read_count :: "string list \<Rightarrow> nat \<Rightarrow> int \<Rightarrow> int option" where
  "read_count argv optind errno =
     (if length argv \<le> optind then Some 1
      else
        (let (v, n, errno) = strtoul 0 (argv ! optind) errno;
             nunits = sint (ucast v :: u32) in
         if n = 0 \<or> errno \<noteq> 0 \<or> nunits = 0 then None else Some nunits))"

definition v120_read ::
  "v120_env \<Rightarrow> pd_consts \<Rightarrow> u32 \<Rightarrow> (nat \<Rightarrow> nat \<Rightarrow> u32) \<Rightarrow> string list \<Rightarrow> nat \<Rightarrow> v120_args \<Rightarrow> os \<Rightarrow>
    (int \<times> string \<times> u8 list \<times> string \<times> os) outcome" where
  "v120_read env pd vme_acc mem argv optind args os =
     (case parse_address argv optind (os_errno os) of
        None \<Rightarrow> Done (EXIT_FAILURE, [], [], [], os)
      | Some (address, optind) \<Rightarrow>
          (case read_count argv optind (os_errno os) of
             None \<Rightarrow> Done (EXIT_FAILURE, [], [], [], os)
           | Some nunits \<Rightarrow>
               obind (rw_open_vme env pd args address nunits os) (\<lambda>(r, os).
                 case r of
                   None \<Rightarrow> Done (EXIT_FAILURE, [], [], [], os)
                 | Some (h, region) \<Rightarrow>
                     (let sz = set_up_dwidth args; src = the (vr_base region) in
                      if check_align sz region then
                        obind (v120_close h os) (\<lambda>os. Done (EXIT_FAILURE, [], [], [], os))
                      else
                        obind (v120_close h os) (\<lambda>os.
                          Done (EXIT_SUCCESS,
                                (if a_binary args then [] else read_ascii sz src (nat nunits) mem),
                                (if a_binary args then read_binary sz src (nat nunits) mem else []),
                                (if a_vmeprint args then print_trans_data vme_acc else []), os))))))"

section \<open>Facts\<close>

lemma put_units_append:
  assumes "m * sz \<le> length xs"
  shows "put_units sz dst xs m @ put_units sz (dst + m * sz) (drop (m * sz) xs) n = put_units sz dst xs (m + n)"
proof -
  have "put_units sz dst xs (m + n) = put_units sz dst xs m @
      map (\<lambda>i. put sz (dst + i * sz) (getb sz (drop (i * sz) xs))) [m..<m + n]"
    unfolding put_units_def using upt_add_eq_append [of 0 m n] by simp
  moreover have "[m..<m + n] = map (\<lambda>i. i + m) [0..<n]"
    by (subst add.commute [of m n]) (rule map_add_upt [symmetric])
  moreover have "put sz (dst + m * sz + i * sz) (getb sz (drop (i * sz) (drop (m * sz) xs))) =
      put sz (dst + (i + m) * sz) (getb sz (drop ((i + m) * sz) xs))" for i
    by (simp add: add_mult_distrib) (simp add: ac_simps)
  ultimately show ?thesis
    unfolding put_units_def by (simp only: map_map comp_def)
qed

lemma stdin_binary_eq:
  assumes "sz \<in> {1, 2, 4}"
  shows "v120_write_stdin_binary sz dst inp = (int (length inp div sz), put_units sz dst inp (length inp div sz))"
  using assms
proof (induction sz dst inp rule: v120_write_stdin_binary.induct)
  case (1 sz dst inp)
  let ?a = "512 div sz"
  have a: "?a * sz = 512" "0 < sz" "0 < ?a" using 1(2) by auto
  show ?case
  proof (cases "?a \<le> length inp div sz")
    case False
    then show ?thesis
      by (subst v120_write_stdin_binary.simps) (simp add: Let_def min_def)
  next
    case True
    then have len: "512 \<le> length inp"
      using a by (metis div_times_less_eq_dividend le_trans mult_le_mono1)
    have "(length inp - 512) div sz = length inp div sz - ?a"
      using a(1) len 1(2) by auto
    then have "?a + (length inp - 512) div sz = length inp div sz" using True by simp
    moreover have "v120_write_stdin_binary sz (dst + ?a * sz) (drop (?a * sz) inp) =
        (int (length (drop (?a * sz) inp) div sz),
         put_units sz (dst + ?a * sz) (drop (?a * sz) inp) (length (drop (?a * sz) inp) div sz))"
      using 1(1) [OF refl refl _ 1(2)] True a by (simp add: min_def)
    ultimately show ?thesis
      using True a put_units_append [of ?a sz inp dst] len
      by (subst v120_write_stdin_binary.simps) (simp add: Let_def min_def)
  qed
qed

lemma gettok_loop_length: "gettok_loop len p cs = (t, e, rest) \<Longrightarrow> p \<le> len \<Longrightarrow> p + length t \<le> len"
  by (induction len p cs arbitrary: t e rest rule: gettok_loop.induct)
    (force split: if_splits prod.splits)+

end
