(* ===== verification/V120_Monitor.thy ===== *)
theory V120_Monitor
  imports V120_Handle
begin

text \<open>
  The monitor registers of \<open>include/V120.h\<close> and their dump as text by \<open>v120_snprint_monitor\<close>
  and \<open>v120_fprint_monitor\<close>.
\<close>

record v120_monitor =
  mon_ctl :: u32
  mon_trans :: u32
  mon_resp :: u32
  mon_addr :: u64
  mon_data :: u64

section \<open>The fields of the registers\<close>

definition V120_MON_CTL_IACK :: u32 where "V120_MON_CTL_IACK = 0x80000000"
definition V120_MON_CTL_READ :: u32 where "V120_MON_CTL_READ = 0x20000000"
definition V120_MON_CTL_WRITE :: u32 where "V120_MON_CTL_WRITE = 0x10000000"
definition V120_MON_CTL_RETRY :: u32 where "V120_MON_CTL_RETRY = 0x8000"
definition V120_MON_CTL_BTO :: u32 where "V120_MON_CTL_BTO = 0x4000"
definition V120_MON_CTL_BERR :: u32 where "V120_MON_CTL_BERR = 0x2000"
definition V120_MON_CTL_DTACK :: u32 where "V120_MON_CTL_DTACK = 0x1000"
definition V120_MON_CTL_OS :: u32 where "V120_MON_CTL_OS = 0x2"
definition V120_MON_CTL_ENABLE :: u32 where "V120_MON_CTL_ENABLE = 0x1"
definition V120_MON_TRANS_IACK :: u32 where "V120_MON_TRANS_IACK = 0x20000"
definition V120_MON_TRANS_WRITE :: u32 where "V120_MON_TRANS_WRITE = 0x10000"
definition V120_MON_TRANS_SRC_MASK :: u32 where "V120_MON_TRANS_SRC_MASK = 0x3000"
definition V120_MON_TRANS_LWORD :: u32 where "V120_MON_TRANS_LWORD = 0x400"
definition V120_MON_TRANS_DS1 :: u32 where "V120_MON_TRANS_DS1 = 0x200"
definition V120_MON_TRANS_DS0 :: u32 where "V120_MON_TRANS_DS0 = 0x100"
definition V120_MON_TRANS_AM_MASK :: u32 where "V120_MON_TRANS_AM_MASK = 0x3F"
definition V120_MON_RESP_RETRY :: u32 where "V120_MON_RESP_RETRY = push_bit 2 1"
definition V120_MON_RESP_BTO :: u32 where "V120_MON_RESP_BTO = push_bit 3 1"
definition V120_MON_RESP_BERR :: u32 where "V120_MON_RESP_BERR = push_bit 1 1"
definition V120_MON_RESP_DTACK :: u32 where "V120_MON_RESP_DTACK = push_bit 0 1"
definition V120_MON_RESP_TIMER_MASK :: u32 where "V120_MON_RESP_TIMER_MASK = 0xFFFF0000"

definition V120_MON_TRANS_SRC :: "u32 \<Rightarrow> u32" where "V120_MON_TRANS_SRC x = push_bit 12 x"
definition V120_MON_TRANS_SRC_COM :: u32 where "V120_MON_TRANS_SRC_COM = V120_MON_TRANS_SRC 1"
definition V120_MON_TRANS_SRC_PIO :: u32 where "V120_MON_TRANS_SRC_PIO = V120_MON_TRANS_SRC 0"
definition V120_MON_TRANS_SRC_DMA :: u32 where "V120_MON_TRANS_SRC_DMA = V120_MON_TRANS_SRC 2"

section \<open>The text\<close>

definition flag_off :: "u32 \<Rightarrow> u32 \<Rightarrow> string \<Rightarrow> string" where
  "flag_off r msk s = (if r AND msk \<noteq> 0 then '''' else s)"

definition flag_on :: "u32 \<Rightarrow> u32 \<Rightarrow> string \<Rightarrow> string" where
  "flag_on r msk s = (if r AND msk \<noteq> 0 then s else '''')"

definition NL :: string where "NL = [char_of (10 :: nat)]"

definition trans_src_str :: "u32 \<Rightarrow> string" where
  "trans_src_str transSrc =
     (if transSrc = V120_MON_TRANS_SRC_PIO then ''PIO'' else if transSrc = V120_MON_TRANS_SRC_COM then ''COM''
      else if transSrc = V120_MON_TRANS_SRC_DMA then ''DMA'' else ''UNDEF'')"

text \<open>\<open>MONITOR_PRETTY\<close> with \<open>MONITOR_PRINT_ARGS\<close>.\<close>

definition monitor_pretty :: "v120_monitor \<Rightarrow> string" where
  "monitor_pretty m =
     (let ctrl = mon_ctl m; trans = mon_trans m; resp = mon_resp m; transSrc = trans AND V120_MON_TRANS_SRC_MASK in
      ''CTL:'' @ flag_off ctrl V120_MON_CTL_IACK '' -IACK'' @ flag_off ctrl V120_MON_CTL_READ '' -READ'' @
      flag_off ctrl V120_MON_CTL_WRITE '' -WRITE'' @ flag_off ctrl V120_MON_CTL_RETRY '' -RETRY'' @
      flag_off ctrl V120_MON_CTL_BTO '' -BTO'' @ flag_off ctrl V120_MON_CTL_BERR '' -BERR'' @
      flag_off ctrl V120_MON_CTL_DTACK '' -DTACK'' @ flag_off ctrl V120_MON_CTL_OS '' -OS'' @
      (if ctrl AND V120_MON_CTL_ENABLE \<noteq> 0 then '' ENABLED'' else '' DISABLED'') @ NL @
      ''MONTRANS:'' @ flag_on trans V120_MON_TRANS_IACK '' IACK'' @ flag_on trans V120_MON_TRANS_WRITE '' WRITE'' @
      flag_on trans V120_MON_TRANS_LWORD '' LWORD'' @
      flag_on trans V120_MON_TRANS_DS1 '' DS1'' @ flag_on trans V120_MON_TRANS_DS0 '' DS0'' @
      '' SRC: '' @ trans_src_str transSrc @ '' AM: '' @ fmt_d (sint (trans AND V120_MON_TRANS_AM_MASK)) @ NL @
      ''MON_RESP:'' @ flag_on resp V120_MON_RESP_RETRY '' RETRY'' @ flag_on resp V120_MON_RESP_BTO '' BTO'' @ flag_on resp V120_MON_RESP_BERR '' BERR'' @
      flag_on resp V120_MON_RESP_DTACK '' DTACK'' @ '' TIMER: '' @ fmt_d (sint (resp AND V120_MON_RESP_TIMER_MASK)) @ NL @
      ''ADDRESS: 0x'' @ fmt_X 16 (unat (mon_addr m)) @ NL @
      ''DATA:    0x'' @ fmt_X 16 (unat (mon_data m)) @ NL)"

text \<open>
  The text that ends up in the buffer of \<open>n\<close> bytes, and whether the call returns the buffer:
  \<open>snprintf\<close> returns the length of the complete text, which the code compares with \<open>n\<close>.
\<close>

definition v120_snprint_monitor :: "(int \<Rightarrow> v120_monitor) \<Rightarrow> int \<Rightarrow> nat \<Rightarrow> os \<Rightarrow> (bool \<times> string) \<times> os" where
  "v120_snprint_monitor mon_blk monitor n os =
     (if 4 \<le> monitor then ((False, ''''), os\<lparr>os_errno := EINVAL\<rparr>)
      else
        (let txt = monitor_pretty (mon_blk monitor) in
         if length txt = n then ((True, snprintf_text n txt), os)
         else ((False, snprintf_text n txt), os\<lparr>os_errno := EINVAL\<rparr>)))"

definition v120_fprint_monitor :: "(int \<Rightarrow> v120_monitor) \<Rightarrow> int \<Rightarrow> os \<Rightarrow> string \<times> os" where
  "v120_fprint_monitor mon_blk monitor os =
     (if 4 \<le> monitor then ('''', os\<lparr>os_errno := EINVAL\<rparr>) else (monitor_pretty (mon_blk monitor), os))"

end
