(* ===== verification/V120_Crate.thy ===== *)
theory V120_Crate
  imports V120_Rw V120_Monitor
begin

text \<open>
  The subcommands of \<open>v120\<close> that work on the registers of a crate: macro commands
  (\<open>v120/common.c\<close>), \<open>flash.c\<close>, \<open>report.c\<close>, \<open>requester.c\<close>, \<open>reset.c\<close> and \<open>scan.c\<close>. The
  registers are read and written by name. What the firmware does on a macro command is the
  parameter \<open>dev\<close>; what the macro register answers while it works is a list of polled values.
\<close>

section \<open>The registers of the crates\<close>

record config_regs =
  cr_macro :: u32
  cr_mp0 :: u32
  cr_buf :: "u32 list"
  cr_status :: u32
  cr_uptime :: u32
  cr_requester :: u32
  cr_slot :: u32
  cr_utility :: u32
  cr_dips :: u32
  cr_mfr_id :: u32
  cr_modtype :: u32
  cr_modrev :: u32
  cr_rom_rev :: u32
  cr_serial :: u32
  cr_dash :: u32

record v120_pcie_records =
  pr_status :: u32
  pr_address :: u32
  pr_data :: u64

text \<open>The world of the subcommands: registers, monitors and PCIe records by crate number, the values
  the macro register answers from now on, the macro commands given so far (value, \<open>mp[0]\<close> and
  \<open>buf\<close> at that time), and the text on standard output.\<close>

record cli =
  cl_regs :: "u32 \<Rightarrow> config_regs"
  cl_mons :: "u32 \<Rightarrow> int \<Rightarrow> v120_monitor"
  cl_recs :: "u32 \<Rightarrow> int \<Rightarrow> v120_pcie_records"
  cl_polls :: "u32 list"
  cl_log :: "(u32 \<times> u32 \<times> u32 list) list"
  cl_out :: string

definition out :: "string \<Rightarrow> cli \<Rightarrow> cli" where
  "out s w = w\<lparr>cl_out := cl_out w @ s\<rparr>"

definition put_line :: "string \<Rightarrow> cli \<Rightarrow> cli" where
  "put_line s w = out (s @ NL) w"

definition set_regs :: "u32 \<Rightarrow> config_regs \<Rightarrow> cli \<Rightarrow> cli" where
  "set_regs c r w = w\<lparr>cl_regs := (cl_regs w)(c := r)\<rparr>"

declare set_regs_def [cli_eval] put_line_def [cli_eval] out_def [cli_eval]

definition dashes :: "cli \<Rightarrow> cli" where
  "dashes w = put_line ''---------------------'' w"

section \<open>Macro commands\<close>

definition MACRO_FLST_CMD :: u32 where "MACRO_FLST_CMD = 0x81"
definition MACRO_RESET_CMD :: u32 where "MACRO_RESET_CMD = 0x82"
definition MACRO_ERASE_CMD :: u32 where "MACRO_ERASE_CMD = 0x83"
definition MACRO_REFLASH_CMD :: u32 where "MACRO_REFLASH_CMD = 0x84"
definition MACRO_UNLOCK_CMD :: u32 where "MACRO_UNLOCK_CMD = 0x86"
definition MACRO_IDENT_CMD :: u32 where "MACRO_IDENT_CMD = 0x87"
definition MACRO_FPGA_RESET_CMD :: u32 where "MACRO_FPGA_RESET_CMD = 0xA5"
definition REFLASH_BUFSIZE :: nat where "REFLASH_BUFSIZE = 1024"
definition REFLASH_ARRAYLEN :: nat where "REFLASH_ARRAYLEN = REFLASH_BUFSIZE div 4"

type_synonym firmware = "u32 \<Rightarrow> config_regs \<Rightarrow> config_regs"

definition v120_macro_write :: "firmware \<Rightarrow> u32 \<Rightarrow> u32 \<Rightarrow> cli \<Rightarrow> cli" where
  "v120_macro_write dev c val w =
     (let r = (cl_regs w c)\<lparr>cr_macro := val\<rparr> in
      set_regs c (dev val r) (w\<lparr>cl_log := cl_log w @ [(val, cr_mp0 r, cr_buf r)]\<rparr>))"

text \<open>The polling loop: without an answer it never ends.\<close>

fun macro_poll :: "u32 list \<Rightarrow> (int \<times> u32 list) outcome" where
  "macro_poll [] = Blocked"
| "macro_poll (val # vs) =
     (if val = 0x8000 then Done (- 1, vs) else if val \<noteq> 0 then macro_poll vs else Done (0, vs))"

definition v120_macro_wait :: "cli \<Rightarrow> (int \<times> cli) outcome" where
  "v120_macro_wait w = obind (macro_poll (cl_polls w)) (\<lambda>(r, vs). Done (r, w\<lparr>cl_polls := vs\<rparr>))"

section \<open>\<open>flash.c\<close>\<close>

definition validate_crate :: "int \<Rightarrow> unit outcome" where
  "validate_crate crateno = (if crateno < 0 \<or> crateno = ALL_CRATES then Exit EXIT_FAILURE else Done ())"

definition unlock_flash :: "firmware \<Rightarrow> u32 \<Rightarrow> cli \<Rightarrow> (int \<times> cli) outcome" where
  "unlock_flash dev c w =
     v120_macro_wait (v120_macro_write dev c MACRO_UNLOCK_CMD (put_line ''Unlocking flash'' w))"

definition erase_flash :: "firmware \<Rightarrow> u32 \<Rightarrow> u32 \<Rightarrow> cli \<Rightarrow> (int \<times> cli) outcome" where
  "erase_flash dev c macro_off w =
     v120_macro_wait (v120_macro_write dev c (MACRO_ERASE_CMD + macro_off)
       (put_line ''Erasing flash. This takes a while.'' w))"

text \<open>\<open>fread\<close> overwrites the front of the buffer and leaves the rest; the words are little-endian.\<close>

definition fread_buf :: "u8 list \<Rightarrow> u8 list \<Rightarrow> u8 list" where
  "fread_buf buf file = take REFLASH_BUFSIZE file @ drop (length (take REFLASH_BUFSIZE file)) buf"

definition buf_words :: "u8 list \<Rightarrow> u32 list" where
  "buf_words buf = map (\<lambda>i. getb 4 (drop (4 * i) buf)) [0..<REFLASH_ARRAYLEN]"

definition write_page :: "firmware \<Rightarrow> u32 \<Rightarrow> u32 \<Rightarrow> u8 list \<Rightarrow> u32 \<Rightarrow> cli \<Rightarrow> cli" where
  "write_page dev c pgno buf macro_off w =
     (let w = put_line (''Writing page number '' @ fmt_u (unat pgno) @ ''.'') w;
          w = set_regs c ((cl_regs w c)\<lparr>cr_buf := buf_words buf @ drop REFLASH_ARRAYLEN (cr_buf (cl_regs w c)),
                                         cr_mp0 := pgno\<rparr>) w
      in v120_macro_write dev c (MACRO_REFLASH_CMD + macro_off) w)"

definition finish_text :: string where
  "finish_text =
     ''End of file input file reached.'' @ NL @
     ''Run 'v120 report flash' to verify, then 'v120 reset' to finish.'' @ NL @
     ''Resetting the V120 will also require a reboot of this PC'' @ NL"

text \<open>The end of file is seen when \<open>fread\<close> gets less than it asked for.\<close>

function reflash_loop :: "firmware \<Rightarrow> u32 \<Rightarrow> u32 \<Rightarrow> u8 list \<Rightarrow> u8 list \<Rightarrow> u32 \<Rightarrow> cli \<Rightarrow> (int \<times> bool \<times> cli) outcome" where
  "reflash_loop dev c pgno buf file macro_off w =
     (let buf = fread_buf buf file; eof = (length file < REFLASH_BUFSIZE) in
      obind (v120_macro_wait (write_page dev c pgno buf macro_off w)) (\<lambda>(result, w).
        if result < 0 \<or> eof then Done (result, eof, w)
        else reflash_loop dev c (pgno + 1) buf (drop REFLASH_BUFSIZE file) macro_off w))"
  by pat_completeness auto
termination
  by (relation "measure (\<lambda>(dev, c, pgno, buf, file, macro_off, w). length file)")
    (auto simp: REFLASH_BUFSIZE_def)

declare reflash_loop.simps [simp del]

definition reflash :: "firmware \<Rightarrow> u32 \<Rightarrow> u8 list \<Rightarrow> u8 list \<Rightarrow> u32 \<Rightarrow> cli \<Rightarrow> (int \<times> cli) outcome" where
  "reflash dev c buf file macro_off w =
     obind (reflash_loop dev c 0 buf file macro_off w) (\<lambda>(result, eof, w).
       Done (result, if result = 0 \<and> eof then out finish_text w else w))"

text \<open>\<open>fs\<close> is the file system and \<open>buf\<close> the uninitialised buffer.\<close>

definition v120_flash_upgrade_off ::
  "v120_env \<Rightarrow> firmware \<Rightarrow> (string \<Rightarrow> u8 list option) \<Rightarrow> u8 list \<Rightarrow> string list \<Rightarrow> nat \<Rightarrow> v120_args \<Rightarrow> u32 \<Rightarrow>
    os \<Rightarrow> cli \<Rightarrow> (int \<times> os \<times> cli) outcome" where
  "v120_flash_upgrade_off env dev fs buf argv optind args macro_off os w =
     obind (validate_crate (a_crate args)) (\<lambda>_.
       if length argv \<le> optind then Done (EXIT_FAILURE, os, w)
       else
         (case v120_open env (a_crate args) os of
            (None, os) \<Rightarrow> Done (EXIT_FAILURE, os, w)
          | (Some h, os) \<Rightarrow>
              (case fs (argv ! optind) of
                 None \<Rightarrow> obind (v120_close h os) (\<lambda>os. Done (EXIT_FAILURE, os, w))
               | Some file \<Rightarrow>
                   obind (obind (unlock_flash dev (h_crateno h) w) (\<lambda>(r, w).
                     if r < 0 then Done (EXIT_FAILURE, w)
                     else obind (erase_flash dev (h_crateno h) macro_off w) (\<lambda>(r, w).
                       if r < 0 then Done (EXIT_FAILURE, w)
                       else obind (reflash dev (h_crateno h) buf file macro_off w) (\<lambda>(r, w).
                         if r < 0 then Done (EXIT_FAILURE, w) else Done (EXIT_SUCCESS, w)))))
                     (\<lambda>(ret, w). obind (v120_close h os) (\<lambda>os. Done (ret, os, w))))))"

definition v120_flash_upgrade where
  "v120_flash_upgrade env dev fs buf argv optind args os w =
     v120_flash_upgrade_off env dev fs buf argv optind args 0 os w"

definition v120_lflash_upgrade where
  "v120_lflash_upgrade env dev fs buf argv optind args os w =
     v120_flash_upgrade_off env dev fs buf argv optind args 0x20 os w"

end
