(* ===== verification/V120_Report.thy ===== *)
theory V120_Report
  imports V120_Crate
begin

text \<open>
  The reports (\<open>v120/report.c\<close>), the bus requester (\<open>requester.c\<close>), the resets (\<open>reset.c\<close>) and
  the scan of the bus (\<open>scan.c\<close>), each as a function on one open crate that
  \<open>do_for_each_crate\<close> applies.
\<close>

section \<open>\<open>report.c\<close>\<close>

definition TAB :: string where "TAB = [char_of (9 :: nat)]"

definition fmt_c :: "u32 \<Rightarrow> string" where
  "fmt_c v = [char_of (unat v mod 256)]"

text \<open>\<open>%-6hd\<close> prints the low half of the argument as a signed short.\<close>

definition print_one_ps :: "string \<Rightarrow> u32 \<Rightarrow> string" where
  "print_one_ps name v =
     pad_left (CHR '' '') 8 name @ '': '' @ pad_right 6 (fmt_d (sint (ucast (v AND 0xFFFF) :: u16))) @ '' AVE  '' @
     pad_right 6 (fmt_d (sint (ucast (drop_bit 16 v AND 0xFFFF) :: u16))) @ '' PP'' @ NL"

text \<open>
  The power and environment registers; the temperature is the value \<open>(double)\<close> makes of its register,
  whose type is declared by the driver. It is printed in tenths: \<open>%.1f\<close> of a tenth of an integer below
  2^53 is exact to the digit printed.
\<close>

record power_regs =
  pw_temperature :: int
  pw_airflow :: u32
  pw_P5Vme :: u32
  pw_P12Vme :: u32
  pw_N12Vme :: u32
  pw_P24Vxi :: u32
  pw_N24Vxi :: u32
  pw_P3_3Vxi :: u32
  pw_N2Vxi :: u32
  pw_N5_2Vxi :: u32
  pw_P1_2Int :: u32
  pw_P2_5Int :: u32
  pw_P3_3Int :: u32

definition fmt_tenths :: "int \<Rightarrow> string" where
  "fmt_tenths t =
     (if t < 0 then ''-'' else '''') @ fmt_u (nat \<bar>t\<bar> div 10) @ ''.'' @ fmt_u (nat \<bar>t\<bar> mod 10)"

definition power_text :: "power_regs \<Rightarrow> string" where
  "power_text p =
     ''Temp:     '' @ fmt_tenths (pw_temperature p) @ NL @
     ''Airflow:  '' @ fmt_u (unat (pw_airflow p AND 0xFFFF)) @ NL @
     print_one_ps ''+5'' (pw_P5Vme p) @ print_one_ps ''+12'' (pw_P12Vme p) @ print_one_ps ''-12'' (pw_N12Vme p) @
     print_one_ps ''+24'' (pw_P24Vxi p) @ print_one_ps ''-24'' (pw_N24Vxi p) @ print_one_ps ''+3.3'' (pw_P3_3Vxi p) @
     print_one_ps ''-2'' (pw_N2Vxi p) @ print_one_ps ''-5'' (pw_N5_2Vxi p) @ print_one_ps ''+1.2'' (pw_P1_2Int p) @
     print_one_ps ''+2.5'' (pw_P2_5Int p) @ print_one_ps ''+3.3'' (pw_P3_3Int p)"

definition print_power :: "(u32 \<Rightarrow> power_regs) \<Rightarrow> cli crate_fn" where
  "print_power ps h os w = Done (EXIT_SUCCESS, h, os, out (power_text (ps (h_crateno h))) w)"

definition print_uptime :: "cli crate_fn" where
  "print_uptime h os w =
     Done (EXIT_SUCCESS, h, os, put_line (fmt_u (unat (cr_uptime (cl_regs w (h_crateno h))))) w)"

definition status_text :: "u32 \<Rightarrow> string" where
  "status_text status =
     ''Status value: 0x'' @ fmt_X 8 (unat status) @ NL @
     TAB @ ''USB '' @ (if status AND 0x400000 \<noteq> 0 then ''connected'' else ''disconnected'') @ NL @
     TAB @ ''IP '' @ (if status AND 0x40000 \<noteq> 0 then ''DHCP'' else ''static'') @ NL @
     TAB @ ''Ethernet link '' @ (if status AND 0x10000 \<noteq> 0 then ''active'' else ''not active'') @
       (if status AND 0x20000 \<noteq> 0 then '' 100Mbps'' else '''') @ NL @
     (if status AND 0x8000 \<noteq> 0 then TAB @ ''Power supply failure'' @ NL else '''') @
     (if status AND 0x4000 \<noteq> 0 then TAB @ ''Air flow warning'' @ NL else '''') @
     (if status AND 0x2000 \<noteq> 0 then TAB @ ''Temperature warning'' @ NL else '''') @
     (if status AND 0x1000 \<noteq> 0 then TAB @ ''Firmware upgrade present but failed'' @ NL else '''') @
     (if status AND 0x800 \<noteq> 0 then TAB @ ''Firmware is a draft version'' @ NL else '''') @
     TAB @ ''Board is '' @ (if status AND 2 \<noteq> 0 then ''VXI'' else ''VME'') @ NL @
     (if status AND 1 \<noteq> 0 then TAB @ ''Firmware upgrade is running'' @ NL else '''')"

definition print_one_status :: "cli crate_fn" where
  "print_one_status h os w =
     Done (EXIT_SUCCESS, h, os, out (status_text (cr_status (cl_regs w (h_crateno h)))) w)"

definition fpgaid :: "firmware \<Rightarrow> u32 \<Rightarrow> cli \<Rightarrow> (int \<times> u32 \<times> cli) outcome" where
  "fpgaid dev c w =
     obind (v120_macro_wait (v120_macro_write dev c MACRO_IDENT_CMD w)) (\<lambda>(ret, w).
       Done (ret, drop_bit 16 (cr_mp0 (cl_regs w c) AND 0xFFFF0000), w))"

definition id_text :: "config_regs \<Rightarrow> int \<Rightarrow> u32 \<Rightarrow> string" where
  "id_text r idresult fpgarev =
     ''Crate ID: '' @ fmt_u (unat (cr_dips r AND 0xF)) @ NL @
     ''Manufacturer ID: 0x'' @ fmt_X 8 (unat (cr_mfr_id r)) @ NL @
     ''Module type: '' @ fmt_u (unat (cr_modtype r)) @ NL @
     ''Hardware Revision: '' @ fmt_c (cr_modrev r) @ NL @
     ''Firmware Revision: '' @ fmt_c (cr_rom_rev r AND 0x7F) @ NL @
     ''Firmware Draft: '' @ fmt_u (unat (drop_bit 16 (cr_rom_rev r AND 0xFFFF0000))) @ NL @
     (if idresult = 0 then
        ''FPGA Revision: '' @ fmt_c (fpgarev AND 0x7F) @ NL @
        ''FPGA Draft: '' @ fmt_u (unat (drop_bit 8 fpgarev AND 0xFF)) @ NL
      else ''FPGA Revision: unavailable'' @ NL @ ''FPGA Draft: unavailable'' @ NL) @
     ''Serial number: '' @ fmt_u (unat (cr_serial r)) @ NL @
     ''Dash number: '' @ fmt_u (unat (cr_dash r)) @ NL"

definition print_one_id :: "firmware \<Rightarrow> cli crate_fn" where
  "print_one_id dev h os w =
     obind (fpgaid dev (h_crateno h) w) (\<lambda>(idresult, fpgarev, w).
       Done (EXIT_SUCCESS, h, os, out (id_text (cl_regs w (h_crateno h)) idresult fpgarev) w))"

text \<open>\<open>print_one_mon\<close>: a negative number stands for four monitors from that number on.\<close>

fun print_mons :: "nat \<Rightarrow> int \<Rightarrow> (int \<Rightarrow> v120_monitor) \<Rightarrow> os \<Rightarrow> cli \<Rightarrow> os \<times> cli" where
  "print_mons 0 monno mons os w = (os, w)"
| "print_mons (Suc i) monno mons os w =
     (let w = put_line (''Monitor number '' @ fmt_d monno) w;
          (txt, os) = v120_fprint_monitor mons monno os
      in print_mons i (monno + 1) mons os (put_line txt w))"

definition print_one_mon :: "int \<Rightarrow> cli crate_fn" where
  "print_one_mon monno h os w =
     (let (os, w) = print_mons (if monno < 0 then 4 else 1) monno (cl_mons w (h_crateno h)) os w
      in Done (EXIT_SUCCESS, h, os, w))"

text \<open>The argument of \<open>report monitor\<close>; the unsigned value is stored in an \<open>int\<close>.\<close>

definition monitor_arg :: "string list \<Rightarrow> nat \<Rightarrow> int \<Rightarrow> int option" where
  "monitor_arg argv optind errno =
     (if length argv \<le> optind then Some (- 1)
      else
        (let (v, n, errno) = strtoul 0 (argv ! optind) errno; mon = sint (ucast v :: u32) in
         if 3 < mon \<or> n = 0 \<or> errno \<noteq> 0 then None else Some mon))"

text \<open>A record is shown unless it is invalid or the access went to the records themselves.\<close>

definition V120_PCIE_MON_STATUS_VALID :: u32 where "V120_PCIE_MON_STATUS_VALID = 0x80000000"
definition V120_PCIE_MON_STATUS_READ :: u32 where "V120_PCIE_MON_STATUS_READ = 0x40000000"
definition V120_PCIE_MON_STATUS_BAR :: u32 where "V120_PCIE_MON_STATUS_BAR = 0x20000000"
definition V120_PCIE_MON_STATUS_START :: u32 where "V120_PCIE_MON_STATUS_START = 0x10000000"
definition V120_PCIE_MON_STATUS_TIMER_LSB :: nat where "V120_PCIE_MON_STATUS_TIMER_LSB = 16"
definition V120_PCIE_MON_STATUS_TIMER_MASK :: u32 where "V120_PCIE_MON_STATUS_TIMER_MASK = 0xFFF0000"
definition V120_PCIE_MON_STATUS_COUNT_LSB :: nat where "V120_PCIE_MON_STATUS_COUNT_LSB = 8"
definition V120_PCIE_MON_STATUS_COUNT_MASK :: u32 where "V120_PCIE_MON_STATUS_COUNT_MASK = 0x7F00"
definition V120_PCIE_MON_STATUS_BYTE_EN_MASK :: u32 where "V120_PCIE_MON_STATUS_BYTE_EN_MASK = 0xFF"

definition pcie_stop :: "v120_pcie_records \<Rightarrow> bool" where
  "pcie_stop p \<longleftrightarrow> pr_status p AND V120_PCIE_MON_STATUS_VALID = 0 \<or> (0x14800 \<le> pr_address p \<and> pr_address p < 0x15000)"

definition pcie_text :: "v120_pcie_records \<Rightarrow> int \<Rightarrow> string" where
  "pcie_text p idx =
     (let status = pr_status p in
      pad_left (CHR '' '') 3 (fmt_d idx) @ '':'' @ NL @ ''----'' @ NL @
      ''STATUS: '' @ (if status AND V120_PCIE_MON_STATUS_READ \<noteq> 0 then ''read'' else ''write'') @ '' bar '' @
        (if status AND V120_PCIE_MON_STATUS_BAR \<noteq> 0 then ''1'' else ''0'') @ '' '' @
        (if status AND V120_PCIE_MON_STATUS_START \<noteq> 0 then ''Start of burst'' else '''') @ NL @
      ''TIME: '' @ fmt_u (unat (drop_bit V120_PCIE_MON_STATUS_TIMER_LSB (status AND V120_PCIE_MON_STATUS_TIMER_MASK) * 8)) @ '' ns'' @ NL @
      ''BURST COUNT: '' @ fmt_u (unat (drop_bit V120_PCIE_MON_STATUS_COUNT_LSB (status AND V120_PCIE_MON_STATUS_COUNT_MASK))) @ NL @
      ''BYTE EN: 0x'' @ fmt_X 2 (unat (status AND V120_PCIE_MON_STATUS_BYTE_EN_MASK)) @ NL @
      ''ADDRESS: 0x'' @ fmt_X 8 (unat (pr_address p)) @ NL @
      ''DATA: 0x'' @ fmt_X 16 (unat (pr_data p)) @ NL)"

definition print_one_pcie_record :: "v120_pcie_records \<Rightarrow> int \<Rightarrow> cli \<Rightarrow> bool \<times> cli" where
  "print_one_pcie_record p idx w = (if pcie_stop p then (True, w) else (False, out (pcie_text p idx) w))"

fun pcie_loop :: "nat list \<Rightarrow> u32 \<Rightarrow> cli \<Rightarrow> cli" where
  "pcie_loop [] c w = w"
| "pcie_loop (i # is) c w =
     (case print_one_pcie_record (cl_recs w c (int i)) (int i) w of
        (True, w) \<Rightarrow> w
      | (False, w) \<Rightarrow> pcie_loop is c (out NL w))"

definition print_pcie_records :: "cli crate_fn" where
  "print_pcie_records h os w =
     (let c = h_crateno h; w = pcie_loop [0..<128] c w;
          w = w\<lparr>cl_recs := (cl_recs w)(c := (cl_recs w c)(0 := (cl_recs w c 0)\<lparr>pr_status := 0xFFFFFFFF\<rparr>))\<rparr>
      in Done (EXIT_SUCCESS, h, os, w))"

text \<open>The text of the flash status: the bytes of the buffer up to the first NUL.\<close>

definition words_bytes :: "u32 list \<Rightarrow> u8 list" where
  "words_bytes ws = concat (map (printb_unit 4) ws)"

definition v120_report_flash_one :: "firmware \<Rightarrow> cli crate_fn" where
  "v120_report_flash_one dev h os w =
     obind (v120_macro_wait (v120_macro_write dev (h_crateno h) MACRO_FLST_CMD (put_line ''Unlocking flash'' w)))
       (\<lambda>(r, w).
         if r < 0 then Done (EXIT_FAILURE, h, os, w)
         else Done (EXIT_SUCCESS, h, os,
           put_line (map (\<lambda>b. char_of (unat b)) (takeWhile (\<lambda>b. b \<noteq> 0)
             (take REFLASH_BUFSIZE (words_bytes (cr_buf (cl_regs w (h_crateno h))))))) w))"

section \<open>The subcommands of \<open>report\<close>\<close>

definition v120_report_power where
  "v120_report_power fuel env ps args os w = do_for_each_crate fuel env args (print_power ps) dashes False False os w"

definition v120_report_uptime where
  "v120_report_uptime fuel env args os w = do_for_each_crate fuel env args print_uptime dashes False False os w"

definition v120_report_ident where
  "v120_report_ident fuel env dev args os w = do_for_each_crate fuel env args (print_one_id dev) dashes False False os w"

definition v120_report_status where
  "v120_report_status fuel env args os w = do_for_each_crate fuel env args print_one_status dashes False False os w"

definition v120_report_monitor where
  "v120_report_monitor fuel env argv optind args os w =
     (case monitor_arg argv optind (os_errno os) of
        None \<Rightarrow> Done (EXIT_FAILURE, os, w)
      | Some mon \<Rightarrow> do_for_each_crate fuel env args (print_one_mon mon) dashes False False os w)"

definition v120_report_pcie where
  "v120_report_pcie fuel env args os w = do_for_each_crate fuel env args print_pcie_records dashes False True os w"

definition v120_report_flash where
  "v120_report_flash fuel env dev args os w =
     do_for_each_crate fuel env args (v120_report_flash_one dev) dashes False False os w"

section \<open>\<open>requester.c\<close>\<close>

definition requester_query :: "config_regs \<Rightarrow> string" where
  "requester_query r =
     ''BR'' @ fmt_d (uint (cr_requester r AND 3)) @
     (if cr_requester r AND 16 \<noteq> 0 then '' FAIR'' else '''') @
     (if cr_slot r \<noteq> 0 then '' ARB'' else '''') @ NL"

definition requester :: "int \<Rightarrow> bool \<Rightarrow> bool \<Rightarrow> cli crate_fn" where
  "requester bus fair slot0 h os w =
     (let c = h_crateno h; r = cl_regs w c;
          w = (if bus < 0 then out (requester_query r) w
               else set_regs c (r\<lparr>cr_requester := of_int bus AND 3 OR (if fair then 16 else 0)\<rparr>) w);
          w = set_regs c ((cl_regs w c)\<lparr>cr_slot := (if slot0 then 0xFFFFFFFF else 0)\<rparr>) w
      in Done (EXIT_SUCCESS, h, os, w))"

definition requester_bus :: "string list \<Rightarrow> nat \<Rightarrow> v120_args \<Rightarrow> int \<Rightarrow> int option" where
  "requester_bus argv optind args errno =
     (if length argv \<le> optind then (if a_fair args then None else Some (- 1))
      else
        (let (v, n, errno) = strtoul 0 (argv ! optind) errno; bus = (ucast v :: u32) in
         if 3 < bus \<or> errno \<noteq> 0 \<or> n = 0 then None else Some (uint bus)))"

definition v120_requester where
  "v120_requester fuel env argv optind args os w =
     (case requester_bus argv optind args (os_errno os) of
        None \<Rightarrow> Done (EXIT_FAILURE, os, w)
      | Some bus \<Rightarrow>
          do_for_each_crate fuel env args (requester bus (a_fair args) (a_slot0 args)) dashes (0 \<le> bus) False os w)"

section \<open>\<open>reset.c\<close>\<close>

definition full_reset :: "firmware \<Rightarrow> v120_args \<Rightarrow> u32 \<Rightarrow> cli \<Rightarrow> cli" where
  "full_reset dev args c w =
     (if a_fpga args then v120_macro_write dev c MACRO_FPGA_RESET_CMD w
      else
        out (TAB @ replicate 38 (CHR ''*'') @ NL @
             TAB @ ''Wait for V120 to finish rebooting,'' @ NL @
             TAB @ ''then reset your computer or use'' @ NL @
             TAB @ ''``v120 reinit'' @ [char_of (39 :: nat), char_of (39 :: nat)] @ '' to reestablish PCIe'' @ NL @
             TAB @ ''connection with V120.'' @ NL @
             TAB @ replicate 38 (CHR ''*'') @ NL)
          (v120_macro_write dev c MACRO_RESET_CMD w))"

definition sys_reset :: "u32 \<Rightarrow> cli \<Rightarrow> cli" where
  "sys_reset c w = set_regs c ((cl_regs w c)\<lparr>cr_utility := 1\<rparr>) w"

definition do_reset :: "v120_env \<Rightarrow> (u32 \<Rightarrow> cli \<Rightarrow> cli) \<Rightarrow> v120_args \<Rightarrow> os \<Rightarrow> cli \<Rightarrow> (int \<times> os \<times> cli) outcome" where
  "do_reset env action args os w =
     (if a_crate args = ALL_CRATES \<or> a_crate args < 0 then Done (EXIT_FAILURE, os, w)
      else
        (case v120_open env (a_crate args) os of
           (None, os) \<Rightarrow> Done (EXIT_FAILURE, os, w)
         | (Some h, os) \<Rightarrow>
             (let w = action (h_crateno h) w in
              obind (v120_close h os) (\<lambda>os. Done (EXIT_SUCCESS, os, w)))))"

definition v120_reset where
  "v120_reset env dev args os w = do_reset env (full_reset dev args) args os w"

definition v120_sysreset where
  "v120_sysreset env args os w = do_reset env sys_reset args os w"

section \<open>\<open>scan.c\<close>\<close>

definition vme_acked :: "u32 \<Rightarrow> bool" where
  "vme_acked la \<longleftrightarrow> la AND 0x1F = 1"

text \<open>
  The loop of \<open>run_scan\<close> over the words of the bus; \<open>acc i\<close> is the bus status after the read of
  word \<open>i\<close>. The result is the count, or -1, and the ranges printed, in bytes.
\<close>

fun run_scan_loop :: "(nat \<Rightarrow> u32) \<Rightarrow> nat list \<Rightarrow> bool \<Rightarrow> nat \<Rightarrow> nat \<Rightarrow> int \<times> (nat \<times> nat) list" where
  "run_scan_loop acc [] found start cnt = (int cnt, [])"
| "run_scan_loop acc (i # is) found start cnt =
     (if acc i = - 1 then (- 1, [])
      else if found \<and> \<not> vme_acked (acc i) then
        (let (r, ps) = run_scan_loop acc is False start cnt in (r, (start, 4 * i) # ps))
      else if \<not> found \<and> vme_acked (acc i) then run_scan_loop acc is True (4 * i) (cnt + 1)
      else run_scan_loop acc is found start cnt)"

definition run_scan :: "(nat \<Rightarrow> u32) \<Rightarrow> nat \<Rightarrow> int \<times> (nat \<times> nat) list" where
  "run_scan acc n = run_scan_loop acc [0..<n] False 0 0"

definition scan_line :: "nat \<times> nat \<Rightarrow> string" where
  "scan_line p = (case p of (start, e) \<Rightarrow> TAB @ ''0x'' @ fmt_X 8 start @ '' ---> 0x'' @ fmt_X 8 e @ NL)"

definition scan_one_helper ::
  "v120_env \<Rightarrow> pd_consts \<Rightarrow> (u32 \<Rightarrow> nat \<Rightarrow> nat \<Rightarrow> u32) \<Rightarrow> nat \<Rightarrow> v120_handle \<Rightarrow> os \<Rightarrow> cli \<Rightarrow>
    int \<times> v120_handle \<times> os \<times> cli" where
  "scan_one_helper env pd acc aw h os w =
     (let top = 2 ^ aw; amod = (if aw = 16 then V120_A16 pd else V120_A24 pd);
          (h, os) = fold (\<lambda>page (h, os).
              (case v120_configure_page env h os (int page) (of_nat (V120_PAGE_SIZE * page))
                      (V120_SFAST pd OR V120_EAUTO pd OR amod) of (_, h, os) \<Rightarrow> (h, os)))
            [0..<top div V120_PAGE_SIZE] (h, os);
          w = put_line (''Scanning A'' @ fmt_u aw @ '' space...'') w;
          (cnt, ranges) = run_scan (acc (h_crateno h) aw) (top div 4);
          w = out (concat (map scan_line ranges)) w
      in if cnt < 0 then (- 1, h, os, w)
         else (0, h, os, put_line (TAB @ fmt_d cnt @ '' cards found'') w))"

definition scan_one :: "v120_env \<Rightarrow> pd_consts \<Rightarrow> (u32 \<Rightarrow> nat \<Rightarrow> nat \<Rightarrow> u32) \<Rightarrow> v120_args \<Rightarrow> cli crate_fn" where
  "scan_one env pd acc args h os w =
     (case v120_get_all_vme env h os of
        (None, h, os) \<Rightarrow> Done (EXIT_FAILURE, h, os, w)
      | (Some vme, h, os) \<Rightarrow>
          (let (r, h, os, w) = scan_one_helper env pd acc 16 h os w in
           if r < 0 then Done (EXIT_FAILURE, h, os, w)
           else if a_awidth args = V120_A24 pd then
             (let (r, h, os, w) = scan_one_helper env pd acc 24 h os w in
              Done (if r < 0 then EXIT_FAILURE else EXIT_SUCCESS, h, os, w))
           else Done (EXIT_SUCCESS, h, os, w)))"

definition v120_scan where
  "v120_scan fuel env pd acc args os w =
     do_for_each_crate fuel env args (scan_one env pd acc args) dashes False False os w"

end
