(* ===== verification/V120_Main.thy ===== *)
theory V120_Main
  imports V120_Report
begin

text \<open>
  The program \<open>v120\<close> as a whole (\<open>main\<close> of \<open>v120/main.c\<close>): the options, the subcommand tables and the
  subcommands behind them. What the outside answers is one record: the operating system, the firmware,
  the files, standard input, and the values of the bus and the registers.
\<close>

record v120_io =
  io_env :: v120_env
  io_pd :: pd_consts
  io_nr :: nat
  io_dev :: firmware
  io_files :: "string \<Rightarrow> u8 list option"
  io_buf :: "u8 list"
  io_vme_acc :: u32
  io_mem :: "nat \<Rightarrow> nat \<Rightarrow> u32"
  io_acc :: "u32 \<Rightarrow> nat \<Rightarrow> nat \<Rightarrow> u32"
  io_power :: "u32 \<Rightarrow> power_regs"
  io_stdin :: string
  io_raw :: "u8 list"
  io_help :: string

text \<open>How a run ends: the exit code, the state, and the stores, binary output and diagnostics of a transfer.\<close>

record v120_run =
  rn_ret :: int
  rn_os :: os
  rn_cli :: cli
  rn_writes :: "access list"
  rn_bin :: "u8 list"
  rn_err :: string

definition run_end :: "int \<Rightarrow> os \<Rightarrow> cli \<Rightarrow> v120_run" where
  "run_end ret os w = \<lparr>rn_ret = ret, rn_os = os, rn_cli = w, rn_writes = [], rn_bin = [], rn_err = ''''\<rparr>"

definition of_cli :: "(int \<times> os \<times> cli) outcome \<Rightarrow> v120_run outcome" where
  "of_cli m = obind m (\<lambda>(ret, os, w). Done (run_end ret os w))"

text \<open>\<open>v120 report\<close>, and the other subcommands; \<open>optind\<close> is behind the name.\<close>

definition run_report ::
  "v120_io \<Rightarrow> nat \<Rightarrow> report \<Rightarrow> string list \<Rightarrow> nat \<Rightarrow> v120_args \<Rightarrow> os \<Rightarrow> cli \<Rightarrow> (int \<times> os \<times> cli) outcome" where
  "run_report io fuel r argv optind args os w =
     (let env = io_env io in
      case r of
        ReportFlash \<Rightarrow> v120_report_flash fuel env (io_dev io) args os w
      | ReportIdent \<Rightarrow> v120_report_ident fuel env (io_dev io) args os w
      | ReportPower \<Rightarrow> v120_report_power fuel env (io_power io) args os w
      | ReportUptime \<Rightarrow> v120_report_uptime fuel env args os w
      | ReportStatus \<Rightarrow> v120_report_status fuel env args os w
      | ReportMonitor \<Rightarrow> v120_report_monitor fuel env argv optind args os w
      | ReportPcie \<Rightarrow> v120_report_pcie fuel env args os w)"

definition report_main ::
  "v120_io \<Rightarrow> nat \<Rightarrow> string list \<Rightarrow> nat \<Rightarrow> v120_args \<Rightarrow> os \<Rightarrow> cli \<Rightarrow> (int \<times> os \<times> cli) outcome" where
  "report_main io fuel argv optind args os w =
     (case exec_subc argv optind rept_lut of
        None \<Rightarrow> Done (EXIT_FAILURE, os, w)
      | Some (r, optind) \<Rightarrow> run_report io fuel r argv optind args os w)"

definition run_subcommand ::
  "v120_io \<Rightarrow> nat \<Rightarrow> subcommand \<Rightarrow> string list \<Rightarrow> nat \<Rightarrow> v120_args \<Rightarrow> os \<Rightarrow> cli \<Rightarrow> v120_run outcome" where
  "run_subcommand io fuel sc argv optind args os w =
     (let env = io_env io; pd = io_pd io; dev = io_dev io in
      case sc of
        FlashUpgrade \<Rightarrow> of_cli (v120_flash_upgrade env dev (io_files io) (io_buf io) argv optind args os w)
      | LoopbackUpgrade \<Rightarrow> of_cli (v120_lflash_upgrade env dev (io_files io) (io_buf io) argv optind args os w)
      | Report \<Rightarrow> of_cli (report_main io fuel argv optind args os w)
      | Help \<Rightarrow> Done (run_end EXIT_SUCCESS os (out (io_help io) w))
      | Reset \<Rightarrow> of_cli (v120_reset env dev args os w)
      | Sysreset \<Rightarrow> of_cli (v120_sysreset env args os w)
      | Reinit \<Rightarrow> of_cli (persist fuel env (io_nr io) args os w)
      | Requester \<Rightarrow> of_cli (v120_requester fuel env argv optind args os w)
      | Scan \<Rightarrow> of_cli (v120_scan fuel env pd (io_acc io) args os w)
      | Write \<Rightarrow>
          obind (v120_write env pd (io_vme_acc io) (io_stdin io) (io_raw io) argv optind args os)
            (\<lambda>(ret, ws, err, os). Done ((run_end ret os w)\<lparr>rn_writes := ws, rn_err := err\<rparr>))
      | Read \<Rightarrow>
          obind (v120_read env pd (io_vme_acc io) (io_mem io) argv optind args os)
            (\<lambda>(ret, txt, bin, err, os). Done ((run_end ret os (out txt w))\<lparr>rn_bin := bin, rn_err := err\<rparr>)))"

text \<open>The options as \<open>getopt_long\<close> delivers them, and the operands from \<open>optind\<close> on.\<close>

definition v120_main ::
  "v120_io \<Rightarrow> nat \<Rightarrow> (char \<times> string) list \<Rightarrow> string list \<Rightarrow> nat \<Rightarrow> os \<Rightarrow> cli \<Rightarrow> v120_run outcome" where
  "v120_main io fuel opns argv optind os w =
     obind (parse_cmdline (io_pd io) (os_errno os) opns) (\<lambda>args.
       case exec_subc argv optind subc_lut of
         None \<Rightarrow> Done (run_end EXIT_FAILURE os w)
       | Some (sc, optind) \<Rightarrow> run_subcommand io fuel sc argv optind args os w)"

end
