(* ===== verification/V120_Props.thy ===== *)
theory V120_Props
  imports V120_Alloc V120_Monitor
begin

text \<open>The properties of the access library.\<close>

section \<open>Placing the regions of a crate\<close>

lemma regions_placed_nth:
  assumes "regions_placed p rs rs' bar"
  shows "length rs' = length rs"
    and "j < length rs \<Longrightarrow> region_placed (p + sum_list (map region_pages (take j rs))) (rs ! j) (rs' ! j) bar"
proof -
  have "length rs' = length rs \<and>
    (\<forall>j < length rs. region_placed (p + sum_list (map region_pages (take j rs))) (rs ! j) (rs' ! j) bar)"
    using assms
  proof (induction rs arbitrary: p rs')
    case (Cons r rs)
    then obtain r' rs'' where "rs' = r' # rs''" by (auto split: list.splits)
    with Cons.prems Cons.IH [of "p + region_pages r" rs''] show ?case
      by (auto simp: less_Suc_eq_0_disj add.assoc)
  qed simp
  then show "length rs' = length rs"
    and "j < length rs \<Longrightarrow> region_placed (p + sum_list (map region_pages (take j rs))) (rs ! j) (rs' ! j) bar"
    by simp_all
qed

lemma byte_page:
  assumes "k < unat (vr_len r)"
  shows "(page_offset r + k) div 0x4000 < region_pages r"
    and "unat (vr_vme_addr r) div 0x4000 + (page_offset r + k) div 0x4000 = (unat (vr_vme_addr r) + k) div 0x4000"
    and "(page_offset r + k) mod 0x4000 = (unat (vr_vme_addr r) + k) mod 0x4000"
proof -
  have "page_offset r + k + 0x4000 \<le> page_offset r + unat (vr_len r) + 0x3FFF"
    using assms by simp
  then have "(page_offset r + k + 0x4000) div 0x4000 \<le> region_pages r"
    unfolding region_pages_def by (rule div_le_mono)
  then show "(page_offset r + k) div 0x4000 < region_pages r" by simp
  have "unat (vr_vme_addr r) + k = (page_offset r + k) + unat (vr_vme_addr r) div 0x4000 * 0x4000"
    by (simp add: page_offset_def)
  then have "(unat (vr_vme_addr r) + k) div 0x4000 = (page_offset r + k) div 0x4000 + unat (vr_vme_addr r) div 0x4000"
    by simp
  then show "unat (vr_vme_addr r) div 0x4000 + (page_offset r + k) div 0x4000 = (unat (vr_vme_addr r) + k) div 0x4000"
    by simp
  show "(page_offset r + k) mod 0x4000 = (unat (vr_vme_addr r) + k) mod 0x4000"
    by (simp add: page_offset_def mod_add_left_eq)
qed


definition env_v :: v120_env where
  "env_v = \<lparr>ve_open = (\<lambda>name. Inr 3), ve_mmap = (\<lambda>n sz offs. Some (0x10000 + offs)), ve_malloc = True,
     ve_calloc = True, ve_ioctl = (\<lambda>fd nr. 0), ve_device = (\<lambda>c x. 0), ve_junk = 0\<rparr>"

lemma env_v_ok: "env_ok env_v" "env_fds env_v"
  by (simp_all add: env_ok_def env_fds_def env_v_def)

definition reg_a :: vme_region where
  "reg_a = \<lparr>vr_base = None, vr_start_page = 0, vr_end_page = 0, vr_vme_addr = 0xC100, vr_len = 0x4000,
     vr_config = 5, vr_tag = Some ''card''\<rparr>"

definition os_zero :: os where "os_zero = \<lparr>os_maps = [], os_fds = [], os_errno = 0\<rparr>"

definition handle_a :: v120_handle where
  "handle_a = \<lparr>h_list = [reg_a], h_fd_ctrl = 3, h_fd_vme = - 1, h_fd_irq = - 1, h_bar = (\<lambda>x. 0),
     h_mapptr = 0x9000, h_errnum = 0, h_mmlist = [], h_crateno = 0\<rparr>"

lemma reg_a_facts: "region_fits reg_a" "region_pages reg_a = 2" "page_offset reg_a = 0x100"
  by (simp_all add: region_fits_def region_pages_def page_offset_def reg_a_def V120_PAGE_COUNT_def)


section \<open>Handles and their resources\<close>

text \<open>C13: no leak and no double release: after any use of a handle - mapping pages, allocating the
  crate, failed calls included, opening the interrupt descriptor, DMA - closing it succeeds and
  leaves exactly the mappings and the open descriptors there were before it was opened. An open
  that fails leaves none behind.\<close>

theorem close_releases_everything:
  assumes "\<forall>name fd. ve_open env name = Inr fd \<longrightarrow> 0 \<le> fd"
  shows "(v120_session env os0 h os \<longrightarrow> (\<exists>os'. v120_close h os = Done os' \<and>
      mset (os_maps os') = mset (os_maps os0) \<and> mset (os_fds os') = mset (os_fds os0))) \<and>
    (v120_open env unit_id os0 = (None, os1) \<longrightarrow> os_maps os1 = os_maps os0 \<and> os_fds os1 = os_fds os0)"
proof -
  have env: "env_fds env" using assms by (simp add: env_fds_def)
  show ?thesis
    using close_gives_back [OF session_owns [OF env]] open_owns [OF env, of unit_id os0 None os1] by auto
qed

theorem close_releases_everything_witness:
  "\<exists>h os os'. v120_session env_v os_zero h os \<and> h_mmlist h \<noteq> [] \<and> v120_close h os = Done os' \<and>
    mset (os_maps os') = {#} \<and> mset (os_fds os') = {#}"
proof -
  obtain h os where o: "v120_open env_v 2 os_zero = (Some h, os)"
    by (simp add: open_eval env_v_def)
  have s: "v120_session env_v os_zero h os" using o by (rule v120_session.opened)
  obtain p h' os' where a: "v120_alloc_pages env_v h os 0 8192 = (Some p, h', os')"
    by (rule alloc_pages_ok [OF env_v_ok(1), of 0 8192 h os]) simp_all
  then have "v120_get_all_vme env_v h os = (Some p, h', os')"
    by (simp add: v120_get_all_vme_def V120_PAGE_COUNT_def)
  then have s': "v120_session env_v os_zero h' os'" using s v120_session.mapped_all by blast
  have "h_mmlist h' \<noteq> []"
    using a by (auto simp: v120_alloc_pages_def v120_add_to_mm_list_def v120_set_errno_def Let_def
        split: if_splits option.splits prod.splits)
  moreover have "\<forall>name fd. ve_open env_v name = Inr fd \<longrightarrow> 0 \<le> fd" by (simp add: env_v_def)
  ultimately show ?thesis
    using close_releases_everything [of env_v os_zero h' os'] s' by (auto simp: os_zero_def) blast
qed

lemma open_maps_only: "os_maps os = os_maps os2 \<Longrightarrow> fst (v120_open env i os) = None \<longleftrightarrow> fst (v120_open env i os2) = None"
  by (simp add: open_eval Let_def split: sum.splits option.splits)

lemma next_from_lowest:
  assumes "env_fds env" "v120_next_from env i os = (ho, os')"
  shows "case ho of
      Some h \<Rightarrow> \<exists>j \<ge> i. j < 16 \<and> h_crateno h = of_int j \<and> (\<forall>k. i \<le> k \<and> k < j \<longrightarrow> fst (v120_open env k os) = None)
    | None \<Rightarrow> \<forall>k. i \<le> k \<and> k < 16 \<longrightarrow> fst (v120_open env k os) = None"
  using assms(2)
proof (induction env i os rule: v120_next_from.induct)
  case (1 env i os)
  obtain r os1 where o: "v120_open env i os = (r, os1)" by fastforce
  show ?case
  proof (cases "i < 16")
    case False
    then show ?thesis using "1.prems" by (subst (asm) v120_next_from.simps) auto
  next
    case True
    show ?thesis
    proof (cases r)
      case (Some h)
      then have "ho = Some h" using "1.prems" True o by (subst (asm) v120_next_from.simps) simp
      moreover have "h_crateno h = of_int i"
        using o Some by (auto simp: v120_open_def Let_def split: if_splits prod.splits option.splits)
      ultimately show ?thesis using True by auto
    next
      case None
      have "fst (v120_open env k os1) = None \<longleftrightarrow> fst (v120_open env k os) = None" for k
        using o None by (intro open_maps_only)
          (auto simp: open_eval os_close_def Let_def
            split: if_splits sum.splits option.splits)
      moreover have "v120_next_from env (i + 1) os1 = (ho, os')"
        using "1.prems" True o None by (subst (asm) v120_next_from.simps) simp
      ultimately show ?thesis
        using "1.IH" [OF True, of r os1] o None
        by (cases ho) (auto, metis add1_zle_eq fst_conv order_le_less zle_add1_eq_le,
            metis add1_zle_eq fst_conv order_le_less)
    qed
  qed
qed

text \<open>\<open>v120_next\<close> finds the lowest crate that can be opened, after the one it was given, which
  it closes; it returns no handle exactly when none can be opened.\<close>

theorem next_finds_lowest_crate:
  assumes "\<forall>name fd. ve_open env name = Inr fd \<longrightarrow> 0 \<le> fd" "v120_next env None os = Done (ho, os')"
  shows "case ho of
      Some h \<Rightarrow> \<exists>j < 16. h_crateno h = of_nat j \<and> (\<forall>k < j. fst (v120_open env (int k) os) = None)
    | None \<Rightarrow> \<forall>k < 16. fst (v120_open env (int k) os) = None"
proof -
  have "env_fds env" using assms(1) by (simp add: env_fds_def)
  note l = next_from_lowest [OF this, of 0 os ho os']
  have n: "v120_next_from env 0 os = (ho, os')" using assms(2) by (simp add: v120_next_def)
  show ?thesis
  proof (cases ho)
    case None
    then show ?thesis using l n by simp
  next
    case (Some h)
    then obtain j where j: "0 \<le> j" "j < 16" "h_crateno h = of_int j"
      "\<forall>k. 0 \<le> k \<and> k < j \<longrightarrow> fst (v120_open env k os) = None"
      using l n by auto
    then show ?thesis
      using Some by (auto intro!: exI [of _ "nat j"])
  qed
qed

theorem next_finds_lowest_crate_witness:
  "\<exists>h os'. v120_next env_v None os_zero = Done (Some h, os') \<and> h_crateno h = 0"
proof -
  obtain h os' where o: "v120_open env_v 0 os_zero = (Some h, os')" "fst (v120_open env_v 0 os_zero) \<noteq> None"
    by (simp add: open_eval env_v_def)
  have run: "v120_next env_v None os_zero = Done (Some h, os')"
    by (simp add: v120_next_def v120_next_from.simps o)
  have "\<forall>name fd. ve_open env_v name = Inr fd \<longrightarrow> 0 \<le> fd" by (simp add: env_v_def)
  from next_finds_lowest_crate [OF this run] obtain j where j: "h_crateno h = of_nat j"
    "\<forall>k < j. fst (v120_open env_v (int k) os_zero) = None"
    by auto
  have "j = 0"
  proof (rule ccontr)
    assume "j \<noteq> 0"
    then have "fst (v120_open env_v (int 0) os_zero) = None" using j(2) by blast
    then show False using o(2) by simp
  qed
  then show ?thesis using run j(1) by simp
qed

section \<open>Deviations\<close>

text \<open>\<open>v120_snprint_monitor\<close> reports success only when the buffer has exactly the length of the
  text, and then the last character did not fit: a returned buffer never holds the complete text,
  and a buffer large enough for it is refused.\<close>

theorem snprint_monitor_never_complete:
  "(fst (fst (v120_snprint_monitor mons monitor n os)) \<longrightarrow>
     snd (fst (v120_snprint_monitor mons monitor n os)) = butlast (monitor_pretty (mons monitor))) \<and>
   (monitor < 4 \<and> length (monitor_pretty (mons monitor)) < n \<longrightarrow>
     v120_snprint_monitor mons monitor n os =
       ((False, monitor_pretty (mons monitor)), os\<lparr>os_errno := EINVAL\<rparr>))"
proof (cases "4 \<le> monitor \<or> length (monitor_pretty (mons monitor)) \<noteq> n")
  case True
  then show ?thesis
    by (auto simp: v120_snprint_monitor_def snprintf_text_def Let_def)
next
  case False
  then show ?thesis
    by (simp add: v120_snprint_monitor_def snprintf_text_def butlast_conv_take Let_def)
qed

definition mon_zero :: v120_monitor where
  "mon_zero = \<lparr>mon_ctl = 0, mon_trans = 0, mon_resp = 0, mon_addr = 0, mon_data = 0\<rparr>"

theorem snprint_monitor_never_complete_witness:
  "fst (fst (v120_snprint_monitor (\<lambda>i. mon_zero) 0 (Suc (length (monitor_pretty mon_zero))) os_zero)) = False"
  using snprint_monitor_never_complete [of "\<lambda>i. mon_zero" 0 "Suc (length (monitor_pretty mon_zero))" os_zero]
  by simp

text \<open>A concrete case: a region that does not fit is refused, but its descriptors have been written by then: from
  the last page on, the store reaches the first configuration register behind the descriptors.\<close>

theorem allocate_overwrites_config:
  "h_bar handle_a 8192 = 0 \<and> fst (v120_allocate_vme env_v handle_a os_zero 8191) = - 1 \<and>
    h_bar (fst (snd (v120_allocate_vme env_v handle_a os_zero 8191))) 8192 = 5 OR push_bit 14 4"
proof -
  have s: "sint (8191 :: u32) = 8191" "sint (8192 :: u32) = 8192" "sint (2 :: u32) = 2"
    by simp_all
  have w: "vr_vme_addr reg_a = 0xC100" "vr_len reg_a = 0x4000" "vr_config reg_a = 5"
    by (simp_all add: reg_a_def)
  show ?thesis
    by (simp add: v120_allocate_vme_def V120_PAGE_COUNT_def handle_a_def V120_PAGE_SIZE_def w s
        v120_get_vme_def v120_set_errno_def Let_def configure_pd_range_eq)
qed

end
