(* ===== verification/V120_Rw_Props.thy ===== *)
theory V120_Rw_Props
  imports V120_Rw V120_Props
begin

text \<open>
  The properties of \<open>v120 read\<close> and \<open>v120 write\<close>: what is written is read back, in both formats,
  and what the two do when the region does not fit their single page.
\<close>

section \<open>Bytes and units\<close>

lemma bit_getb:
  "bit (getb n bs) i \<longleftrightarrow> i < 32 \<and> i div 8 < n \<and> i div 8 < length bs \<and> bit (bs ! (i div 8)) (i mod 8)"
proof (induction n bs arbitrary: i rule: getb.induct)
  case (3 n b bs)
  show ?case
  proof (cases "i < 8")
    case True
    then show ?thesis
      by (auto simp: bit_or_iff bit_push_bit_iff bit_ucast_iff)
  next
    case False
    then obtain k where k: "i = k + 8" by (metis add.commute le_Suc_ex not_less)
    have nb: "\<not> bit b (k + 8)" using bit_imp_le_length [of b "k + 8"] by auto
    have m: "(k + 8) mod 8 = k mod 8" "(k + 8) div 8 = Suc (k div 8)" by simp_all
    show ?thesis
      unfolding k getb.simps using nb 3 [of k] by (auto simp: bit_or_iff bit_push_bit_iff bit_ucast_iff m)
  qed
qed simp_all

lemma byte_of_getb:
  assumes "j < sz" "j < length bs" "sz \<le> 4"
  shows "ucast (drop_bit (8 * j) (take_bit (8 * sz) (getb sz bs))) = bs ! j"
proof (rule bit_word_eqI)
  fix i assume "i < LENGTH(8)"
  then have i: "i < 8" by simp
  then have "(8 * j + i) div 8 = j" "(8 * j + i) mod 8 = i" by simp_all
  then show "bit (ucast (drop_bit (8 * j) (take_bit (8 * sz) (getb sz bs))) :: u8) i = bit (bs ! j) i"
    using assms i by (simp add: bit_ucast_iff bit_drop_bit_eq bit_take_bit_iff bit_getb)
qed

text \<open>Memory behind the window, byte by byte: a store of a unit, and a load of a unit.\<close>

definition store_unit :: "access \<Rightarrow> (nat \<Rightarrow> u8) \<Rightarrow> nat \<Rightarrow> u8" where
  "store_unit w m = (case w of (a, sz, v) \<Rightarrow>
     (\<lambda>x. if a \<le> x \<and> x < a + sz then ucast (drop_bit (8 * (x - a)) v) else m x))"

definition load_unit :: "(nat \<Rightarrow> u8) \<Rightarrow> nat \<Rightarrow> nat \<Rightarrow> u32" where
  "load_unit m a sz = getb sz (map m [a..<a + sz])"

lemma printb_load: "sz \<le> 4 \<Longrightarrow> printb_unit sz (load_unit m a sz) = map m [a..<a + sz]"
proof (rule nth_equalityI)
  fix j assume sz: "sz \<le> 4" and j: "j < length (printb_unit sz (load_unit m a sz))"
  then have "j < sz" by (simp add: printb_unit_def)
  moreover have "ucast (drop_bit (8 * j) (getb sz (map m [a..<a + sz]))) = map m [a..<a + sz] ! j"
  proof (rule bit_word_eqI)
    fix i assume "i < LENGTH(8)"
    then have i: "i < 8" by simp
    then have "(8 * j + i) div 8 = j" "(8 * j + i) mod 8 = i" by simp_all
    then show "bit (ucast (drop_bit (8 * j) (getb sz (map m [a..<a + sz]))) :: u8) i = bit (map m [a..<a + sz] ! j) i"
      using \<open>j < sz\<close> sz i by (simp add: bit_ucast_iff bit_drop_bit_eq bit_getb)
  qed
  ultimately show "printb_unit sz (load_unit m a sz) ! j = map m [a..<a + sz] ! j"
    by (simp add: printb_unit_def load_unit_def)
qed (simp add: printb_unit_def)

lemma store_put_units:
  assumes "sz \<le> 4" "n * sz \<le> length inp"
  shows "fold store_unit (put_units sz dst inp n) m =
    (\<lambda>x. if dst \<le> x \<and> x < dst + n * sz then inp ! (x - dst) else m x)"
  using assms(2)
proof (induction n)
  case (Suc n)
  have "n * sz \<le> length inp" using Suc.prems by simp
  note IH = Suc.IH [OF this]
  have "store_unit (put sz (dst + n * sz) (getb sz (drop (n * sz) inp))) f x =
      (if dst + n * sz \<le> x \<and> x < dst + n * sz + sz then inp ! (x - dst) else f x)" for f x
  proof (cases "dst + n * sz \<le> x \<and> x < dst + n * sz + sz")
    case True
    then have "x - (dst + n * sz) < sz" "n * sz + (x - (dst + n * sz)) = x - dst" by auto
    then show ?thesis
      using True Suc.prems assms(1) byte_of_getb [of "x - (dst + n * sz)" sz "drop (n * sz) inp"]
      by (simp add: store_unit_def put_def)
  qed (auto simp: store_unit_def put_def)
  then show ?case
    using IH by (auto simp: put_units_def fun_eq_iff)
qed (auto simp: put_units_def fun_eq_iff)

lemma load_run:
  assumes "sz \<le> 4" "n * sz \<le> length inp" "\<forall>k < n * sz. m (dst + k) = inp ! k"
  shows "read_binary sz dst n (load_unit m) = take (n * sz) inp"
  using assms(2,3)
proof (induction n)
  case (Suc n)
  have "map m [dst + n * sz..<dst + n * sz + sz] = take sz (drop (n * sz) inp)"
    using Suc.prems by (intro nth_equalityI) (auto simp: add.assoc)
  then show ?case
    using Suc by (simp add: read_binary_def printb_load [OF assms(1)] take_add add.commute [of sz])
qed (simp add: read_binary_def)

section \<open>Numbers as text\<close>

lemma digit_value_char: "d < 36 \<Longrightarrow> digit_value (digit_char d) = d"
  by (auto simp: digit_value_def c_isdigit_def c_isupper_def)

lemma digit_char_alnum: "d < 36 \<Longrightarrow> c_isalnum (digit_char d)"
  by (auto simp: c_isalnum_def c_isdigit_def c_isupper_def)

lemma digit_char_not_space: "d < 36 \<Longrightarrow> \<not> c_isspace (digit_char d)"
  by (auto simp: c_isspace_def)

lemma show_base_chars:
  assumes "2 \<le> b" "b \<le> 36" "c \<in> set (show_base b n)"
  shows "\<exists>d < b. c = digit_char d"
  using assms(3)
proof (induction n rule: less_induct)
  case (less n)
  show ?case
  proof (cases "n < b")
    case True
    with less.prems show ?thesis by (subst (asm) show_base.simps) (auto simp del: digit_char.simps)
  next
    case False
    then have "c \<in> set (show_base b (n div b)) \<or> c = digit_char (n mod b)"
      using less.prems assms(1) by (subst (asm) show_base.simps) (auto simp del: digit_char.simps)
    moreover have "n div b < n" using False assms(1) by simp
    moreover have "n mod b < b" using assms(1) by simp
    ultimately show ?thesis using less.IH by blast
  qed
qed

lemma read_digits_append:
  "\<forall>c \<in> set xs. digit_value c < b \<Longrightarrow> read_digits b acc (xs @ ys) = read_digits b (read_digits b acc xs) ys"
  by (induction xs arbitrary: acc) auto

lemma count_digits_all: "\<forall>c \<in> set xs. digit_value c < b \<Longrightarrow> count_digits b xs = length xs"
  by (induction xs) auto

lemma read_show_base:
  assumes "2 \<le> b" "b \<le> 36"
  shows "read_digits b 0 (show_base b n) = n"
proof (induction n rule: less_induct)
  case (less n)
  have v: "\<forall>c \<in> set (show_base b k). digit_value c < b" for k
    using show_base_chars [OF assms] digit_value_char assms(2) by (metis less_le_trans)
  show ?case
  proof (cases "n < b")
    case True
    then show ?thesis using assms digit_value_char [of n]
      by (subst show_base.simps) (simp del: digit_char.simps)
  next
    case False
    then have "n div b < n" using assms(1) by simp
    moreover have "n mod b < b" "n mod b < 36" using assms mod_less_divisor [of b n] by linarith+
    ultimately show ?thesis
      using False less.IH [of "n div b"] assms digit_value_char [of "n mod b"]
      by (subst show_base.simps) (simp add: read_digits_append [OF v] del: digit_char.simps)
  qed
qed

lemma read_digits_zeros: "0 < b \<Longrightarrow> read_digits b 0 (replicate n (CHR ''0'') @ xs) = read_digits b 0 xs"
  by (induction n) (auto simp: digit_value_def c_isdigit_def)

lemma fmt_X_chars: "c \<in> set (fmt_X w n) \<Longrightarrow> \<exists>d < 16. c = digit_char d"
proof -
  assume "c \<in> set (fmt_X w n)"
  then have "c = CHR ''0'' \<or> c \<in> set (show_base 16 n)"
    by (auto simp: fmt_X_def pad_left_def)
  moreover have "CHR ''0'' = digit_char 0" by code_simp
  ultimately show ?thesis using show_base_chars [of 16 c n] by (metis (no_types) numeral_le_iff
      semiring_norm(68,69,71,72) zero_less_numeral le_refl)
qed

lemma fmt_X_digit: "c \<in> set (fmt_X w n) \<Longrightarrow> digit_value c < 16 \<and> c_isalnum c"
proof -
  assume "c \<in> set (fmt_X w n)"
  then obtain d where "d < 16" "c = digit_char d" using fmt_X_chars by blast
  then show ?thesis using digit_value_char [of d] digit_char_alnum [of d] by (simp del: digit_char.simps)
qed

lemma read_fmt_X: "read_digits 16 0 (fmt_X w n) = n"
  by (simp add: fmt_X_def pad_left_def read_digits_zeros read_show_base)

lemma fmt_X_Cons: "\<exists>c cs. fmt_X w n = c # cs"
  by (cases "fmt_X w n") (auto simp: fmt_X_def pad_left_def)

lemma strtoul_hex:
  assumes "k < 2 ^ 64"
  shows "strtoul 0 (''0x'' @ fmt_X w k) e = (of_nat k, 2 + length (fmt_X w k), e)"
proof -
  obtain c cs where f: "fmt_X w k = c # cs" using fmt_X_Cons by blast
  have digits: "\<forall>x \<in> set (fmt_X w k). digit_value x < 16"
    using fmt_X_digit by blast
  then have "digit_value c < 16" using f by simp
  moreover have "\<not> c_isspace (CHR ''0'')" "(CHR ''0'' :: char) \<noteq> CHR ''-''" "(CHR ''0'' :: char) \<noteq> CHR ''+''"
    by (simp_all add: c_isspace_def)
  ultimately have "strto_subject 0 (''0x'' @ fmt_X w k) = (False, k, 2 + length (fmt_X w k))"
    using count_digits_all [OF digits] read_fmt_X [of w k] f
    by (simp add: strto_subject_def strip_sign_def base_prefix_def)
  then show ?thesis
    using assms by (simp add: strtoul_def)
qed

section \<open>Tokens\<close>

lemma gettok_loop_token:
  assumes "\<forall>c \<in> set tok. c_isalnum c" "p + length tok \<le> len" "\<not> c_isalnum c"
  shows "gettok_loop len p (tok @ c # rest) = (tok, Some c, rest)"
  using assms by (induction tok arbitrary: p) auto

lemma gettok_token:
  assumes "\<forall>c \<in> set pre. c_isspace c" "tok \<noteq> []" "\<forall>c \<in> set tok. c_isalnum c" "length tok \<le> len"
    and "c_isspace c"
  shows "gettok len (pre @ tok @ c # rest) = (0, tok, rest)"
proof -
  obtain t ts where t: "tok = t # ts" using assms(2) by (cases tok) auto
  have sp: "c_isalnum x \<Longrightarrow> \<not> c_isspace x" for x
    by (auto simp: c_isalnum_def c_isspace_def c_isdigit_def c_isupper_def c_islower_def)
  then have "dropWhile c_isspace (pre @ tok @ c # rest) = t # ts @ c # rest"
    using assms(1,3) t by (induction pre) auto
  moreover have "gettok_loop len 1 (ts @ c # rest) = (ts, Some c, rest)"
    using assms(3-5) t sp by (intro gettok_loop_token) auto
  ultimately show ?thesis
    using assms(5) t by (simp add: gettok_def)
qed

lemma print_unit_token:
  "print_unit sz v \<noteq> [] \<and> (\<forall>c \<in> set (print_unit sz v). c_isalnum c)"
proof -
  have "\<forall>c \<in> set (fmt_X w n). c_isalnum c" for w n
    using fmt_X_digit by blast
  moreover have "c_isalnum (CHR ''0'')" "c_isalnum (CHR ''x'')" by code_simp+
  ultimately show ?thesis by (auto simp: print_unit_def)
qed

lemma length_show_base: "n < b ^ k \<Longrightarrow> 0 < k \<Longrightarrow> length (show_base b n) \<le> k"
proof (induction k arbitrary: n)
  case (Suc k)
  show ?case
  proof (cases "b < 2 \<or> n < b")
    case True
    then show ?thesis by (subst show_base.simps) auto
  next
    case False
    then have "n div b < b ^ k" "0 < k"
      using Suc.prems by (auto simp: less_mult_imp_div_less mult.commute intro: gr0I)
    then show ?thesis using False Suc.IH [of "n div b"] by (subst show_base.simps) simp
  qed
qed simp

lemma unat_u32_less: "unat (x :: u32) < 2 ^ 32"
  using unsigned_less [of x] by simp

lemma print_unit_length:
  assumes "sz \<le> 4"
  shows "length (print_unit sz v) \<le> 512"
proof -
  have "unat (take_bit (8 * sz) v) < 16 ^ 8" using unat_u32_less [of "take_bit (8 * sz) v"] by simp
  then have "length (show_base 16 (unat (take_bit (8 * sz) v))) \<le> 8" by (rule length_show_base) simp
  then show ?thesis using assms by (simp add: print_unit_def fmt_X_def pad_left_def)
qed

lemma strtoul_print_unit:
  "strtoul 0 (print_unit sz v) e =
    (ucast (take_bit (8 * sz) v), 2 + length (fmt_X (2 * sz) (unat (take_bit (8 * sz) v))), e)"
proof -
  have "unat (take_bit (8 * sz) v) < 2 ^ 64" using unat_u32_less [of "take_bit (8 * sz) v"] by simp
  from strtoul_hex [OF this, of "2 * sz" e] show ?thesis by (simp add: print_unit_def)
qed

lemma put_print_unit: "put sz dst (ucast (ucast (take_bit (8 * sz) v) :: u64)) = put sz dst v"
proof -
  have "(ucast (ucast (take_bit (8 * sz) v) :: u64) :: u32) = take_bit (8 * sz) v"
    by (rule bit_word_eqI) (simp add: bit_ucast_iff)
  then show ?thesis by (simp add: put_def)
qed

lemma write_ascii_text:
  assumes "sz \<le> 4" "c_isspace nl"
  shows "v120_write_stdin_ascii sz dst (print_unit sz v @ concat (map (\<lambda>u. CHR '' '' # print_unit sz u) vs) @ [nl]) 0 cnt =
    (cnt + 1 + int (length vs), map (\<lambda>i. put sz (dst + i * sz) ((v # vs) ! i)) [0..<Suc (length vs)], 0)"
proof (induction vs arbitrary: v dst cnt)
  case Nil
  have "gettok 512 (print_unit sz v @ [nl]) = (0, print_unit sz v, [])"
    using gettok_token [of "[]" "print_unit sz v" 512 nl "[]"] print_unit_token print_unit_length assms by simp
  then show ?case
    by (subst v120_write_stdin_ascii.simps)
      (simp add: strtoul_print_unit put_print_unit, subst v120_write_stdin_ascii.simps, simp add: gettok_def)
next
  case (Cons u vs)
  have "c_isspace (CHR '' '')" by code_simp
  then have "gettok 512 (print_unit sz v @ concat (map (\<lambda>u. CHR '' '' # print_unit sz u) (u # vs)) @ [nl]) =
      (0, print_unit sz v, print_unit sz u @ concat (map (\<lambda>u. CHR '' '' # print_unit sz u) vs) @ [nl])"
    using gettok_token [of "[]" "print_unit sz v" 512 "CHR '' ''"] print_unit_token print_unit_length assms(1)
    by simp
  moreover have "map (\<lambda>i. put sz (dst + i * sz) ((v # u # vs) ! i)) [0..<Suc (length (u # vs))] =
      put sz dst v # map (\<lambda>i. put sz (dst + sz + i * sz) ((u # vs) ! i)) [0..<Suc (length vs)]"
    by (subst upt_conv_Cons) (simp_all add: map_Suc_upt [symmetric] comp_def add.assoc del: upt_Suc map_Suc_upt)
  ultimately show ?case
    by (subst v120_write_stdin_ascii.simps) (simp add: strtoul_print_unit put_print_unit Cons.IH del: upt_Suc)
qed

lemma read_ascii_text:
  "0 < n \<Longrightarrow> read_ascii sz src n mem = print_unit sz (mem src sz) @
    concat (map (\<lambda>u. CHR '' '' # print_unit sz u) (map (\<lambda>i. mem (src + i * sz) sz) [Suc 0..<n])) @ [char_of (10 :: nat)]"
proof -
  assume "0 < n"
  then have "[0..<n] = 0 # [Suc 0..<n]" by (simp add: upt_conv_Cons)
  then show ?thesis
    by (simp add: read_ascii_def comp_def) (rule arg_cong [where f = concat], rule map_cong, auto)
qed

section \<open>Round trips\<close>





section \<open>The single page of a transfer\<close>

lemma alloc_pages_env:
  assumes "env_ok env" "0 \<le> pageno" "0 \<le> npages"
  shows "\<exists>ptr h' os' n. v120_alloc_pages env h os pageno npages = (Some ptr, h', os') \<and>
    ve_mmap env n (V120_PAGE_SIZE * nat npages) (V120_PAGE_SIZE * nat pageno) = Some ptr \<and>
    h_bar h' = h_bar h \<and> h_list h' = h_list h \<and> os_errno os' = os_errno os"
proof -
  obtain fd where "0 \<le> fd" "ve_open env (snprintf_text 19 (sDEVNAME_VME @ fmt_u (unat (h_crateno h)))) = Inr fd"
    using assms(1) unfolding env_ok_def by blast
  moreover obtain p where "\<forall>n sz offs. ve_mmap env n sz offs = Some (p n sz offs) \<and> p n sz offs \<noteq> 0"
    using assms(1) unfolding env_ok_def by metis
  ultimately show ?thesis
    using assms
    by (cases "h_fd_vme h < 0")
      (auto simp: v120_alloc_pages_def open_eval env_ok_def
        v120_add_to_mm_list_def Let_def)
qed

lemma last_page_words:
  assumes "unat (n :: u32) \<le> 8192"
  shows "sint (8191 :: u32) = 8191" "sint (8191 + n - 1) = 8190 + int (unat n)" "sint n = int (unat n)"
    "sint (8191 + n - 1 + 1) = 8191 + int (unat n)"
proof -
  have e: "8191 + n - 1 = 8190 + n" "8191 + n - 1 + 1 = 8191 + n" by simp_all
  have u: "unat (8190 + n) = 8190 + unat n" "unat (8191 + n) = 8191 + unat n"
    using assms by (subst unat_add_u32; simp)+
  have "unat (8190 + n) < 2 ^ 31" "unat (8191 + n) < 2 ^ 31" "unat n < 2 ^ 31"
    unfolding u using assms by simp_all
  note s = sint_small [OF this(1)] sint_small [OF this(2)] sint_small [OF this(3)]
  show "sint (8191 + n - 1) = 8190 + int (unat n)" unfolding e(1) s u by simp
  show "sint (8191 + n - 1 + 1) = 8191 + int (unat n)" unfolding e(2) s u by simp
  show "sint n = int (unat n)" by (rule s(3))
qed simp

lemma last_page_one:
  assumes "env_ok env" "h_list h = [r]" "region_fits r" "region_pages r = 1"
  shows "\<exists>h' os'. v120_allocate_vme env h os 8191 = (8192, h', os') \<and>
    h_bar h' = (h_bar h)(8191 := vr_config r OR push_bit 14 (of_nat (unat (vr_vme_addr r) div 0x4000)))"
proof -
  let ?pgoffs = "vr_vme_addr r mod of_nat V120_PAGE_SIZE"
  define n where "n = ((ucast (vr_len r + ?pgoffs) :: u32) + of_nat V120_PAGE_SIZE - 1) div of_nat V120_PAGE_SIZE"
  have n: "unat n = 1" unfolding n_def using region_words(2) [OF assms(3)] assms(4) by simp
  note w = last_page_words [of n, unfolded n]
  obtain ptr h1 os1 where a: "v120_alloc_pages env h os 8191 1 = (Some ptr, h1, os1)"
    "h_bar h1 = h_bar h" "h_list h1 = h_list h"
    by (rule alloc_pages_ok [OF assms(1), of 8191 1 h os]) simp_all
  have pd: "(vr_vme_addr r + of_nat (0 * V120_PAGE_SIZE)) div of_nat V120_PAGE_SIZE =
      of_nat (unat (vr_vme_addr r) div 0x4000 + 0)"
    using unsigned_less [of "vr_vme_addr r"] by (intro page_of_base) simp
  show ?thesis
    using assms(2) w a pd
    by (auto simp: v120_allocate_vme_def V120_PAGE_COUNT_def n_def [symmetric] v120_get_vme_def
        configure_pd_range_eq fun_eq_iff Let_def)
qed

lemma last_page_more:
  assumes "h_list h = [r]" "region_fits r" "1 < region_pages r"
  shows "\<exists>h' os'. v120_allocate_vme env h os 8191 = (- 1, h', os') \<and>
    h_bar h' 8192 = vr_config r OR push_bit 14 (of_nat (unat (vr_vme_addr r) div 0x4000 + 1))"
proof -
  let ?pgoffs = "vr_vme_addr r mod of_nat V120_PAGE_SIZE"
  define n where "n = ((ucast (vr_len r + ?pgoffs) :: u32) + of_nat V120_PAGE_SIZE - 1) div of_nat V120_PAGE_SIZE"
  have n: "unat n = region_pages r" unfolding n_def using region_words(2) [OF assms(2)] by simp
  have le: "unat n \<le> 8192" using assms(2) n by (simp add: region_fits_def V120_PAGE_COUNT_def)
  note w = last_page_words [OF le, unfolded n]
  have pd: "(vr_vme_addr r + of_nat (1 * V120_PAGE_SIZE)) div of_nat V120_PAGE_SIZE =
      of_nat (unat (vr_vme_addr r) div 0x4000 + 1)"
    using assms(2) by (intro page_of_base) (simp add: region_fits_def)
  show ?thesis
    using assms(1,3) w pd
    by (simp add: v120_allocate_vme_def V120_PAGE_COUNT_def n_def [symmetric] v120_get_vme_def
        configure_pd_range_eq v120_set_errno_def Let_def)
qed

lemma rw_region_simps [simp]:
  "vr_vme_addr (rw_region pd args address nunits) = address"
  by (cases "a_dwidth args") (simp_all add: rw_region_def Let_def)

lemma rw_region_len:
  assumes "0 \<le> nunits" "nunits < 2 ^ 24"
  shows "unat (vr_len (rw_region pd args address nunits)) =
    nat nunits * (case a_dwidth args of VME_D16 \<Rightarrow> 2 | VME_D32 \<Rightarrow> 4 | _ \<Rightarrow> 1)"
proof -
  have "unat (of_nat (nat nunits * k) :: u64) = nat nunits * k" if "k \<le> 4" for k
  proof -
    have "nat nunits < 2 ^ 24" using assms by (simp add: nat_less_iff)
    then have "nat nunits * k < 2 ^ 64" using that mult_le_mono [of "nat nunits" "2 ^ 24" k 4] by simp
    then show ?thesis by (rule unat_of_nat_u64)
  qed
  from this [of 1] this [of 2] this [of 4]
  have "unat (of_nat (nat nunits) :: u64) = nat nunits" "unat (of_nat (nat nunits * 2) :: u64) = nat nunits * 2"
    "unat (of_nat (nat nunits * 4) :: u64) = nat nunits * 4"
    by simp_all
  moreover have "(of_int nunits :: u64) * of_nat k = of_nat (nat nunits * k)" for k
    using assms by simp
  from this [of 1] this [of 2] this [of 4]
  have "(of_int nunits :: u64) = of_nat (nat nunits * 1)" "(of_int nunits :: u64) * 2 = of_nat (nat nunits * 2)"
    "(of_int nunits :: u64) * 4 = of_nat (nat nunits * 4)"
    by simp_all
  ultimately show ?thesis
    by (cases "a_dwidth args") (simp_all add: rw_region_def Let_def del: of_nat_mult)
qed


definition pd_v :: pd_consts where
  "pd_v = \<lparr>V120_A16 = 0x29, V120_A24 = 0x39, V120_A32 = 0x09, V120_SSLOW = 0, V120_SMED = 0x40,
     V120_SFAST = 0x80, V120_SMAX = 0xC0, V120_D16 = 0x100, V120_EAUTO = 0x200\<rparr>"


section \<open>Values from standard input\<close>

lemma open_env:
  assumes "env_ok env" "ve_calloc env" "c \<le> 15"
  shows "\<exists>h os'. v120_open env c os = (Some h, os') \<and> h_list h = [] \<and> h_bar h = ve_device env (of_int c) \<and>
    os_errno os' = os_errno os"
proof -
  obtain fd where "0 \<le> fd" "ve_open env (snprintf_text 19 (sDEVNAME_CTRL @ fmt_u (unat (of_int c :: u32)))) = Inr fd"
    using assms(1) unfolding env_ok_def by blast
  moreover obtain p where "\<forall>n sz offs. ve_mmap env n sz offs = Some (p n sz offs) \<and> p n sz offs \<noteq> 0"
    using assms(1) unfolding env_ok_def by metis
  ultimately show ?thesis
    using assms(2,3) by (auto simp: open_eval Let_def)
qed

lemma close_Done: "\<exists>os'. v120_close h os = Done os'"
  by (simp add: v120_close_def v120_cleanup_def clean_mem_list_eq Let_def)

lemma empty_region_swaps:
  assumes "env_ok env" "h_list h = [r]" "vr_len r = 0" "vr_vme_addr r mod of_nat V120_PAGE_SIZE = 0"
  shows "\<exists>h' os' ptr n. v120_allocate_vme env h os 8191 = (8191, h', os') \<and> h_bar h' = h_bar h \<and>
    ve_mmap env n 0x8000 (8190 * 0x4000) = Some ptr \<and> vr_base (hd (h_list h')) = Some ptr \<and>
    vr_vme_addr (hd (h_list h')) = vr_vme_addr r \<and> os_errno os' = os_errno os"
proof -
  obtain ptr h1 os1 n where a: "v120_alloc_pages env h os 8190 2 = (Some ptr, h1, os1)"
    "ve_mmap env n (V120_PAGE_SIZE * nat 2) (V120_PAGE_SIZE * nat 8190) = Some ptr"
    "h_bar h1 = h_bar h" "os_errno os1 = os_errno os"
    using alloc_pages_env [OF assms(1), of 8190 2 h os] by auto
  have "(0x3FFF :: u32) div 0x4000 = 0" by (simp add: word_unat_eq_iff unat_div)
  moreover have "sint (8191 :: u32) = 8191" "sint (8190 :: u32) = 8190" by simp_all
  ultimately show ?thesis
    using assms(2-4) a
    by (auto simp: v120_allocate_vme_def V120_PAGE_COUNT_def V120_PAGE_SIZE_def v120_get_vme_def
        configure_pd_range_eq fun_eq_iff Let_def)
qed

lemma aligned_units:
  assumes "unat (address :: u64) mod 0x4000 = 0"
  shows "address AND of_nat (set_up_dwidth args - 1) = 0"
proof -
  have "address AND mask k = 0" if "k \<le> 2" for k
  proof -
    have "(2 :: nat) ^ k dvd 0x4000" using that le_imp_power_dvd [of k 14 "2 :: nat"] by simp
    then have "unat address mod 2 ^ k = 0" using assms by (metis dvd_trans mod_0_imp_dvd mod_eq_0_iff_dvd)
    moreover have "unat (address AND mask k) = unat address mod 2 ^ k"
      by (simp add: unsigned_take_bit_eq flip: take_bit_eq_mask take_bit_eq_mod)
    ultimately show ?thesis by (simp only: word_unat_eq_iff unsigned_0)
  qed
  from this [of 0] this [of 1] this [of 2] show ?thesis
    by (cases "a_dwidth args") (simp_all add: set_up_dwidth_def mask_eq_exp_minus_1)
qed

text \<open>C34: values from standard input to a page-aligned address go to the wrong page. The region then
  has no length, no page, and an end page before its start page, which the library takes as the pages
  8190 and 8191: every value is stored from the start of page 8190 on, whose descriptor, like all
  others, was not written and translates to whatever it was left at.\<close>

theorem stdin_write_wrong_page:
  assumes "env_ok env" "ve_calloc env" "0 \<le> a_crate args" "a_crate args \<le> 15" "os_errno os = 0"
    and "parse_address argv optind 0 = Some (address, length argv)" "unat address mod 0x4000 = 0"
  shows "\<exists>h region os1 ptr n ret ws err os2.
    rw_open_vme env pd args address 0 os = Done (Some (h, region), os1) \<and>
    h_bar h = ve_device env (of_int (a_crate args)) \<and>
    ve_mmap env n 0x8000 (8190 * 0x4000) = Some ptr \<and>
    v120_write env pd vme_acc inp raw argv optind args os = Done (ret, ws, err, os2) \<and>
    ws = fst (snd (v120_write_stdin (set_up_dwidth args) ptr (a_binary args) inp raw 0))"
proof -
  let ?r = "rw_region pd args address 0"
  have addr: "address mod of_nat V120_PAGE_SIZE = 0"
    using assms(7) by (simp add: word_unat_eq_iff unat_mod)
  obtain h os1 where o: "v120_open env (a_crate args) os = (Some h, os1)" "h_list h = []"
    "h_bar h = ve_device env (of_int (a_crate args))" "os_errno os1 = 0"
    using open_env [OF assms(1,2,4), of os] assms(5) by auto
  have l: "h_list (v120_add_vme_region h ?r) = [?r]" "h_bar (v120_add_vme_region h ?r) = h_bar h"
    using o(2) by (simp_all add: v120_add_vme_region_def)
  have "vr_len ?r = 0" by (cases "a_dwidth args") (simp_all add: rw_region_def Let_def)
  then obtain h2 os2 ptr n where a: "v120_allocate_vme env (v120_add_vme_region h ?r) os1 8191 = (8191, h2, os2)"
    "h_bar h2 = h_bar h" "ve_mmap env n 0x8000 (8190 * 0x4000) = Some ptr" "vr_base (hd (h_list h2)) = Some ptr"
    "vr_vme_addr (hd (h_list h2)) = address" "os_errno os2 = 0"
    using empty_region_swaps [OF assms(1) l(1), of os1] addr o(4) l(2) by auto
  have rw: "rw_open_vme env pd args address 0 os = Done (Some (h2, hd (h_list h2)), os2)"
    using assms(3,4) o(1) a(1) by (simp add: rw_open_vme_def ALL_CRATES_def)
  obtain ret ws errno where w: "v120_write_stdin (set_up_dwidth args) ptr (a_binary args) inp raw 0 = (ret, ws, errno)"
    by (cases "v120_write_stdin (set_up_dwidth args) ptr (a_binary args) inp raw 0")
  obtain os3 where c: "v120_close h2 (os2\<lparr>os_errno := errno\<rparr>) = Done os3" using close_Done by blast
  have "\<not> check_align (set_up_dwidth args) (hd (h_list h2))"
    unfolding check_align_def a(5) aligned_units [OF assms(7)] by simp
  then have "v120_write env pd vme_acc inp raw argv optind args os =
      Done (ret, ws, if ret = EXIT_SUCCESS \<and> a_vmeprint args then print_trans_data vme_acc else [], os3)"
    using rw a w c assms(5,6) by (simp add: v120_write_def Let_def)
  then show ?thesis
    using rw a(2,3) o(3) w by auto
qed

theorem stdin_write_wrong_page_witness:
  "\<exists>ret err os2. v120_write env_v pd_v 0 ''5 '' [] [''0''] 0 ((default_args pd_v)\<lparr>a_crate := 0\<rparr>) os_zero =
    Done (ret, [put 2 (0x10000 + 8190 * 0x4000) 5], err, os2)"
proof -
  note num = num_eval c_isalnum_def
  have p: "parse_address [''0''] 0 0 = Some (0, 1)"
    by (simp add: parse_address_def num)
  have tok: "gettok 512 ''5 '' = (0, ''5'', '''')" "gettok 512 '''' = (1, '''', '''')"
    "strtoul 0 ''5'' 0 = (5, 1, 0)"
    by (simp_all add: gettok_def num c_isupper_def c_islower_def)
  have v: "fst (snd (v120_write_stdin 2 ptr False ''5 '' [] 0)) = [put 2 ptr 5]" for ptr
    by (simp add: v120_write_stdin_def v120_write_stdin_ascii.simps [of _ _ "''5 ''"] tok
        v120_write_stdin_ascii.simps [of _ _ "''''"])
  let ?args = "(default_args pd_v)\<lparr>a_crate := 0\<rparr>"
  have a: "set_up_dwidth ?args = 2" "0 \<le> a_crate ?args" "a_crate ?args \<le> 15" "a_binary ?args = False"
    "ve_calloc env_v" "os_errno os_zero = 0" "unat (0 :: u64) mod 0x4000 = 0"
    "parse_address [''0''] 0 0 = Some (0, length [''0''])"
    by (simp_all add: set_up_dwidth_def default_args_def env_v_def os_zero_def p)
  obtain ptr n ret ws err os2 where "ve_mmap env_v n 0x8000 (8190 * 0x4000) = Some ptr"
    "v120_write env_v pd_v 0 ''5 '' [] [''0''] 0 ?args os_zero = Done (ret, ws, err, os2)"
    "ws = fst (snd (v120_write_stdin 2 ptr False ''5 '' [] 0))"
    using stdin_write_wrong_page [OF env_v_ok(1) a(5,2,3,6,8,7), where pd = pd_v and vme_acc = 0
        and inp = "''5 ''" and raw = "[]"] unfolding a(1,4) by blast
  moreover from this(1) have "ptr = 0x10000 + 8190 * 0x4000" by (simp add: env_v_def)
  ultimately show ?thesis
    unfolding v by blast
qed

section \<open>\<open>errno\<close> after the search for a crate\<close>

lemma errno_open:
  assumes "\<forall>name e. ve_open env name = Inl e \<longrightarrow> e \<noteq> 0" "v120_open env c os = (r, os')" "os_errno os \<noteq> 0"
  shows "os_errno os' \<noteq> 0"
  using assms
  by (auto simp: open_eval os_close_def Let_def
      split: if_splits sum.splits option.splits)

lemma errno_next_from:
  assumes "\<forall>name e. ve_open env name = Inl e \<longrightarrow> e \<noteq> 0" "v120_next_from env i os = (r, os')" "os_errno os \<noteq> 0"
  shows "os_errno os' \<noteq> 0"
  using assms
proof (induction env i os rule: v120_next_from.induct)
  case (1 env i os)
  show ?case
  proof (cases "i < 16")
    case True
    obtain r1 os1 where o: "v120_open env i os = (r1, os1)" by fastforce
    then have "os_errno os1 \<noteq> 0" using errno_open [OF 1(2) o 1(4)] by blast
    then show ?thesis
      using 1 True o by (cases r1) (auto simp: v120_next_from.simps [of env i os])
  qed (use 1 in \<open>simp add: v120_next_from.simps\<close>)
qed

lemma errno_alloc_pages:
  assumes "\<forall>name e. ve_open env name = Inl e \<longrightarrow> e \<noteq> 0" "v120_alloc_pages env h os p n = (r, h', os')"
    "os_errno os \<noteq> 0"
  shows "os_errno os' \<noteq> 0"
  using assms
  by (auto simp: v120_alloc_pages_def open_eval sys_munmap_def
      v120_add_to_mm_list_def v120_set_errno_def Let_def
      split: if_splits sum.splits option.splits prod.splits)

lemma errno_get_vme:
  assumes "\<forall>name e. ve_open env name = Inl e \<longrightarrow> e \<noteq> 0" "v120_get_vme env h os p n = (r, h', os')"
    "os_errno os \<noteq> 0"
  shows "os_errno os' \<noteq> 0"
  using assms(2,3) errno_alloc_pages [OF assms(1)]
  by (auto simp: v120_get_vme_def v120_set_errno_def Let_def split: if_splits)

lemma errno_allocate_loop:
  assumes "\<forall>name e. ve_open env name = Inl e \<longrightarrow> e \<noteq> 0"
  shows "allocate_loop env rs pgno endpage h os = (x, h', os') \<Longrightarrow> os_errno os \<noteq> 0 \<Longrightarrow> os_errno os' \<noteq> 0"
proof (induction rs arbitrary: pgno endpage h os x h' os')
  case (Cons r rs)
  let ?pgoffs = "vr_vme_addr r mod of_nat V120_PAGE_SIZE"
  let ?n = "((ucast (vr_len r + ?pgoffs) :: u32) + of_nat V120_PAGE_SIZE - 1) div of_nat V120_PAGE_SIZE"
  obtain base h1 os1 where g: "v120_get_vme env h os (sint pgno) (sint (pgno + ?n - 1)) = (base, h1, os1)"
    by (cases "v120_get_vme env h os (sint pgno) (sint (pgno + ?n - 1))")
  have e: "os_errno os1 \<noteq> 0" by (rule errno_get_vme [OF assms g Cons.prems(2)])
  show ?case
  proof (cases base)
    case None
    then show ?thesis using Cons.prems(1) g e by (simp add: Let_def)
  next
    case (Some ptr)
    then show ?thesis using Cons.prems(1) g e Cons.IH by (auto simp: Let_def split: prod.splits)
  qed
qed simp

lemma errno_rw_open:
  assumes "\<forall>name e. ve_open env name = Inl e \<longrightarrow> e \<noteq> 0" "ve_calloc env" "a_crate args < 0"
    and "ve_open env (ctrl_name 0) = Inl e" "rw_open_vme env pd args address nunits os = Done (Some (h, region), os')"
  shows "os_errno os' \<noteq> 0"
proof -
  have o: "v120_open env 0 os = (None, os\<lparr>os_errno := e\<rparr>)"
    using assms(2,4) by (simp add: open_eval ctrl_name_def)
  obtain ho os1 where n: "v120_next_from env 1 (os\<lparr>os_errno := e\<rparr>) = (ho, os1)" by fastforce
  then have n0: "v120_next env None os = Done (ho, os1)"
    using o by (simp add: v120_next_def v120_next_from.simps [of env 0 os])
  have e1: "os_errno os1 \<noteq> 0" using errno_next_from [OF assms(1) n] assms(1,4) by simp
  obtain h0 where ho: "ho = Some h0"
    using assms(3,5) n0 by (cases ho) (auto simp: rw_open_vme_def ALL_CRATES_def)
  let ?h = "v120_add_vme_region h0 (rw_region pd args address nunits)"
  obtain ret h1 os2 where a: "v120_allocate_vme env ?h os1 8191 = (ret, h1, os2)"
    by (cases "v120_allocate_vme env ?h os1 8191")
  then have "os_errno os2 \<noteq> 0"
    using errno_allocate_loop [OF assms(1)] e1
    by (auto simp: v120_allocate_vme_def V120_PAGE_COUNT_def Let_def split: prod.splits)
  then show ?thesis
    using assms(3,5) n0 ho a close_Done [of h1 os2]
    by (auto simp: rw_open_vme_def ALL_CRATES_def Let_def split: if_splits)
qed

text \<open>Without \<open>-m\<close>, and with crate 0 not attached, \<open>v120 write\<close> with values on the command line
  writes nothing and fails, whichever other crate is attached: the search for the first crate leaves
  the error number of the failed open behind, and the check of each value takes it for its own.\<close>

theorem write_args_stale_errno:
  assumes "\<forall>name e. ve_open env name = Inl e \<longrightarrow> e \<noteq> 0" "ve_calloc env" "a_crate args < 0"
    and "ve_open env (ctrl_name 0) = Inl e" "optind + 1 < length argv"
  shows "\<exists>os'. v120_write env pd vme_acc inp raw argv optind args os = Done (EXIT_FAILURE, [], [], os')"
proof (cases "parse_address argv optind (os_errno os)")
  case None
  then show ?thesis by (simp add: v120_write_def)
next
  case (Some p)
  then have p: "parse_address argv optind (os_errno os) = Some (fst p, optind + 1)"
    by (auto simp: parse_address_def Let_def split: if_splits prod.splits)
  have n: "0 < length argv - (optind + 1)" using assms(5) by simp
  have "\<exists>r os1. rw_open_vme env pd args (fst p) (int (length argv - (optind + 1))) os = Done (r, os1)"
    using assms(3) by (auto simp: rw_open_vme_def ALL_CRATES_def v120_next_def Let_def
        v120_close_def v120_cleanup_def clean_mem_list_eq
        split: option.splits prod.splits)
  then obtain r os1 where r: "rw_open_vme env pd args (fst p) (int (length argv - (optind + 1))) os = Done (r, os1)"
    by blast
  show ?thesis
  proof (cases r)
    case None
    then show ?thesis using p r by (simp add: v120_write_def Let_def)
  next
    case (Some hr)
    obtain h region where hr: "hr = (h, region)" by fastforce
    have e: "os_errno os1 \<noteq> 0"
      using errno_rw_open [OF assms(1-4)] r Some hr by blast
    obtain a as where as: "drop (optind + 1) argv = a # as"
      using n by (cases "drop (optind + 1) argv") auto
    have as': "drop (Suc optind) argv = a # as" using as by simp
    have args: "\<exists>e'. v120_write_args sz base (a # as) (os_errno os1) = (EXIT_FAILURE, [], e')" for sz base
      using e strtoul_errno [of 0 a "os_errno os1"] by (auto split: prod.splits)
    show ?thesis
      using p r Some hr n args [of "set_up_dwidth args" "the (vr_base region)"]
      by (auto simp: v120_write_def v120_close_def v120_cleanup_def clean_mem_list_eq as' Let_def
          simp del: v120_write_args.simps)
  qed
qed

text \<open>Crate 0 is missing and crate 1 is there: no value is written.\<close>

definition env_w :: v120_env where
  "env_w = env_v\<lparr>ve_open := (\<lambda>name. if name = ''/dev/v120_c0'' then Inl ENOENT else Inr 3)\<rparr>"

theorem write_args_stale_errno_witness:
  "(\<exists>h os'. v120_next env_w None os_zero = Done (Some h, os') \<and> h_crateno h = 1) \<and>
   (\<exists>os'. v120_write env_w pd_v 0 '''' [] [''0'', ''1''] 0 (default_args pd_v) os_zero = Done (EXIT_FAILURE, [], [], os'))"
proof
  have n: "ctrl_name 0 = ''/dev/v120_c0''" "ctrl_name 1 = ''/dev/v120_c1''" by code_simp+
  have c: "ve_calloc env_w" by (simp add: env_w_def env_v_def)
  have o: "v120_open env_w 0 os_zero = (None, os_zero\<lparr>os_errno := ENOENT\<rparr>)"
    using n(1) by (simp add: open_eval env_w_def env_v_def ctrl_name_def)
  have "\<exists>h os'. v120_open env_w 1 (os_zero\<lparr>os_errno := ENOENT\<rparr>) = (Some h, os') \<and> h_crateno h = 1"
    using n(2) by (simp add: open_eval env_w_def env_v_def ctrl_name_def)
  then show "\<exists>h os'. v120_next env_w None os_zero = Done (Some h, os') \<and> h_crateno h = 1"
    using o by (auto simp: v120_next_def v120_next_from.simps [of _ 0] v120_next_from.simps [of _ 1])
  have "\<forall>name e. ve_open env_w name = Inl e \<longrightarrow> e \<noteq> 0" "ve_open env_w (ctrl_name 0) = Inl ENOENT"
    by (simp_all add: env_w_def n)
  from write_args_stale_errno [OF this(1) c _ this(2), where args = "default_args pd_v" and optind = 0
      and argv = "[''0'', ''1'']" and pd = pd_v and vme_acc = 0 and raw = "[]" and os = os_zero]
  show "\<exists>os'. v120_write env_w pd_v 0 '''' [] [''0'', ''1''] 0 (default_args pd_v) os_zero = Done (EXIT_FAILURE, [], [], os')"
    by (simp add: default_args_def)
qed

end
