(* ===== verification/V120_Flash_Props.thy ===== *)
theory V120_Flash_Props
  imports V120_Crate_Props
begin

text \<open>
  The properties of the flash upgrade (what is written to which page) and of the scan of the bus
  (which runs of answering addresses are found).
\<close>

section \<open>The pages of an upgrade\<close>

lemma words_bytes_nth:
  assumes "i < 1024" "1024 \<le> length buf"
  shows "words_bytes (buf_words buf) ! i = buf ! i"
proof -
  have unit: "printb_unit 4 (getb 4 (drop (4 * j) buf)) = take 4 (drop (4 * j) buf)" if "j < 256" for j
  proof -
    have "length (drop (4 * j) buf) \<ge> 4" using that assms(2) by simp
    then show ?thesis
      using byte_of_getb [of _ 4 "drop (4 * j) buf"]
      by (intro nth_equalityI) (auto simp: printb_unit_def take_bit_word_eq_self)
  qed
  have "concat (map (\<lambda>j. take 4 (drop (4 * j) buf)) [0..<n]) = take (4 * n) buf" for n
    by (induction n) (simp_all add: take_add [symmetric] mult.commute add.commute)
  moreover have "words_bytes (buf_words buf) = concat (map (\<lambda>j. take 4 (drop (4 * j) buf)) [0..<256])"
    unfolding words_bytes_def buf_words_def REFLASH_ARRAYLEN_def REFLASH_BUFSIZE_def
    using unit by (simp add: comp_def) (rule arg_cong [where f = concat], rule map_cong, simp_all)
  ultimately show ?thesis using assms(1) by simp
qed

text \<open>The macro commands that write a file: one page per 1024 bytes and one more, in order; every byte
  of the file is in its page at its place.\<close>

definition flash_image :: "u8 list \<Rightarrow> u32 \<Rightarrow> (u32 \<times> u32 \<times> u32 list) list \<Rightarrow> bool" where
  "flash_image img macro_off pages \<longleftrightarrow>
     length pages = length img div 1024 + 1 \<and>
     (\<forall>k < length pages. case pages ! k of (cmd, pgno, ws) \<Rightarrow>
        cmd = MACRO_REFLASH_CMD + macro_off \<and> pgno = of_nat k \<and>
        (\<forall>i < 1024. 1024 * k + i < length img \<longrightarrow> words_bytes ws ! i = img ! (1024 * k + i)))"

lemma write_page_log:
  "cl_log (write_page dev c pgno buf off w) =
    cl_log w @ [(MACRO_REFLASH_CMD + off, pgno, buf_words buf @ drop 256 (cr_buf (cl_regs w c)))]"
  by (simp add: write_page_def v120_macro_write_def cli_eval REFLASH_ARRAYLEN_def
      REFLASH_BUFSIZE_def Let_def)

lemma macro_wait_log: "v120_macro_wait w = Done (r, w') \<Longrightarrow> cl_log w' = cl_log w"
  by (auto simp: v120_macro_wait_def obind_eq_Done)

lemma macro_poll_result: "macro_poll vs = Done (r, us) \<Longrightarrow> r = 0 \<or> r = - 1"
  by (induction vs rule: macro_poll.induct) (auto split: if_splits)

lemma macro_wait_result: "v120_macro_wait w = Done (r, w') \<Longrightarrow> r = 0 \<or> r = - 1"
  by (auto simp: v120_macro_wait_def obind_eq_Done dest: macro_poll_result)

lemma words_bytes_append: "words_bytes (xs @ ys) = words_bytes xs @ words_bytes ys"
  by (simp add: words_bytes_def)

lemma length_words_bytes: "length (words_bytes xs) = 4 * length xs"
  by (induction xs) (simp_all add: words_bytes_def printb_unit_def)

lemma page_bytes:
  assumes "i < 1024" "i < length img" "length buf = 1024"
  shows "words_bytes (buf_words (fread_buf buf img) @ ws) ! i = img ! i"
proof -
  have "1024 \<le> length (fread_buf buf img)"
    using assms(3) by (simp add: fread_buf_def REFLASH_BUFSIZE_def)
  then have "words_bytes (buf_words (fread_buf buf img)) ! i = fread_buf buf img ! i"
    using assms(1) by (intro words_bytes_nth)
  moreover have "length (words_bytes (buf_words (fread_buf buf img))) = 1024"
    by (simp add: length_words_bytes buf_words_def REFLASH_ARRAYLEN_def REFLASH_BUFSIZE_def)
  ultimately show ?thesis
    using assms by (simp add: words_bytes_append nth_append fread_buf_def REFLASH_BUFSIZE_def)
qed

lemma reflash_loop_pages:
  assumes "reflash_loop dev c pgno buf img off w = Done (result, eof, w')" "0 \<le> result" "length buf = 1024"
  shows "\<exists>pages. cl_log w' = cl_log w @ pages \<and> length pages = length img div 1024 + 1 \<and>
    (\<forall>k < length pages. case pages ! k of (cmd, pg, ws) \<Rightarrow>
        cmd = MACRO_REFLASH_CMD + off \<and> pg = pgno + of_nat k \<and>
        (\<forall>i < 1024. 1024 * k + i < length img \<longrightarrow> words_bytes ws ! i = img ! (1024 * k + i)))"
  using assms
proof (induction dev c pgno buf img off w arbitrary: w' rule: reflash_loop.induct)
  case (1 dev c pgno buf img off w)
  let ?buf = "fread_buf buf img"
  obtain r w1 where wait: "v120_macro_wait (write_page dev c pgno ?buf off w) = Done (r, w1)"
    and rest: "(if r < 0 \<or> length img < 1024 then Done (r, length img < 1024, w1)
      else reflash_loop dev c (pgno + 1) ?buf (drop 1024 img) off w1) = Done (result, eof, w')"
    using 1(2) by (subst (asm) reflash_loop.simps)
      (auto simp: Let_def obind_eq_Done REFLASH_BUFSIZE_def split: if_splits)
  have r: "\<not> r < 0" using rest 1(3) by (auto split: if_splits)
  let ?page = "(MACRO_REFLASH_CMD + off, pgno, buf_words ?buf @ drop 256 (cr_buf (cl_regs w c)))"
  have log: "cl_log w1 = cl_log w @ [?page]"
    using macro_wait_log [OF wait] by (simp add: write_page_log)
  have first: "\<forall>i < 1024. i < length img \<longrightarrow> words_bytes (snd (snd ?page)) ! i = img ! i"
    using page_bytes 1(4) by simp
  show ?case
  proof (cases "length img < 1024")
    case True
    then have "w' = w1" using rest by simp
    then show ?thesis using log first True by (intro exI [of _ "[?page]"]) simp
  next
    case False
    have len: "length ?buf = 1024" using 1(4) False by (simp add: fread_buf_def REFLASH_BUFSIZE_def)
    have cond: "\<not> (r < 0 \<or> length img < REFLASH_BUFSIZE)"
      using r False by (simp add: REFLASH_BUFSIZE_def)
    have run: "reflash_loop dev c (pgno + 1) ?buf (drop REFLASH_BUFSIZE img) off w1 = Done (result, eof, w')"
      using rest r False by (simp add: REFLASH_BUFSIZE_def)
    obtain pages where p: "cl_log w' = cl_log w1 @ pages" "length pages = (length img - 1024) div 1024 + 1"
      "\<And>k. k < length pages \<Longrightarrow> case pages ! k of (cmd, pg, ws) \<Rightarrow>
        cmd = MACRO_REFLASH_CMD + off \<and> pg = pgno + 1 + of_nat k \<and>
        (\<forall>i < 1024. 1024 * k + i < length img - 1024 \<longrightarrow> words_bytes ws ! i = drop 1024 img ! (1024 * k + i))"
      using 1(1) [OF refl refl cond run 1(3) len] by (auto simp: REFLASH_BUFSIZE_def)
    have "cl_log w' = cl_log w @ (?page # pages)" using p(1) log by simp
    moreover have "length (?page # pages) = length img div 1024 + 1"
      using p(2) False by (simp add: le_div_geq)
    moreover have "case (?page # pages) ! k of (cmd, pg, ws) \<Rightarrow>
        cmd = MACRO_REFLASH_CMD + off \<and> pg = pgno + of_nat k \<and>
        (\<forall>i < 1024. 1024 * k + i < length img \<longrightarrow> words_bytes ws ! i = img ! (1024 * k + i))"
      if "k < length (?page # pages)" for k
    proof (cases k)
      case 0
      then show ?thesis using first by simp
    next
      case (Suc j)
      then show ?thesis
        using that p(3) [of j] False by (auto simp: add.assoc less_diff_conv split: prod.splits)
    qed
    ultimately show ?thesis by blast
  qed
qed

text \<open>C14: a flash upgrade that reports success has unlocked and erased the flash, in this order, and then
  written the whole file: page after page, numbered from 0, every byte at its place, with the command
  of the chosen image. The last page is written even when the file ends exactly at a page boundary:
  then it repeats the page before it.\<close>

theorem flash_upgrade_image:
  assumes "v120_flash_upgrade_off env dev fs buf argv optind args off os w = Done (EXIT_SUCCESS, os', w')"
    and "length buf = 1024"
  shows "0 \<le> a_crate args \<and> a_crate args \<noteq> ALL_CRATES \<and>
    (\<exists>img unlock erase pages. fs (argv ! optind) = Some img \<and>
      cl_log w' = cl_log w @ [unlock, erase] @ pages \<and>
      fst unlock = MACRO_UNLOCK_CMD \<and> fst erase = MACRO_ERASE_CMD + off \<and> flash_image img off pages)"
proof -
  have crate: "0 \<le> a_crate args" "a_crate args \<noteq> ALL_CRATES" "optind < length argv"
    using assms(1) by (auto simp: v120_flash_upgrade_off_def validate_crate_def split: if_splits)
  then obtain h os1 img where o: "v120_open env (a_crate args) os = (Some h, os1)" "fs (argv ! optind) = Some img"
    using assms(1)
    by (auto simp: v120_flash_upgrade_off_def validate_crate_def obind_eq_Done split: option.splits prod.splits)
  let ?c = "h_crateno h"
  obtain r1 w1 r2 w2 r3 w3 where steps: "unlock_flash dev ?c w = Done (r1, w1)" "\<not> r1 < 0"
    "erase_flash dev ?c off w1 = Done (r2, w2)" "\<not> r2 < 0"
    "reflash dev ?c buf img off w2 = Done (r3, w3)" "\<not> r3 < 0" "w' = w3"
    using assms(1) crate o
    by (auto simp: v120_flash_upgrade_off_def validate_crate_def obind_eq_Done split: if_splits)
  have l1: "\<exists>a b. cl_log w1 = cl_log w @ [(MACRO_UNLOCK_CMD, a, b)]"
    using steps(1) by (auto simp: unlock_flash_def v120_macro_write_def cli_eval Let_def
        dest!: macro_wait_log)
  have l2: "\<exists>a b. cl_log w2 = cl_log w1 @ [(MACRO_ERASE_CMD + off, a, b)]"
    using steps(3) by (auto simp: erase_flash_def v120_macro_write_def cli_eval Let_def
        dest!: macro_wait_log)
  obtain eof w4 where loop: "reflash_loop dev ?c 0 buf img off w2 = Done (r3, eof, w4)" "cl_log w3 = cl_log w4"
    using steps(5) by (auto simp: reflash_def obind_eq_Done out_def split: if_splits)
  have "0 \<le> r3" using steps(6) by simp
  from reflash_loop_pages [OF loop(1) this assms(2)]
  obtain pages where "cl_log w3 = cl_log w2 @ pages" "flash_image img off pages"
    unfolding loop(2) flash_image_def by auto
  then show ?thesis
    using crate o(2) l1 l2 steps(7) by auto
qed

text \<open>The witness upgrades with a file of three bytes: one page.\<close>

definition regs_zero :: config_regs where
  "regs_zero = \<lparr>cr_macro = 0, cr_mp0 = 0, cr_buf = replicate 256 0, cr_status = 0, cr_uptime = 0, cr_requester = 0,
     cr_slot = 0, cr_utility = 0, cr_dips = 0, cr_mfr_id = 0, cr_modtype = 0, cr_modrev = 0, cr_rom_rev = 0,
     cr_serial = 0, cr_dash = 0\<rparr>"

definition cli_zero :: cli where
  "cli_zero = \<lparr>cl_regs = (\<lambda>c. regs_zero), cl_mons = (\<lambda>c i. mon_zero),
     cl_recs = (\<lambda>c i. \<lparr>pr_status = 0, pr_address = 0, pr_data = 0\<rparr>), cl_polls = [1, 0, 0, 1, 0], cl_log = [], cl_out = []\<rparr>"

theorem flash_upgrade_image_witness:
  "\<exists>os' w' unlock erase pages. v120_flash_upgrade env_v (\<lambda>c r. r) (\<lambda>name. Some [7, 8, 9]) (replicate 1024 0)
      [''image''] 0 ((default_args pd_v)\<lparr>a_crate := 2\<rparr>) os_zero cli_zero = Done (EXIT_SUCCESS, os', w') \<and>
    cl_log w' = [unlock, erase] @ pages \<and> flash_image [7, 8, 9] 0 pages"
proof -
  have "\<exists>os' w'. v120_flash_upgrade_off env_v (\<lambda>c r. r) (\<lambda>name. Some [7, 8, 9]) (replicate 1024 0)
      [''image''] 0 ((default_args pd_v)\<lparr>a_crate := 2\<rparr>) 0 os_zero cli_zero = Done (EXIT_SUCCESS, os', w')"
    by (simp add: v120_flash_upgrade_off_def validate_crate_def default_args_def ALL_CRATES_def open_eval env_v_def unlock_flash_def erase_flash_def reflash_def
        reflash_loop.simps v120_macro_wait_def v120_macro_write_def write_page_def cli_eval cli_zero_def REFLASH_BUFSIZE_def v120_close_def v120_cleanup_def clean_mem_list_eq Let_def)
  then obtain os' w' where run: "v120_flash_upgrade_off env_v (\<lambda>c r. r) (\<lambda>name. Some [7, 8, 9]) (replicate 1024 0)
      [''image''] 0 ((default_args pd_v)\<lparr>a_crate := 2\<rparr>) 0 os_zero cli_zero = Done (EXIT_SUCCESS, os', w')"
    by blast
  have "cl_log cli_zero = []" by (simp add: cli_zero_def)
  then show ?thesis
    using flash_upgrade_image [OF run length_replicate] run by (auto simp: v120_flash_upgrade_def)
qed

section \<open>Runs of answering addresses\<close>

definition run_start :: "(nat \<Rightarrow> u32) \<Rightarrow> nat \<Rightarrow> bool" where
  "run_start acc i \<longleftrightarrow> vme_acked (acc i) \<and> (i = 0 \<or> \<not> vme_acked (acc (i - 1)))"

definition run_between :: "(nat \<Rightarrow> u32) \<Rightarrow> nat \<Rightarrow> nat \<Rightarrow> bool" where
  "run_between acc s e \<longleftrightarrow> run_start acc s \<and> s < e \<and> (\<forall>i. s \<le> i \<and> i < e \<longrightarrow> vme_acked (acc i)) \<and> \<not> vme_acked (acc e)"

lemma run_between_unique:
  "run_between acc s e \<Longrightarrow> run_between acc s' e \<Longrightarrow> s = s'"
proof (rule ccontr)
  assume r: "run_between acc s e" "run_between acc s' e" and "s \<noteq> s'"
  have no: "\<not> s1 < s2" if "run_between acc s1 e" "run_between acc s2 e" for s1 s2
  proof
    assume "s1 < s2"
    then have "s1 \<le> s2 - 1" "s2 - 1 < e" using that(2) by (auto simp: run_between_def)
    then have "vme_acked (acc (s2 - 1))" using that(1) unfolding run_between_def by blast
    then show False using that(2) \<open>s1 < s2\<close> by (simp add: run_between_def run_start_def)
  qed
  show False using no [OF r] no [OF r(2,1)] \<open>s \<noteq> s'\<close> by simp
qed

lemma scan_loop_spec:
  assumes "\<forall>i. k \<le> i \<and> i < n \<longrightarrow> acc i \<noteq> - 1" "k \<le> n"
    and "found \<longleftrightarrow> 0 < k \<and> vme_acked (acc (k - 1))"
    and "found \<longrightarrow> start = 4 * s \<and> s < k \<and> run_start acc s \<and> (\<forall>i. s \<le> i \<and> i < k \<longrightarrow> vme_acked (acc i))"
  shows "case run_scan_loop acc [k..<n] found start cnt of (r, ps) \<Rightarrow>
    r = int (cnt + card {i. k \<le> i \<and> i < n \<and> run_start acc i}) \<and>
    set ps = {(4 * s, 4 * e) | s e. k \<le> e \<and> e < n \<and> run_between acc s e} \<and>
    int (length ps) + of_bool (0 < n \<and> vme_acked (acc (n - 1))) = r - int cnt + of_bool found"
  using assms
proof (induction "n - k" arbitrary: k found start s cnt)
  case 0
  then show ?case by auto
next
  case (Suc m)
  have k: "k < n" and up: "[k..<n] = k # [Suc k..<n]"
    using Suc.hyps(2) by (simp_all add: upt_conv_Cons)
  have m: "m = n - Suc k" "Suc k \<le> n" using Suc.hyps(2) by simp_all
  have no1: "\<forall>i. Suc k \<le> i \<and> i < n \<longrightarrow> acc i \<noteq> - 1" using Suc.prems(1) by simp
  have fin: "finite {i. Suc k \<le> i \<and> i < n \<and> run_start acc i}" by simp
  have cards: "{i. k \<le> i \<and> i < n \<and> run_start acc i} =
      (if run_start acc k then insert k {i. Suc k \<le> i \<and> i < n \<and> run_start acc i}
       else {i. Suc k \<le> i \<and> i < n \<and> run_start acc i})"
    using k by (auto simp: le_less Suc_le_eq)
  have sets: "{(4 * s, 4 * e) | s e. k \<le> e \<and> e < n \<and> run_between acc s e} =
      {(4 * s, 4 * e) | s e. e = k \<and> run_between acc s e} \<union>
      {(4 * s, 4 * e) | s e. Suc k \<le> e \<and> e < n \<and> run_between acc s e}"
    using k by (auto simp: le_less Suc_le_eq)
  have not1: "acc k \<noteq> - 1" using Suc.prems(1) k by simp
  have starts: "run_start acc k \<longleftrightarrow> vme_acked (acc k) \<and> \<not> found"
    using Suc.prems(3) by (auto simp: run_start_def)
  consider (ends) "found" "\<not> vme_acked (acc k)" | (begins) "\<not> found" "vme_acked (acc k)"
    | (inside) "found" "vme_acked (acc k)" | (outside) "\<not> found" "\<not> vme_acked (acc k)" by blast
  then show ?case
  proof cases
    case ends
    have here: "{(4 * s', 4 * e) | s' e. e = k \<and> run_between acc s' e} = {(start, 4 * k)}"
    proof -
      have "run_between acc s k" using Suc.prems(4) ends by (auto simp: run_between_def)
      then have "run_between acc s' k \<longleftrightarrow> s' = s" for s' using run_between_unique by blast
      then show ?thesis using Suc.prems(4) ends by auto
    qed
    have "\<not> run_start acc k" using starts ends by simp
    then show ?thesis
      using Suc.hyps(1) [OF m(1) no1 m(2), of False start 0 cnt] ends not1 here
      by (auto simp: up cards sets split: prod.splits)
  next
    case begins
    have here: "{(4 * s', 4 * e) | s' e. e = k \<and> run_between acc s' e} = {}"
      using begins by (auto simp: run_between_def)
    have st: "run_start acc k" using starts begins by simp
    have "\<forall>i. k \<le> i \<and> i < Suc k \<longrightarrow> vme_acked (acc i)" using begins by (auto simp: less_Suc_eq)
    then show ?thesis
      using Suc.hyps(1) [OF m(1) no1 m(2), of True "4 * k" k "cnt + 1"] begins not1 here st fin
      by (auto simp: up cards sets split: prod.splits)
  next
    case inside
    have here: "{(4 * s', 4 * e) | s' e. e = k \<and> run_between acc s' e} = {}"
      using inside by (auto simp: run_between_def)
    have st: "\<not> run_start acc k" using starts inside by simp
    have "start = 4 * s \<and> s < Suc k \<and> run_start acc s \<and> (\<forall>i. s \<le> i \<and> i < Suc k \<longrightarrow> vme_acked (acc i))"
      using Suc.prems(4) inside by (auto simp: less_Suc_eq)
    then show ?thesis
      using Suc.hyps(1) [OF m(1) no1 m(2), of True start s cnt] inside not1 here st
      by (auto simp: up cards sets split: prod.splits)
  next
    case outside
    have here: "{(4 * s', 4 * e) | s' e. e = k \<and> run_between acc s' e} = {}"
    proof -
      have "\<not> run_between acc s' k" for s'
      proof
        assume "run_between acc s' k"
        then have "vme_acked (acc (k - 1))" "0 < k" by (auto simp: run_between_def)
        then show False using Suc.prems(3) outside by simp
      qed
      then show ?thesis by blast
    qed
    have "\<not> run_start acc k" using starts outside by simp
    then show ?thesis
      using Suc.hyps(1) [OF m(1) no1 m(2), of False start s cnt] outside not1 here
      by (auto simp: up cards sets split: prod.splits)
  qed
qed

text \<open>C32: as long as the bus answers, \<open>v120 scan\<close> counts every run of answering addresses once and prints
  exactly the runs that end before the end of the space, each with its first address and the first
  address behind it: a run up to the end of the space is counted as a card but not printed.\<close>

theorem scan_finds_runs:
  assumes "\<forall>i < n. acc i \<noteq> - 1" "run_scan acc n = (cnt, ranges)"
  shows "cnt = int (card {i. i < n \<and> run_start acc i}) \<and>
    set ranges = {(4 * s, 4 * e) | s e. e < n \<and> run_between acc s e} \<and>
    int (length ranges) = cnt - of_bool (0 < n \<and> vme_acked (acc (n - 1)))"
  using scan_loop_spec [of 0 n acc False 0 0 0] assms by (auto simp: run_scan_def)

theorem scan_finds_runs_witness:
  "run_scan (\<lambda>i. if i \<in> {1, 2, 5} then 1 else 0) 6 = (2, [(4, 12)]) \<and>
   run_between (\<lambda>i. if i \<in> {1, 2, 5} then 1 else 0) 1 3"
proof -
  let ?acc = "\<lambda>i. if i \<in> {1 :: nat, 2, 5} then 1 else 0 :: u32"
  have r: "run_scan ?acc 6 = (2, [(4, 12)])"
    by (simp add: run_scan_def upt_rec vme_acked_def)
  define acc where "acc = ?acc"
  have "\<forall>i < 6. acc i \<noteq> - 1" "run_scan acc 6 = (2, [(4, 12)])"
    unfolding acc_def using r by simp_all
  from scan_finds_runs [OF this]
  have eq: "set [(4, 12)] = {(4 * s, 4 * e) | s e. e < 6 \<and> run_between acc s e}" by blast
  have "(4, 12) \<in> {(4 * s, 4 * e) | s e. e < 6 \<and> run_between acc s e}"
    unfolding eq [symmetric] by simp
  then obtain s e where se: "4 * s = 4" "4 * e = 12" "run_between acc s e" by auto
  then have "s = 1" "e = 3" by simp_all
  with se(3) have "run_between acc 1 3" by blast
  then show ?thesis using r unfolding acc_def by blast
qed

end
