(* ===== verification/Tui_Text.thy ===== *)
theory Tui_Text
  imports C_Stdio
begin

text \<open>
  Text helpers of the browser program: line stripping (\<open>v120_tui/rnm.c\<close>), path names and the string
  hash (\<open>v120_tui/helpers.c\<close>), lines of a file as \<open>fgets\<close> delivers them, and the fields \<open>strtok_r\<close>
  finds. A \<open>char\<close> is signed.
\<close>

section \<open>Lines\<close>

text \<open>\<open>fgets\<close> into \<open>n\<close> bytes takes at most \<open>n - 1\<close> characters, up to and with the next newline.\<close>

fun fgets_take :: "nat \<Rightarrow> string \<Rightarrow> string \<times> string" where
  "fgets_take 0 inp = ([], inp)"
| "fgets_take (Suc n) [] = ([], [])"
| "fgets_take (Suc n) (c # cs) =
     (if c = char_of (10 :: nat) then ([c], cs)
      else (let (l, rest) = fgets_take n cs in (c # l, rest)))"

lemma fgets_take_length: "fgets_take n inp = (l, rest) \<Longrightarrow> length l + length rest = length inp \<and> length l \<le> n"
  by (induction n inp arbitrary: l rest rule: fgets_take.induct) (auto split: if_splits prod.splits)

lemma fgets_take_some: "fgets_take (Suc n) (c # cs) = (l, rest) \<Longrightarrow> l \<noteq> []"
  by (auto split: if_splits prod.splits)

text \<open>All lines of a file, read with a buffer of \<open>n\<close> bytes.\<close>

function fgets_lines :: "nat \<Rightarrow> string \<Rightarrow> string list" where
  "fgets_lines n inp =
     (if inp = [] \<or> n < 2 then []
      else (case fgets_take (n - 1) inp of (l, rest) \<Rightarrow> l # fgets_lines n rest))"
  by pat_completeness auto
termination
proof (relation "measure (\<lambda>(n, inp). length inp)")
  fix n :: nat and inp :: string and x l rest
  assume a: "\<not> (inp = [] \<or> n < 2)" "(l, rest) = fgets_take (n - 1) inp"
  then obtain c cs m where "inp = c # cs" "n - 1 = Suc m"
    by (cases inp; cases "n - 1") auto
  then have "l \<noteq> []" using a(2) fgets_take_some [of m c cs l rest] by simp
  then show "((n, rest), (n, inp)) \<in> measure (\<lambda>(n, inp). length inp)"
    using fgets_take_length [OF a(2) [symmetric]] by (cases l) simp_all
qed simp

declare fgets_lines.simps [simp del]

definition vmebriscomment :: "char \<Rightarrow> bool" where
  "vmebriscomment c \<longleftrightarrow> c = CHR ''#''"

definition vmebriseol :: "char \<Rightarrow> bool" where
  "vmebriseol c \<longleftrightarrow> c = char_of (0 :: nat) \<or> c = char_of (10 :: nat) \<or> c = char_of (13 :: nat) \<or> vmebriscomment c"

fun slide :: "string \<Rightarrow> string" where
  "slide [] = []"
| "slide (c # cs) = (if c_isblank c then slide cs else c # cs)"

text \<open>The backward loop of \<open>linestrip\<close> cuts the blanks in front of the end.\<close>

fun trim_end :: "string \<Rightarrow> string" where
  "trim_end [] = []"
| "trim_end (c # cs) = (let t = trim_end cs in if t = [] \<and> c_isblank c then [] else c # t)"

definition linestrip :: "string \<Rightarrow> string" where
  "linestrip s = trim_end (takeWhile (\<lambda>c. \<not> vmebriseol c) (slide s))"

text \<open>\<open>strtok_r\<close> with one separator: the non-empty fields.\<close>

function strtok_fields :: "char \<Rightarrow> string \<Rightarrow> string list" where
  "strtok_fields d s =
     (case dropWhile (\<lambda>c. c = d) s of
        [] \<Rightarrow> []
      | c # cs \<Rightarrow> takeWhile (\<lambda>c. c \<noteq> d) (c # cs) # strtok_fields d (dropWhile (\<lambda>c. c \<noteq> d) cs))"
  by pat_completeness auto
termination
proof (relation "measure (\<lambda>(d, s). length s)")
  fix d c :: char and s cs :: string
  assume "dropWhile (\<lambda>c. c = d) s = c # cs"
  then have "Suc (length cs) \<le> length s" using length_dropWhile_le [of "\<lambda>c. c = d" s] by simp
  moreover have "length (dropWhile (\<lambda>c. c \<noteq> d) cs) \<le> length cs" by (rule length_dropWhile_le)
  ultimately show "((d, dropWhile (\<lambda>c. c \<noteq> d) cs), (d, s)) \<in> measure (\<lambda>(d, s). length s)" by simp
qed simp

declare strtok_fields.simps [simp del]

section \<open>The string hash\<close>

text \<open>\<open>long\<close> arithmetic with wrap-around; the characters are signed.\<close>

definition hashstring :: "string \<Rightarrow> u64" where
  "hashstring s =
     (let hash = foldl (\<lambda>hash c. 31 * hash + of_int (sint (of_nat (of_char c) :: u8))) 0 s
      in if sint hash < 0 then - hash else hash)"

section \<open>Path names\<close>

record path_env =
  pe_home :: string
  pe_path :: "string list"
  pe_access :: "string \<Rightarrow> bool"
  pe_malloc :: bool

definition strdup_opt :: "bool \<Rightarrow> string \<Rightarrow> string option" where
  "strdup_opt mem s = (if mem then Some s else None)"

definition home2root :: "path_env \<Rightarrow> string \<Rightarrow> string option" where
  "home2root g path =
     (case path of
        c # rest \<Rightarrow>
          if c = CHR ''~'' then
            (if rest = [] \<or> hd rest \<noteq> CHR ''/'' then None
             else strdup_opt (pe_malloc g) (snprintf_text 127 (pe_home g @ ''/'' @ tl rest)))
          else if c = CHR ''/'' then strdup_opt (pe_malloc g) path
          else None
      | [] \<Rightarrow> None)"

fun unk2root_search :: "path_env \<Rightarrow> string \<Rightarrow> string list \<Rightarrow> string \<Rightarrow> string option" where
  "unk2root_search g filename ps buf =
     (if pe_access g buf then Some buf
      else (case ps of [] \<Rightarrow> None
        | p # ps' \<Rightarrow> unk2root_search g filename ps' (snprintf_text 512 (p @ ''/'' @ filename))))"

definition unk2root :: "path_env \<Rightarrow> string \<Rightarrow> string option" where
  "unk2root g filename =
     (case unk2root_search g filename (pe_path g) (take 511 filename) of
        None \<Rightarrow> None | Some buf \<Rightarrow> strdup_opt (pe_malloc g) buf)"

definition getfullpath :: "path_env \<Rightarrow> string \<Rightarrow> string option" where
  "getfullpath g filename =
     (if filename \<noteq> [] \<and> (hd filename = CHR ''~'' \<or> hd filename = CHR ''/'') then home2root g filename
      else unk2root g filename)"

text \<open>\<open>fs\<close> says what \<open>fopen\<close> answers.\<close>

definition infilesearch :: "path_env \<Rightarrow> (string \<Rightarrow> string option) \<Rightarrow> string \<Rightarrow> string option" where
  "infilesearch g fs filename = (case getfullpath g filename of None \<Rightarrow> None | Some pathnew \<Rightarrow> fs pathnew)"

definition dirstrip :: "string \<Rightarrow> string" where
  "dirstrip name = rev (takeWhile (\<lambda>c. c \<noteq> CHR ''/'') (rev name))"

section \<open>Highlighting\<close>

text \<open>What is drawn on the terminal: attributes, moves of the cursor and characters.\<close>

datatype tt = TTBold bool | TTPut char | TTRev bool | TTPlain | TTMove int int

fun highlight_loop :: "string \<Rightarrow> tt list" where
  "highlight_loop [] = []"
| "highlight_loop (c # s) =
     (if c = CHR ''^'' then TTBold True else if c = CHR ''`'' then TTBold False else TTPut c) # highlight_loop s"

definition highlight :: "string \<Rightarrow> tt list" where
  "highlight s = highlight_loop s @ [TTBold False]"

definition spaceprint :: "int \<Rightarrow> int \<Rightarrow> int \<Rightarrow> tt list" where
  "spaceprint row col len = TTMove row col # replicate (nat len) (TTPut (CHR '' ''))"

end
