(* ===== verification/Tui_Edit.thy ===== *)
theory Tui_Edit
  imports Tui_Text
begin

text \<open>
  The line editor (\<open>editline\<close> of \<open>v120_tui/helpers.c\<close>) and the prompts that use it (\<open>mbgets\<close> and
  \<open>mbgetval\<close> of \<open>v120_tui/display.c\<close>). The buffer is the array of its characters with the
  terminating NUL; the keys pressed are a list of key codes, and waiting for a key that never comes
  is \<open>Blocked\<close>. What is drawn on the screen is left out.
\<close>

section \<open>Keys\<close>

definition KEY_LEFT :: int where "KEY_LEFT = 260"
definition KEY_RIGHT :: int where "KEY_RIGHT = 261"
definition KEY_UP :: int where "KEY_UP = 259"
definition KEY_DOWN :: int where "KEY_DOWN = 258"
definition KEY_DC :: int where "KEY_DC = 330"
definition KEY_PPAGE :: int where "KEY_PPAGE = 339"
definition KEY_NPAGE :: int where "KEY_NPAGE = 338"
definition KEY_HOME :: int where "KEY_HOME = 262"
definition KEY_END :: int where "KEY_END = 360"
definition KEY_BACKSPACE :: int where "KEY_BACKSPACE = 263"

definition TO_CTRL :: "int \<Rightarrow> int" where
  "TO_CTRL c = c AND 31"

definition key_of :: "char \<Rightarrow> int" where
  "key_of c = int (of_char c)"

declare KEY_LEFT_def [key_eval] KEY_RIGHT_def [key_eval] KEY_UP_def [key_eval] KEY_DOWN_def [key_eval]
  KEY_HOME_def [key_eval] KEY_END_def [key_eval] KEY_PPAGE_def [key_eval] KEY_NPAGE_def [key_eval]
  KEY_DC_def [key_eval] KEY_BACKSPACE_def [key_eval] TO_CTRL_def [key_eval] key_of_def [key_eval]

definition key_isprint :: "int \<Rightarrow> bool" where
  "key_isprint c \<longleftrightarrow> 32 \<le> c \<and> c < 127"

abbreviation NUL :: char where "NUL \<equiv> char_of (0 :: nat)"

section \<open>The editor\<close>

text \<open>The two shifting loops; the second one reads the byte before the buffer (\<open>junk\<close>) at index 0.\<close>

function shift_left :: "nat \<Rightarrow> nat \<Rightarrow> string \<Rightarrow> string" where
  "shift_left i e s = (if i < e then shift_left (Suc i) e (s[i := s ! Suc i]) else s)"
  by pat_completeness auto
termination by (relation "measure (\<lambda>(i, e, s). e - i)") auto

declare shift_left.simps [simp del]

fun shift_right :: "char \<Rightarrow> nat \<Rightarrow> nat \<Rightarrow> string \<Rightarrow> string" where
  "shift_right junk lo 0 s = (if lo = 0 then s[0 := junk] else s)"
| "shift_right junk lo (Suc i) s =
     (if lo \<le> Suc i then shift_right junk lo i (s[Suc i := s ! i]) else s)"

record editor =
  ed_s :: string
  ed_tpos :: nat
  ed_tail :: nat

text \<open>One key that does not end the editing.\<close>

definition edit_key :: "int \<Rightarrow> char \<Rightarrow> int \<Rightarrow> editor \<Rightarrow> editor" where
  "edit_key n junk c ed =
     (let s = ed_s ed; tpos = ed_tpos ed; tail = ed_tail ed;
          ed = (if c = 127 \<or> c = KEY_BACKSPACE \<or> c = TO_CTRL (key_of (CHR ''H'')) then
                  (if 0 < tpos then
                     \<lparr>ed_s = shift_left (tpos - 1) (tail - 1) s, ed_tpos = tpos - 1, ed_tail = tail - 1\<rparr>
                   else ed)
                else if c = KEY_DC then
                  (if tpos < tail then \<lparr>ed_s = shift_left tpos tail s, ed_tpos = tpos, ed_tail = tail - 1\<rparr> else ed)
                else if c = KEY_LEFT then (if 0 < tpos then ed\<lparr>ed_tpos := tpos - 1\<rparr> else ed)
                else if c = KEY_RIGHT then (if tpos < tail then ed\<lparr>ed_tpos := tpos + 1\<rparr> else ed)
                else if \<not> key_isprint c then ed
                else if n - 1 \<le> int tail then ed
                else
                  \<lparr>ed_s = (shift_right junk tpos tail s)[tpos := char_of (nat c)], ed_tpos = tpos + 1,
                   ed_tail = tail + 1\<rparr>)
      in ed\<lparr>ed_s := (ed_s ed)[ed_tail ed := NUL]\<rparr>)"

fun edit_loop :: "int \<Rightarrow> string \<Rightarrow> char \<Rightarrow> int list \<Rightarrow> editor \<Rightarrow> (int \<times> editor \<times> int list) outcome" where
  "edit_loop n exit junk [] ed = Blocked"
| "edit_loop n exit junk (c # keys) ed =
     (if c \<in> key_of ` set exit then Done (c, ed, keys)
      else if c = 10 \<or> c = 27 then Done (c, ed, keys)
      else edit_loop n exit junk keys (edit_key n junk c ed))"

definition cstr :: "string \<Rightarrow> string" where
  "cstr s = takeWhile (\<lambda>c. c \<noteq> NUL) s"

definition clip_pos :: "int \<Rightarrow> nat \<Rightarrow> nat" where
  "clip_pos cpos tail = (if int tail < cpos then tail else if cpos < 0 then 0 else nat cpos)"

definition editline :: "string \<Rightarrow> int \<Rightarrow> int \<Rightarrow> string \<Rightarrow> char \<Rightarrow> int list \<Rightarrow> (int \<times> string \<times> nat \<times> int list) outcome" where
  "editline s n cpos exit junk keys =
     (let tail = length (cstr s) in
      obind (edit_loop n exit junk keys \<lparr>ed_s = s, ed_tpos = clip_pos cpos tail, ed_tail = tail\<rparr>)
        (\<lambda>(ret, ed, keys). Done (ret, ed_s ed, ed_tpos ed, keys)))"

section \<open>Prompts\<close>

text \<open>\<open>mem\<close> is the success of \<open>malloc\<close>; \<open>ncols\<close> the width of the terminal.\<close>

definition mbgets :: "bool \<Rightarrow> int \<Rightarrow> char \<Rightarrow> string \<Rightarrow> int list \<Rightarrow> (string option \<times> int list) outcome" where
  "mbgets mem ncols junk prompt keys =
     obind (editline (replicate 128 NUL) (ncols - int (length prompt) - 2) 0 '''' junk keys)
       (\<lambda>(outchar, s, cpos, keys).
         Done (if outchar = 10 \<and> mem then Some (cstr s) else None, keys))"

text \<open>The keys h and t switch the base and go on with the same text; the fuel is the number of keys.\<close>

fun mbgetval_loop ::
  "nat \<Rightarrow> int \<Rightarrow> char \<Rightarrow> nat \<Rightarrow> string \<Rightarrow> int \<Rightarrow> int list \<Rightarrow> (int option \<times> int list) outcome" where
  "mbgetval_loop 0 len junk base s cpos keys = NoFuel"
| "mbgetval_loop (Suc fuel) len junk base s cpos keys =
     obind (editline s len cpos ''hHtT'' junk keys) (\<lambda>(outchar, s, cpos, keys).
       if outchar = 10 then Done (Some (sint (of_int (fst (strtol base (cstr s) 0)) :: u32)), keys)
       else if outchar = key_of (CHR ''h'') \<or> outchar = key_of (CHR ''H'')
       then mbgetval_loop fuel len junk 16 s (int cpos) keys
       else if outchar = key_of (CHR ''t'') \<or> outchar = key_of (CHR ''T'')
       then mbgetval_loop fuel len junk 0 s (int cpos) keys
       else Done (None, keys))"

definition mbgetval :: "int \<Rightarrow> char \<Rightarrow> string \<Rightarrow> int list \<Rightarrow> (int option \<times> int list) outcome" where
  "mbgetval ncols junk prompt keys =
     mbgetval_loop (Suc (length keys)) (ncols - int (length prompt) - 2) junk 16 (replicate 128 NUL) 0 keys"

section \<open>Loops over keys\<close>

text \<open>
  The loop of an editor: it takes keys until one stops it. Two editors with the same stopping keys
  whose steps keep a relation between their states end with the same key and related states.
\<close>

locale key_loop =
  fixes stop :: "int \<Rightarrow> bool"
    and step :: "int \<Rightarrow> 'e \<Rightarrow> 'e"
    and loop :: "int list \<Rightarrow> 'e \<Rightarrow> (int \<times> 'e \<times> int list) outcome"
  assumes loop_Nil: "loop [] e = Blocked"
    and loop_Cons: "loop (c # keys) e = (if stop c then Done (c, e, keys) else loop keys (step c e))"
begin

lemma loop_blocked: "loop keys e = Blocked \<longleftrightarrow> list_all (\<lambda>c. \<not> stop c) keys"
  by (induction keys arbitrary: e) (simp_all add: loop_Nil loop_Cons)

lemma loop_fold:
  "list_all (\<lambda>c. \<not> stop c) pre \<Longrightarrow> stop c \<Longrightarrow> loop (pre @ c # rest) e = Done (c, fold step pre e, rest)"
  by (induction pre arbitrary: e) (simp_all add: loop_Cons)

lemma loop_cases:
  obtains (wait) "loop keys e = Blocked"
  | (stop) pre c rest where "keys = pre @ c # rest" "list_all (\<lambda>c. \<not> stop c) pre" "stop c"
      "loop keys e = Done (c, fold step pre e, rest)"
proof (cases "list_all (\<lambda>c. \<not> stop c) keys")
  case True
  then show ?thesis using wait loop_blocked by blast
next
  case False
  then have "\<exists>c \<in> set keys. stop c" by (auto simp: list_all_iff)
  then obtain pre c rest where "keys = pre @ c # rest" "stop c" "\<forall>c \<in> set pre. \<not> stop c"
    by (rule split_list_first_propE)
  then show ?thesis using stop [of pre c rest] loop_fold [of pre c rest e] by (simp add: list_all_iff)
qed

lemma loop_reads: "loop keys e = Done (c, e', rest) \<Longrightarrow> length rest < length keys"
  by (cases rule: loop_cases [of keys e]) auto

lemma loop_fuel: "loop keys e \<noteq> NoFuel"
  by (cases rule: loop_cases [of keys e]) auto

end

locale key_simulation =
  impl: key_loop stop step loop + spec: key_loop stop astep aloop
  for stop :: "int \<Rightarrow> bool"
    and step :: "int \<Rightarrow> 'e \<Rightarrow> 'e" and loop :: "int list \<Rightarrow> 'e \<Rightarrow> (int \<times> 'e \<times> int list) outcome"
    and astep :: "int \<Rightarrow> 'a \<Rightarrow> 'a" and aloop :: "int list \<Rightarrow> 'a \<Rightarrow> (int \<times> 'a \<times> int list) outcome" +
  fixes rel :: "'e \<Rightarrow> 'a \<Rightarrow> bool"
  assumes step_rel: "rel e a \<Longrightarrow> rel (step c e) (astep c a)"
begin

lemma fold_rel: "rel e a \<Longrightarrow> rel (fold step keys e) (fold astep keys a)"
  by (induction keys arbitrary: e a) (simp_all add: step_rel)

lemma loop_rel:
  assumes "rel e a"
  obtains (wait) "loop keys e = Blocked" "aloop keys a = Blocked"
  | (stop) c e' a' rest where "loop keys e = Done (c, e', rest)" "aloop keys a = Done (c, a', rest)" "rel e' a'"
proof (cases rule: impl.loop_cases [of keys e])
  case wait
  then show ?thesis using that(1) impl.loop_blocked spec.loop_blocked by blast
next
  case (stop pre c rest)
  then show ?thesis using that(2) spec.loop_fold [of pre c rest a] fold_rel [OF assms] by blast
qed

end

section \<open>The editor on plain text\<close>

text \<open>What a key does to the text and the cursor.\<close>

definition text_key :: "int \<Rightarrow> int \<Rightarrow> string \<times> nat \<Rightarrow> string \<times> nat" where
  "text_key n c tp =
     (case tp of (t, p) \<Rightarrow>
        if c = 127 \<or> c = KEY_BACKSPACE \<or> c = TO_CTRL (key_of (CHR ''H'')) then
          (if 0 < p then (take (p - 1) t @ drop p t, p - 1) else (t, p))
        else if c = KEY_DC then (take p t @ drop (Suc p) t, p)
        else if c = KEY_LEFT then (t, p - 1)
        else if c = KEY_RIGHT then (t, min (length t) (p + 1))
        else if key_isprint c \<and> int (length t) < n - 1 then (take p t @ [char_of (nat c)] @ drop p t, p + 1)
        else (t, p))"

fun text_loop :: "int \<Rightarrow> string \<Rightarrow> int list \<Rightarrow> string \<times> nat \<Rightarrow> (int \<times> (string \<times> nat) \<times> int list) outcome" where
  "text_loop n exit [] tp = Blocked"
| "text_loop n exit (c # keys) tp =
     (if c \<in> key_of ` set exit \<or> c = 10 \<or> c = 27 then Done (c, tp, keys)
      else text_loop n exit keys (text_key n c tp))"

lemma length_shift_left [simp]: "length (shift_left i e s) = length s"
  by (induction i e s rule: shift_left.induct) (subst shift_left.simps, simp)

lemma nth_shift_left:
  "e < length s \<Longrightarrow> k < length s \<Longrightarrow>
    shift_left i e s ! k = (if i \<le> k \<and> k < e then s ! Suc k else s ! k)"
proof (induction i e s rule: shift_left.induct)
  case (1 i e s)
  show ?case
  proof (cases "i < e")
    case True
    have "shift_left (Suc i) e (s[i := s ! Suc i]) ! k =
        (if Suc i \<le> k \<and> k < e then s[i := s ! Suc i] ! Suc k else s[i := s ! Suc i] ! k)"
      using True 1 by simp
    with True 1(2,3) show ?thesis
      by (cases "k = i") (simp_all add: shift_left.simps [of i] nth_list_update)
  qed (auto simp: shift_left.simps)
qed

lemma length_shift_right [simp]: "length (shift_right junk lo hi s) = length s"
  by (induction junk lo hi s rule: shift_right.induct) simp_all

lemma nth_shift_right:
  "hi < length s \<Longrightarrow> k < length s \<Longrightarrow>
    shift_right junk lo hi s ! k = (if lo \<le> k \<and> k \<le> hi then (if k = 0 then junk else s ! (k - 1)) else s ! k)"
proof (induction junk lo hi s rule: shift_right.induct)
  case (2 junk lo i s)
  show ?case
  proof (cases "lo \<le> Suc i")
    case True
    have "shift_right junk lo i (s[Suc i := s ! i]) ! k =
        (if lo \<le> k \<and> k \<le> i then (if k = 0 then junk else s[Suc i := s ! i] ! (k - 1))
         else s[Suc i := s ! i] ! k)"
      using True 2 by simp
    with True 2(2,3) show ?thesis
      by (cases "k = Suc i") (auto simp: nth_list_update le_Suc_eq)
  qed auto
qed auto

text \<open>The buffer holds the text \<open>t\<close>, ends it with a NUL, and has room for the longest line.\<close>

definition holds :: "int \<Rightarrow> editor \<Rightarrow> string \<times> nat \<Rightarrow> bool" where
  "holds n ed tp \<longleftrightarrow>
     (case tp of (t, p) \<Rightarrow>
        (\<forall>k < length t. ed_s ed ! k = t ! k) \<and> NUL \<notin> set t \<and> length t < length (ed_s ed) \<and>
        ed_s ed ! length t = NUL \<and>
        ed_tail ed = length t \<and> ed_tpos ed = p \<and> p \<le> length t \<and> n \<le> int (length (ed_s ed)))"

lemma holds_cstr: "holds n ed (t, p) \<Longrightarrow> cstr (ed_s ed) = t"
proof -
  assume h: "holds n ed (t, p)"
  then have eq: "take (length t) (ed_s ed) = t"
    by (intro nth_equalityI) (auto simp: holds_def)
  have "takeWhile (\<lambda>c. c \<noteq> NUL) (take (length t) (ed_s ed) @ drop (length t) (ed_s ed)) = t"
    using h unfolding eq by (subst takeWhile_append2) (auto simp: holds_def Cons_nth_drop_Suc [symmetric])
  then show ?thesis by (simp add: cstr_def)
qed

lemma holds_backspace:
  assumes "holds n ed (t, p)" "0 < p"
  shows "holds n \<lparr>ed_s = (shift_left (p - 1) (ed_tail ed - 1) (ed_s ed))[ed_tail ed - 1 := NUL],
           ed_tpos = p - 1, ed_tail = ed_tail ed - 1\<rparr> (take (p - 1) t @ drop p t, p - 1)"
  using assms by (auto simp: holds_def nth_shift_left nth_append nth_list_update dest: in_set_takeD in_set_dropD)

lemma holds_delete:
  assumes "holds n ed (t, p)" "p < length t"
  shows "holds n \<lparr>ed_s = (shift_left p (ed_tail ed) (ed_s ed))[ed_tail ed - 1 := NUL],
           ed_tpos = p, ed_tail = ed_tail ed - 1\<rparr> (take p t @ drop (Suc p) t, p)"
  using assms by (auto simp: holds_def nth_shift_left nth_append nth_list_update dest: in_set_takeD in_set_dropD)

lemma holds_insert:
  assumes "holds n ed (t, p)" "int (length t) < n - 1" "c \<noteq> NUL"
  shows "holds n \<lparr>ed_s = ((shift_right junk p (ed_tail ed) (ed_s ed))[p := c])[ed_tail ed + 1 := NUL],
           ed_tpos = p + 1, ed_tail = ed_tail ed + 1\<rparr> (take p t @ [c] @ drop p t, p + 1)"
  using assms
  by (auto simp: holds_def nth_shift_right nth_append nth_list_update nth_Cons' dest: in_set_takeD in_set_dropD)

lemma holds_move:
  assumes "holds n ed (t, p)" "q \<le> length t"
  shows "holds n \<lparr>ed_s = (ed_s ed)[ed_tail ed := NUL], ed_tpos = q, ed_tail = ed_tail ed\<rparr> (t, q)"
  using assms by (auto simp: holds_def nth_list_update)

lemma char_of_key:
  assumes "key_isprint c"
  shows "char_of (nat c) \<noteq> NUL"
proof -
  have "of_char (char_of (nat c) :: char) = nat c"
    using assms by (auto simp: of_char_of key_isprint_def intro!: mod_less)
  moreover have "of_char (NUL :: char) = (0 :: nat)"
    by (simp only: of_char_of take_bit_of_0)
  moreover have "0 < nat c"
    using assms by (simp add: key_isprint_def)
  ultimately show ?thesis by (metis less_irrefl)
qed

lemma edit_key_holds:
  assumes "holds n ed tp"
  shows "holds n (edit_key n junk c ed) (text_key n c tp)"
proof -
  obtain t p where tp: "tp = (t, p)" by fastforce
  obtain s where ed: "ed = \<lparr>ed_s = s, ed_tpos = p, ed_tail = length t\<rparr>" and p: "p \<le> length t"
    using assms by (cases ed) (auto simp: tp holds_def)
  note h = assms [unfolded tp ed]
  note stay = holds_move [OF h, simplified]
  consider (bsp) "c = 127 \<or> c = KEY_BACKSPACE \<or> c = TO_CTRL (key_of (CHR ''H''))" | (dc) "c = KEY_DC"
    | (lt) "c = KEY_LEFT" | (rt) "c = KEY_RIGHT"
    | (default) "c \<noteq> 127" "c \<noteq> KEY_BACKSPACE" "c \<noteq> TO_CTRL (key_of (CHR ''H''))" "c \<noteq> KEY_DC"
        "c \<noteq> KEY_LEFT" "c \<noteq> KEY_RIGHT" by blast
  then show ?thesis
  proof cases
    case bsp
    then show ?thesis
      using holds_backspace [OF h] stay [OF p] unfolding edit_key_def text_key_def tp ed
      by (cases "0 < p") (simp_all add: Let_def)
  next
    case dc
    then have "c \<noteq> 127" "c \<noteq> KEY_BACKSPACE" "c \<noteq> TO_CTRL (key_of (CHR ''H''))"
      by (simp_all add: key_eval)
    then show ?thesis
      using dc holds_delete [OF h] stay [OF p] p unfolding edit_key_def text_key_def tp ed
      by (cases "p < length t") (simp_all add: Let_def)
  next
    case lt
    then have "c \<noteq> 127" "c \<noteq> KEY_BACKSPACE" "c \<noteq> TO_CTRL (key_of (CHR ''H''))" "c \<noteq> KEY_DC"
      by (simp_all add: key_eval)
    then show ?thesis
      using lt stay [of "p - 1"] p unfolding edit_key_def text_key_def tp ed
      by (cases "0 < p") (simp_all add: Let_def)
  next
    case rt
    then have "c \<noteq> 127" "c \<noteq> KEY_BACKSPACE" "c \<noteq> TO_CTRL (key_of (CHR ''H''))" "c \<noteq> KEY_DC" "c \<noteq> KEY_LEFT"
      by (simp_all add: key_eval)
    moreover have "p < length t \<Longrightarrow> min (length t) (Suc p) = Suc p" by (simp add: min_absorb2)
    ultimately show ?thesis
      using rt stay [of "p + 1"] stay [OF p] p unfolding edit_key_def text_key_def tp ed
      by (cases "p < length t") (simp_all add: Let_def)
  next
    case default
    then show ?thesis
      using holds_insert [OF h _ char_of_key] stay [OF p] unfolding edit_key_def text_key_def tp ed
      by (cases "key_isprint c"; cases "int (length t) < n - 1") (simp_all add: Let_def)
  qed
qed

text \<open>The two loops, related by \<open>holds n\<close>.\<close>

interpretation editor: key_simulation "\<lambda>c. c \<in> key_of ` set exit \<or> c = 10 \<or> c = 27"
  "edit_key n junk" "edit_loop n exit junk" "text_key n" "text_loop n exit" "holds n"
  for n :: int and exit :: string and junk :: char
  by unfold_locales (auto intro: edit_key_holds)

lemma clip_pos_le: "clip_pos cpos tail \<le> tail"
  by (auto simp: clip_pos_def)

lemma text_key_length: "length t \<le> m \<Longrightarrow> n - 1 \<le> int m \<Longrightarrow> length (fst (text_key n c (t, p))) \<le> m"
  by (auto simp: text_key_def)

lemma text_loop_length:
  "text_loop n exit keys (t, p) = Done (ret, (t', p'), rest) \<Longrightarrow> length t \<le> m \<Longrightarrow> n - 1 \<le> int m \<Longrightarrow> length t' \<le> m"
proof (induction keys arbitrary: t p)
  case (Cons c keys)
  then show ?case
    using text_key_length [of t m n c p] by (cases "text_key n c (t, p)") (auto split: if_splits)
qed simp

lemma holds_start:
  assumes "NUL \<in> set s" "n \<le> int (length s)"
  shows "holds n \<lparr>ed_s = s, ed_tpos = clip_pos cpos (length (cstr s)), ed_tail = length (cstr s)\<rparr>
           (cstr s, clip_pos cpos (length (cstr s)))"
proof -
  have lt: "length (cstr s) < length s"
    using assms(1) unfolding cstr_def
    by (metis (mono_tags, lifting) length_takeWhile_le nat_less_le takeWhile_eq_all_conv
        takeWhile_eq_take take_all_iff)
  then have "s ! length (cstr s) = NUL"
    unfolding cstr_def using nth_length_takeWhile by blast
  moreover have "\<forall>k < length (cstr s). s ! k = cstr s ! k" "NUL \<notin> set (cstr s)"
    by (auto simp: cstr_def takeWhile_nth dest: set_takeWhileD)
  ultimately show ?thesis
    using lt assms(2) clip_pos_le by (simp add: holds_def)
qed

lemma holds_NUL: "holds n ed tp \<Longrightarrow> NUL \<in> set (ed_s ed)"
  by (auto simp: holds_def in_set_conv_nth)


text \<open>The fuel of \<open>mbgetval_loop\<close> is enough: every round reads a key.\<close>

lemma editline_reads:
  "editline s n cpos exit junk keys = Done (ret, s', p, rest) \<Longrightarrow> length rest < length keys"
  by (auto simp: editline_def Let_def obind_eq_Done dest: editor.impl.loop_reads)

lemma editline_fuel: "editline s n cpos exit junk keys \<noteq> NoFuel"
  by (auto simp: editline_def Let_def obind_eq_NoFuel editor.impl.loop_fuel)

lemma mbgetval_loop_fuel:
  "length keys < fuel \<Longrightarrow> mbgetval_loop fuel len junk base s cpos keys \<noteq> NoFuel"
proof (induction fuel arbitrary: base s cpos keys)
  case (Suc fuel)
  then show ?case
    using editline_reads [of s len cpos "''hHtT''" junk keys] editline_fuel [of s len cpos "''hHtT''" junk keys]
    by (auto simp: obind_eq_NoFuel split: if_splits)
qed simp

lemma mbgetval_returns: "mbgetval ncols junk prompt keys \<noteq> NoFuel"
  by (simp add: mbgetval_def mbgetval_loop_fuel del: mbgetval_loop.simps)

definition keys_demo :: "int list" where
  "keys_demo = map key_of ''vmx'' @ [KEY_LEFT, key_of (CHR ''e''), KEY_DC] @ map key_of ''120'' @ [10]"


end
