(* ===== verification/Tui_Token.thy ===== *)
theory Tui_Token
  imports Tui_Edit
begin

text \<open>
  The tokenizer of command files (\<open>v120_tui/token.c\<close>): a stack of token buffers, each with the line it
  was read from and the offsets of its arguments in that line, which the scanner cuts by writing NULs.
  The stream is the text that is left to read; an access outside the line is \<open>None\<close>.
\<close>

section \<open>Token buffers\<close>

definition NTOKENS :: nat where "NTOKENS = 100"
definition NARGS :: nat where "NARGS = 10"
definition LINE_MAX :: nat where "LINE_MAX = 256"

record token_buf =
  tk_argv :: "nat list"
  tk_argi :: nat
  tk_line :: string

definition tk_argc :: "token_buf \<Rightarrow> nat" where
  "tk_argc tb = length (tk_argv tb)"

abbreviation LF :: char where "LF \<equiv> char_of (10 :: nat)"
abbreviation CR :: char where "CR \<equiv> char_of (13 :: nat)"
abbreviation DQUOTE :: char where "DQUOTE \<equiv> char_of (34 :: nat)"
abbreviation SQUOTE :: char where "SQUOTE \<equiv> char_of (39 :: nat)"

section \<open>Scanning a line\<close>

text \<open>\<open>while (P( *s)) ++s;\<close> from offset \<open>s\<close>.\<close>

definition skip_while :: "(char \<Rightarrow> bool) \<Rightarrow> string \<Rightarrow> nat \<Rightarrow> nat" where
  "skip_while P line s = s + length (takeWhile P (drop s line))"

text \<open>
  The argument and the place where it is taken to end. The result of \<open>tokcslide\<close> is not used by the
  code: a double-quoted argument ends after its first character, a single-quoted one is empty.
\<close>

definition token_arg :: "string \<Rightarrow> nat \<Rightarrow> nat \<times> nat" where
  "token_arg line s =
     (if line ! s = DQUOTE then (s, s + 2)
      else if line ! s = SQUOTE then (s + 1, s + 1)
      else (s, skip_while (\<lambda>c. \<not> c_isspace c \<and> c \<noteq> NUL) line s))"

text \<open>The first argument is the number of arguments that still fit in \<open>argv\<close>.\<close>

fun token_scan :: "nat \<Rightarrow> string \<Rightarrow> nat \<Rightarrow> nat list \<Rightarrow> (string \<times> nat list) option" where
  "token_scan 0 line s argv = Some (line, argv)"
| "token_scan (Suc k) line s argv =
     (let s = skip_while c_isblank line s
      in if line ! s = NUL \<or> line ! s = CR \<or> line ! s = LF \<or> line ! s = CHR ''#'' then Some (line, argv)
         else (case token_arg line s of (a, s) \<Rightarrow>
           if k = 0 then Some (line, argv @ [a])
           else if length line \<le> s then None
           else if line ! s = NUL then Some (line, argv @ [a])
           else token_scan k (line[s := NUL]) (Suc s) (argv @ [a])))"

definition line_buf :: "string \<Rightarrow> string" where
  "line_buf l = l @ replicate (LINE_MAX - length l) NUL"

lemma fgets_take_rest:
  assumes "(l, rest) = fgets_take (LINE_MAX - Suc 0) inp" "inp \<noteq> []"
  shows "length rest < length inp"
proof -
  have "fgets_take (Suc 254) (hd inp # tl inp) = (l, rest)"
    using assms by (simp add: LINE_MAX_def)
  then have "l \<noteq> []" by (rule fgets_take_some)
  then show ?thesis
    using fgets_take_length [OF assms(1) [symmetric]] by (cases l) simp_all
qed

text \<open>The loop over the lines: blank and comment lines are skipped.\<close>

function token_read :: "string \<Rightarrow> (token_buf \<times> string) option" where
  "token_read inp =
     (if inp = [] then Some (\<lparr>tk_argv = [], tk_argi = 0, tk_line = replicate LINE_MAX NUL\<rparr>, [])
      else (case fgets_take (LINE_MAX - 1) inp of (l, rest) \<Rightarrow>
        case token_scan NARGS (line_buf l) 0 [] of
          None \<Rightarrow> None
        | Some (line, argv) \<Rightarrow>
            if argv = [] then token_read rest
            else Some (\<lparr>tk_argv = argv, tk_argi = 0, tk_line = line\<rparr>, rest)))"
  by pat_completeness auto
termination
  by (relation "measure length") (auto dest: fgets_take_rest)

declare token_read.simps [simp del]

definition token_start :: "bool \<Rightarrow> token_buf \<Rightarrow> string \<Rightarrow> (token_buf \<times> string) option" where
  "token_start keyboard tb inp = (if keyboard then Some (tb, inp) else token_read inp)"

definition token_next :: "token_buf \<Rightarrow> string option \<times> token_buf" where
  "token_next tb =
     (let i = tk_argi tb
      in if i < tk_argc tb then
           (let s = cstr (drop (tk_argv tb ! i) (tk_line tb))
            in (if s = '''' then None else Some s, tb\<lparr>tk_argi := i + 1\<rparr>))
         else (None, tb))"

definition token_nargs :: "token_buf \<Rightarrow> nat" where
  "token_nargs tb = tk_argc tb"

section \<open>The stack of buffers\<close>

record token_stack =
  ts_bufs :: "token_buf list"
  ts_ptok :: nat

definition tokenpush :: "token_stack \<Rightarrow> int \<times> token_stack" where
  "tokenpush ts = (if ts_ptok ts < NTOKENS - 1 then (0, ts\<lparr>ts_ptok := ts_ptok ts + 1\<rparr>) else (-1, ts))"

definition tokenpop :: "token_stack \<Rightarrow> token_stack" where
  "tokenpop ts = (if 0 < ts_ptok ts then ts\<lparr>ts_ptok := ts_ptok ts - 1\<rparr> else ts)"

definition ptok :: "token_stack \<Rightarrow> token_buf" where
  "ptok ts = ts_bufs ts ! ts_ptok ts"

definition set_ptok :: "token_buf \<Rightarrow> token_stack \<Rightarrow> token_stack" where
  "set_ptok tb ts = ts\<lparr>ts_bufs := (ts_bufs ts)[ts_ptok ts := tb]\<rparr>"

lemma tokenpop_tokenpush:
  assumes "ts_ptok ts < NTOKENS - 1"
  shows "fst (tokenpush ts) = 0 \<and> ptok (tokenpop (set_ptok tb (snd (tokenpush ts)))) = ptok ts"
  using assms by (simp add: tokenpush_def tokenpop_def set_ptok_def ptok_def)

section \<open>Words\<close>

text \<open>The words of a line: blanks separate them, a word that begins with # ends the line.\<close>

function line_words :: "string \<Rightarrow> string list" where
  "line_words s =
     (case dropWhile c_isblank s of
        [] \<Rightarrow> []
      | c # cs \<Rightarrow>
          if c = CHR ''#'' then []
          else (c # takeWhile (\<lambda>c. \<not> c_isblank c) cs) # line_words (dropWhile (\<lambda>c. \<not> c_isblank c) cs))"
  by pat_completeness auto
termination
proof (relation "measure length")
  fix s c cs
  assume "dropWhile c_isblank s = c # cs"
  then have "length (c # cs) \<le> length s" by (metis length_dropWhile_le)
  then show "(dropWhile (\<lambda>c. \<not> c_isblank c) cs, s) \<in> measure length"
    using length_dropWhile_le [of "\<lambda>c. \<not> c_isblank c" cs] by simp
qed simp

declare line_words.simps [simp del]

text \<open>The calls of \<open>token_next\<close> in a row.\<close>

fun next_n :: "nat \<Rightarrow> token_buf \<Rightarrow> string option list" where
  "next_n 0 tb = []"
| "next_n (Suc n) tb = (case token_next tb of (r, tb) \<Rightarrow> r # next_n n tb)"

section \<open>Scanning finds the words\<close>

definition plain :: "char \<Rightarrow> bool" where
  "plain c \<longleftrightarrow> c_isprint c \<or> c_isblank c"

definition unquoted :: "string \<Rightarrow> bool" where
  "unquoted l \<longleftrightarrow> (\<forall>w \<in> set (line_words l). hd w \<noteq> DQUOTE \<and> hd w \<noteq> SQUOTE)"

lemma of_char_char_of [simp]: "n < 256 \<Longrightarrow> (of_char (char_of (n :: nat) :: char) :: nat) = n"
  by (simp add: of_char_of)

lemma plain_simps:
  assumes "plain c"
  shows "c \<noteq> NUL" "c \<noteq> LF" "c \<noteq> CR" "c_isspace c = c_isblank c"
proof -
  have "c_isprint c \<or> c_isblank c" using assms by (simp add: plain_def)
  moreover have "\<not> c_isprint NUL \<and> \<not> c_isblank NUL" "\<not> c_isprint LF \<and> \<not> c_isblank LF"
    "\<not> c_isprint CR \<and> \<not> c_isblank CR"
    by (simp_all only: c_isprint_def c_isblank_def of_char_char_of) auto
  ultimately show "c \<noteq> NUL" "c \<noteq> LF" "c \<noteq> CR" by blast+
  show "c_isspace c = c_isblank c"
    using \<open>c_isprint c \<or> c_isblank c\<close> by (auto simp: c_isprint_def c_isblank_def c_isspace_def)
qed

lemma LF_simps: "c_isspace LF" "\<not> c_isblank LF" "LF \<noteq> NUL"
  by (simp_all only: c_isspace_def c_isblank_def of_char_char_of) (simp_all add: plain_def)

lemma skip_while_append:
  assumes "length pre = s" "\<forall>c \<in> set w. P c" "rest = [] \<or> \<not> P (hd rest)"
  shows "skip_while P (pre @ w @ rest) s = s + length w"
proof -
  have "takeWhile P (w @ rest) = w"
    using assms(2,3) by (cases rest) (auto simp: takeWhile_append2)
  then show ?thesis using assms(1) by (simp add: skip_while_def)
qed

lemma line_words_blank: "c_isblank c \<Longrightarrow> line_words (c # s) = line_words s"
  by (simp add: line_words.simps [of "c # s"] line_words.simps [of s])

lemma cstr_append: "NUL \<notin> set w \<Longrightarrow> cstr (w @ NUL # rest) = w"
  by (auto simp: cstr_def takeWhile_append)

lemma token_scan_end:
  assumes "\<forall>c \<in> set b. c_isblank c" "\<not> c_isblank c" "c \<in> {NUL, CR, LF, CHR ''#''}"
  shows "token_scan (Suc k) (pre @ b @ c # rest) (length pre) argv = Some (pre @ b @ c # rest, argv)"
  using skip_while_append [of pre "length pre" b c_isblank "c # rest"] assms
  by (auto simp: Let_def nth_append)

lemma token_scan_word:
  assumes "\<forall>c \<in> set b. c_isblank c" "\<forall>c \<in> set (c # w). plain c \<and> \<not> c_isblank c"
    "c \<noteq> CHR ''#''" "c \<noteq> DQUOTE" "c \<noteq> SQUOTE" "c_isspace e" "e \<noteq> NUL" "0 < k"
  shows "token_scan (Suc k) (pre @ b @ (c # w) @ e # rest) (length pre) argv =
    token_scan k ((pre @ b @ (c # w) @ [NUL]) @ rest) (length (pre @ b @ (c # w) @ [NUL])) (argv @ [length pre + length b])"
proof -
  have c: "plain c" "\<not> c_isblank c" using assms(2) by auto
  have s1: "skip_while c_isblank (pre @ b @ (c # w) @ e # rest) (length pre) = length (pre @ b)"
    using skip_while_append [of pre "length pre" b c_isblank "(c # w) @ e # rest"] assms(1) c by simp
  have s2: "skip_while (\<lambda>c. \<not> c_isspace c \<and> c \<noteq> NUL) (pre @ b @ (c # w) @ e # rest) (length (pre @ b)) =
      length (pre @ b @ (c # w))"
    using skip_while_append [of "pre @ b" _ "c # w" "\<lambda>c. \<not> c_isspace c \<and> c \<noteq> NUL" "e # rest"] assms(2,6)
      plain_simps by auto
  have ch: "(pre @ b @ (c # w) @ e # rest) ! length (pre @ b) = c"
    using nth_append_length [of "pre @ b" c] by simp
  have che: "(pre @ b @ (c # w) @ e # rest) ! length (pre @ b @ (c # w)) = e"
    using nth_append_length [of "pre @ b @ (c # w)" e rest] by (simp del: nth_append_length)
  have upd: "(pre @ b @ (c # w) @ e # rest)[length (pre @ b @ (c # w)) := NUL] = (pre @ b @ (c # w) @ [NUL]) @ rest"
    using list_update_length [of "pre @ b @ (c # w)" e rest NUL] by (simp del: list_update_length)
  have arg: "token_arg (pre @ b @ (c # w) @ e # rest) (length (pre @ b)) =
      (length (pre @ b), length (pre @ b @ (c # w)))"
    unfolding token_arg_def ch s2 using assms by simp
  show ?thesis
    unfolding token_scan.simps Let_def s1 ch arg prod.case che upd
    using plain_simps [OF c(1)] assms by simp
qed

lemma drop_word:
  assumes "take (length (p @ w @ [NUL])) line' = p @ w @ [NUL]" "NUL \<notin> set w"
  shows "cstr (drop (length p) line') = w"
proof -
  have "line' = (p @ w @ [NUL]) @ drop (length (p @ w @ [NUL])) line'"
    by (metis append_take_drop_id assms(1))
  then have "drop (length p) line' = w @ NUL # drop (length (p @ w @ [NUL])) line'"
    by (metis append.assoc append_Cons append_Nil append_eq_conv_conj)
  then show ?thesis using cstr_append [OF assms(2)] by simp
qed

lemma take_prefix: "take (length (p @ q)) line' = p @ q \<Longrightarrow> take (length p) line' = p"
  by (metis append_eq_conv_conj min.absorb2 length_append le_add1 take_take min.commute)

lemma line_words_cases:
  "dropWhile c_isblank l = [] \<Longrightarrow> line_words l = []"
  "dropWhile c_isblank l = CHR ''#'' # cs \<Longrightarrow> line_words l = []"
  "dropWhile c_isblank l = c # cs \<Longrightarrow> c \<noteq> CHR ''#'' \<Longrightarrow>
    line_words l = (c # takeWhile (\<lambda>c. \<not> c_isblank c) cs) # line_words (dropWhile (\<lambda>c. \<not> c_isblank c) cs)"
  by (simp_all only: line_words.simps [of l] list.case if_True if_False simp_thms)

lemma token_scan_words:
  assumes "\<forall>c \<in> set l. plain c" "unquoted l" "length (line_words l) < k"
  shows "\<exists>line' as. token_scan k (pre @ l @ LF # NUL # rest) (length pre) argv = Some (line', argv @ as) \<and>
    take (length pre) line' = pre \<and> map (\<lambda>a. cstr (drop a line')) as = line_words l"
  using assms
proof (induction "length l" arbitrary: l k pre argv rule: less_induct)
  case less
  obtain k' where k: "k = Suc k'" using less.prems(3) by (cases k) auto
  define b where "b = takeWhile c_isblank l"
  have b: "\<forall>c \<in> set b. c_isblank c" by (auto simp: b_def dest: set_takeWhileD)
  have l: "l = b @ dropWhile c_isblank l" by (simp add: b_def)
  show ?case
  proof (cases "dropWhile c_isblank l")
    case Nil
    have lb: "l = b" using l unfolding Nil by simp
    have "token_scan k (pre @ l @ LF # NUL # rest) (length pre) argv = Some (pre @ l @ LF # NUL # rest, argv @ [])"
      using token_scan_end [OF b LF_simps(2), of k' pre "NUL # rest" argv] unfolding k lb
      by (simp del: token_scan.simps)
    moreover have "line_words l = []" by (rule line_words_cases(1) [OF Nil])
    ultimately show ?thesis by fastforce
  next
    case (Cons c cs)
    have nb: "\<not> c_isblank c" using Cons by (metis hd_dropWhile list.discI list.sel(1))
    define w where "w = takeWhile (\<lambda>c. \<not> c_isblank c) cs"
    define r where "r = dropWhile (\<lambda>c. \<not> c_isblank c) cs"
    have cs: "cs = w @ r" by (simp add: w_def r_def)
    have lb: "l = b @ c # cs" using l unfolding Cons by simp
    then have lw: "l = b @ c # w @ r" using cs by simp
    show ?thesis
    proof (cases "c = CHR ''#''")
      case True
      then have "token_scan k (pre @ l @ LF # NUL # rest) (length pre) argv = Some (pre @ l @ LF # NUL # rest, argv @ [])"
        using token_scan_end [OF b nb, of k' pre "cs @ LF # NUL # rest" argv] unfolding k lb
        by (simp del: token_scan.simps)
      moreover have "line_words l = []" using Cons True line_words_cases(2) by blast
      ultimately show ?thesis by fastforce
    next
      case False
      have words: "line_words l = (c # w) # line_words r"
        unfolding w_def r_def by (rule line_words_cases(3) [OF Cons False])
      have q: "c \<noteq> DQUOTE" "c \<noteq> SQUOTE" "0 < k'"
        using less.prems(2,3) words k by (auto simp: unquoted_def)
      have pl: "\<forall>x \<in> set (c # w). plain x \<and> \<not> c_isblank x"
        using less.prems(1) nb lw by (auto simp: w_def dest: set_takeWhileD)
      then have nul: "NUL \<notin> set (c # w)" using plain_simps(1) by blast
      note step = token_scan_word [OF b pl False q(1,2) _ _ q(3), of _ pre _ argv]
      define pre' where "pre' = (pre @ b) @ (c # w) @ [NUL]"
      show ?thesis
      proof (cases r)
        case Nil
        have "token_scan k' (pre' @ [] @ NUL # rest) (length pre') (argv @ [length pre + length b]) =
            Some (pre' @ [] @ NUL # rest, argv @ [length pre + length b])"
          using q(3) token_scan_end [of "[]" NUL "k' - 1" pre' rest] plain_simps(1) by (simp del: token_scan.simps add: c_isblank_def)
        then have "token_scan k (pre @ l @ LF # NUL # rest) (length pre) argv =
            Some (pre' @ NUL # rest, argv @ [length (pre @ b)])"
          using step [OF LF_simps(1,3), of "NUL # rest"] lw Nil k by (simp del: token_scan.simps add: pre'_def)
        moreover have "cstr (drop (length (pre @ b)) (pre' @ NUL # rest)) = c # w"
          by (rule drop_word [OF _ nul]) (simp add: pre'_def)
        moreover have "line_words r = []" using Nil by (simp add: line_words_cases)
        ultimately show ?thesis
          using words by (intro exI [of _ "pre' @ NUL # rest"] exI [of _ "[length (pre @ b)]"]) (simp add: pre'_def)
      next
        case (Cons e l2)
        have e: "c_isblank e" using Cons unfolding r_def by (metis hd_dropWhile list.discI list.sel(1))
        have pe: "plain e" using less.prems(1) lw Cons by auto
        have w2: "line_words r = line_words l2" using Cons line_words_blank [OF e] by simp
        have "\<forall>c \<in> set l2. plain c" "unquoted l2" "length (line_words l2) < k'" "length l2 < length l"
          using less.prems words w2 lw Cons k by (auto simp: unquoted_def)
        then obtain line' as where ih:
          "token_scan k' (pre' @ l2 @ LF # NUL # rest) (length pre') (argv @ [length (pre @ b)]) =
             Some (line', (argv @ [length (pre @ b)]) @ as)"
          "take (length pre') line' = pre'" "map (\<lambda>a. cstr (drop a line')) as = line_words l2"
          using less.hyps by blast
        have "token_scan k (pre @ l @ LF # NUL # rest) (length pre) argv = Some (line', argv @ length (pre @ b) # as)"
          using step [of e "l2 @ LF # NUL # rest"] plain_simps [OF pe] e lw Cons k ih(1)
          by (simp del: token_scan.simps add: pre'_def)
        moreover have "cstr (drop (length (pre @ b)) line') = c # w"
          by (rule drop_word [OF _ nul]) (use ih(2) in \<open>simp add: pre'_def\<close>)
        moreover have "take (length pre) line' = pre"
          using take_prefix [of pre "b @ (c # w) @ [NUL]" line'] ih(2) by (simp add: pre'_def)
        ultimately show ?thesis
          using words w2 ih(3) by (intro exI [of _ line'] exI [of _ "length (pre @ b) # as"]) simp
      qed
    qed
  qed
qed

lemma fgets_take_line:
  "LF \<notin> set l \<Longrightarrow> length l < n \<Longrightarrow> fgets_take n (l @ LF # inp) = (l @ [LF], inp)"
proof (induction l arbitrary: n)
  case Nil
  then show ?case by (cases n) simp_all
next
  case (Cons c l)
  then show ?case by (cases n) auto
qed

lemma line_words_nonempty: "w \<in> set (line_words l) \<Longrightarrow> w \<noteq> ''''"
proof (induction l rule: line_words.induct)
  case (1 l)
  then show ?case
    by (cases "dropWhile c_isblank l"; cases "hd (dropWhile c_isblank l) = CHR ''#''")
      (auto simp: line_words_cases)
qed

lemma next_n_take:
  assumes "tk_argi tb \<le> tk_argc tb"
  shows "next_n n tb = take n (map (\<lambda>a. let s = cstr (drop a (tk_line tb)) in if s = '''' then None else Some s)
           (drop (tk_argi tb) (tk_argv tb)) @ replicate n None)"
  using assms
proof (induction n arbitrary: tb)
  case (Suc n)
  show ?case
  proof (cases "tk_argi tb < tk_argc tb")
    case True
    then have d: "drop (tk_argi tb) (tk_argv tb) = tk_argv tb ! tk_argi tb # drop (Suc (tk_argi tb)) (tk_argv tb)"
      by (simp add: tk_argc_def Cons_nth_drop_Suc)
    have IH: "next_n n (tb\<lparr>tk_argi := Suc (tk_argi tb)\<rparr>) =
        take n (map (\<lambda>a. let s = cstr (drop a (tk_line tb)) in if s = '''' then None else Some s)
           (drop (Suc (tk_argi tb)) (tk_argv tb)) @ replicate n None)"
      using Suc.IH [of "tb\<lparr>tk_argi := Suc (tk_argi tb)\<rparr>"] True by (simp add: tk_argc_def)
    have "take n (xs @ replicate (Suc n) None) = take n (xs @ replicate n None)" for xs :: "string option list"
      by (simp del: replicate_Suc add: min_def)
    then show ?thesis
      using IH True by (simp add: token_next_def Let_def d del: replicate.simps)
  next
    case False
    then have "drop (tk_argi tb) (tk_argv tb) = []" by (simp add: tk_argc_def)
    with False Suc show ?thesis by (simp add: token_next_def)
  qed
qed simp

lemma map_nonempty_Some:
  "(\<And>w. w \<in> set (map g as) \<Longrightarrow> w \<noteq> '''') \<Longrightarrow>
    map (\<lambda>a. let s = g a in if s = '''' then None else Some s) as = map Some (map g as)"
  by (induction as) (auto simp: Let_def)


definition tb_demo :: token_buf where
  "tb_demo = \<lparr>tk_argv = [], tk_argi = 0, tk_line = ''''\<rparr>"

definition line_demo :: string where
  "line_demo = ''  ld  m223.rnm # map''"


end
