(* ===== verification/Tui_Rnm.thy ===== *)
theory Tui_Rnm
  imports Tui_Text
begin

text \<open>
  Register name files (\<open>v120_tui/rnm.c\<close>): the parser, the hash table of names with its collision
  lists, and the cache of parsed files. A hash entry points into the array of register data, so it
  holds the index and the name is what is stored there at the time of the search. An access outside
  the array of registers ends the parse with the offending offset. The byte-order constants of the
  driver's header are a parameter.
\<close>

section \<open>Data\<close>

record vme_metadata =
  md_name :: string
  md_sign :: int
  md_dwidth :: int

record rnm_hash =
  rh_hash :: u64
  rh_idx :: nat

record rnm =
  r_mdata :: "vme_metadata list"
  r_path :: string
  r_len :: int
  r_endi :: u64
  r_dwidth :: int
  r_awidth :: int
  r_hash :: "int \<Rightarrow> rnm_hash list"
  r_name :: string

record endi_consts =
  V120_EAUTO' :: u64
  V120_ELONG' :: u64
  V120_EBYTE' :: u64
  V120_ESHORT' :: u64

definition RNM_HASH_SIZE :: int where "RNM_HASH_SIZE = 199"
definition RNM_FILE_BUFSIZE :: nat where "RNM_FILE_BUFSIZE = 256"
definition RNM_MAX_TOKENS :: nat where "RNM_MAX_TOKENS = 128"

text \<open>C's remainder has the sign of the dividend; outside 0 to 198 it misses the table.\<close>

definition bucket :: "u64 \<Rightarrow> int" where
  "bucket h = (if sint h < 0 then - ((- sint h) mod RNM_HASH_SIZE) else sint h mod RNM_HASH_SIZE)"

section \<open>The hash table\<close>

text \<open>A new entry goes to the head of an unused bucket or, if \<open>malloc\<close> succeeds, to its end.\<close>

definition add2hash :: "bool \<Rightarrow> rnm \<Rightarrow> string \<Rightarrow> nat \<Rightarrow> int \<times> rnm" where
  "add2hash mem rnm name index =
     (let hash = hashstring name; b = bucket hash; rh = r_hash rnm b;
          new = \<lparr>rh_hash = hash, rh_idx = index\<rparr> in
      if rh = [] then (0, rnm\<lparr>r_hash := (r_hash rnm)(b := [new])\<rparr>)
      else if mem then (0, rnm\<lparr>r_hash := (r_hash rnm)(b := rh @ [new])\<rparr>)
      else (- 1, rnm))"

fun hash_walk :: "rnm \<Rightarrow> string \<Rightarrow> u64 \<Rightarrow> rnm_hash list \<Rightarrow> int" where
  "hash_walk rnm name hash [] = - 1"
| "hash_walk rnm name hash (rh # rhs) =
     (if hash = rh_hash rh \<and> name = md_name (r_mdata rnm ! rh_idx rh) then int (rh_idx rh)
      else hash_walk rnm name hash rhs)"

definition rnmsearch :: "rnm \<Rightarrow> string \<Rightarrow> int" where
  "rnmsearch rnm name = (let hash = hashstring name in hash_walk rnm name hash (r_hash rnm (bucket hash)))"

text \<open>\<open>hashclear\<close> marks every bucket as unused; \<open>hashfree\<close> counts the collision entries it frees.\<close>

definition hashclear :: "rnm \<Rightarrow> rnm" where
  "hashclear rnm = rnm\<lparr>r_hash := (\<lambda>b. [])\<rparr>"

definition hashfree :: "rnm \<Rightarrow> nat" where
  "hashfree rnm = sum_list (map (\<lambda>b. length (r_hash rnm (int b)) - 1) [0..<nat RNM_HASH_SIZE])"

section \<open>One line\<close>

datatype line_result = LineOk rnm | LineErr rnm | LineOob int

definition char0 :: "string \<Rightarrow> char" where
  "char0 s = (case s of [] \<Rightarrow> char_of (0 :: nat) | c # _ \<Rightarrow> c)"

text \<open>\<open>int\<close> variables that receive a \<open>long\<close>.\<close>

definition int_of_strtol :: "string \<Rightarrow> int" where
  "int_of_strtol s = sint (of_int (fst (strtol 0 s 0)) :: u32)"

definition int_of_strtoul :: "string \<Rightarrow> int" where
  "int_of_strtoul s = sint (ucast (fst (strtoul 0 s 0)) :: u32)"

text \<open>Sign and data width of the register \<open>i\<close>; what precedes an error is kept.\<close>

definition linedata_attrs :: "rnm \<Rightarrow> nat \<Rightarrow> string list \<Rightarrow> line_result" where
  "linedata_attrs rnm i tokens =
     (let ntok = length tokens; c = c_toupper (char0 (tokens ! 2)) in
      if ntok < 3 then LineOk rnm
      else if c \<noteq> CHR ''S'' \<and> c \<noteq> CHR ''U'' then LineErr rnm
      else
        (let rnm = (if c = CHR ''S'' then rnm\<lparr>r_mdata := (r_mdata rnm)[i := (r_mdata rnm ! i)\<lparr>md_sign := - 1\<rparr>]\<rparr>
                    else rnm) in
         if ntok < 4 then LineOk rnm
         else if char0 (tokens ! 3) = CHR ''2'' then LineOk rnm
         else if char0 (tokens ! 3) = CHR ''4''
         then LineOk (rnm\<lparr>r_mdata := (r_mdata rnm)[i := (r_mdata rnm ! i)\<lparr>md_dwidth := 4\<rparr>]\<rparr>)
         else LineErr rnm))"

text \<open>A line with register data: offset, name, and the rest.\<close>

definition linedata_reg :: "bool \<Rightarrow> rnm \<Rightarrow> string list \<Rightarrow> line_result" where
  "linedata_reg mem rnm tokens =
     (let ntok = length tokens; toffs = int_of_strtoul (tokens ! 0) in
      if toffs < 0 \<or> int (length (r_mdata rnm)) \<le> toffs then LineOob toffs
      else
        (let i = nat toffs;
             rnm = rnm\<lparr>r_mdata := (r_mdata rnm)[i := \<lparr>md_name = '''', md_sign = 1, md_dwidth = 2\<rparr>]\<rparr> in
         if ntok < 2 then LineOk rnm
         else
           (let name = take 13 (linestrip (tokens ! 1));
                rnm = rnm\<lparr>r_mdata := (r_mdata rnm)[i := (r_mdata rnm ! i)\<lparr>md_name := name\<rparr>]\<rparr>
            in linedata_attrs (snd (add2hash mem rnm name i)) i tokens)))"

definition linedata :: "endi_consts \<Rightarrow> bool \<Rightarrow> rnm \<Rightarrow> string list \<Rightarrow> line_result" where
  "linedata ec mem rnm tokens =
     (if tokens = [] then LineOk rnm
      else
        (let ntok = length tokens; c = c_toupper (char0 (tokens ! 0)) in
         if c = CHR ''W'' then
           (if ntok < 2 then LineErr rnm
            else
              (let w = int_of_strtol (tokens ! 1); rnm = rnm\<lparr>r_dwidth := w\<rparr> in
               if w \<noteq> 2 \<and> w \<noteq> 4 then LineErr rnm else LineOk rnm))
         else if c = CHR ''E'' then
           (if ntok < 2 then LineErr rnm
            else
              (let e = c_toupper (char0 (tokens ! 1)) in
               if e = CHR ''A'' then LineOk (rnm\<lparr>r_endi := V120_EAUTO' ec\<rparr>)
               else if e = CHR ''L'' then LineOk (rnm\<lparr>r_endi := V120_ELONG' ec\<rparr>)
               else if e = CHR ''B'' then LineOk (rnm\<lparr>r_endi := V120_EBYTE' ec\<rparr>)
               else if e = CHR ''S'' then LineOk (rnm\<lparr>r_endi := V120_ESHORT' ec\<rparr>)
               else LineErr rnm))
         else if c = CHR ''A'' then
           (if ntok < 2 then LineErr rnm else LineOk (rnm\<lparr>r_awidth := int_of_strtol (tokens ! 1)\<rparr>))
         else if \<not> c_isdigit c then LineErr rnm
         else linedata_reg mem rnm tokens))"

section \<open>The file\<close>

definition line_tokens :: "string \<Rightarrow> string list" where
  "line_tokens s = take RNM_MAX_TOKENS (strtok_fields (CHR '':'') (linestrip s))"

fun filldata_loop :: "endi_consts \<Rightarrow> bool \<Rightarrow> rnm \<Rightarrow> string list \<Rightarrow> line_result" where
  "filldata_loop ec mem rnm [] = LineOk rnm"
| "filldata_loop ec mem rnm (l # ls) =
     (case linedata ec mem rnm (line_tokens l) of
        LineOk rnm \<Rightarrow> filldata_loop ec mem rnm ls
      | res \<Rightarrow> res)"

definition filldata :: "endi_consts \<Rightarrow> bool \<Rightarrow> rnm \<Rightarrow> string \<Rightarrow> line_result" where
  "filldata ec mem rnm txt =
     filldata_loop ec mem (rnm\<lparr>r_dwidth := 2, r_endi := V120_EAUTO' ec, r_awidth := 16\<rparr>)
       (fgets_lines RNM_FILE_BUFSIZE txt)"

fun maxoffs_loop :: "int \<Rightarrow> string list \<Rightarrow> int" where
  "maxoffs_loop offs [] = offs"
| "maxoffs_loop offs (l # ls) =
     (let s = linestrip l in
      if \<not> c_isdigit (char0 s) then maxoffs_loop offs ls
      else (let toffs = int_of_strtoul s in maxoffs_loop (if offs < toffs then toffs else offs) ls))"

definition maxoffs :: "string \<Rightarrow> int" where
  "maxoffs txt = maxoffs_loop 0 (fgets_lines RNM_FILE_BUFSIZE txt)"

section \<open>Parsing, caching and freeing\<close>

text \<open>The new head is linked to the old one, and then its link, not itself, becomes the head.\<close>

definition rnmadd2path :: "rnm list \<Rightarrow> rnm \<Rightarrow> rnm list" where
  "rnmadd2path g_rnms rnm = (let r_next = g_rnms in r_next)"

fun findrnm :: "rnm list \<Rightarrow> string \<Rightarrow> rnm option" where
  "findrnm [] path = None"
| "findrnm (r # rs) path = (if r_path r = path then Some r else findrnm rs path)"

text \<open>The blocks of memory that are freed, in order.\<close>

datatype block = BlkCollisions nat | BlkMdata | BlkPath | BlkRnm

definition rnmfree :: "rnm \<Rightarrow> block list" where
  "rnmfree rnm = [BlkCollisions (hashfree rnm), BlkMdata, BlkPath, BlkRnm]"

record parse_result =
  pa_rnm :: "rnm option"
  pa_cache :: "rnm list"
  pa_freed :: "block list"
  pa_oob :: "int option"

text \<open>\<open>mem\<close> says which of the two \<open>calloc\<close> calls and the collision entries' \<open>malloc\<close> succeed.\<close>

definition rnmparse ::
  "endi_consts \<Rightarrow> path_env \<Rightarrow> (string \<Rightarrow> string option) \<Rightarrow> bool \<times> bool \<times> bool \<Rightarrow> rnm list \<Rightarrow> string option \<Rightarrow> parse_result" where
  "rnmparse ec g fs mem g_rnms filename =
     (let fail = (\<lambda>freed. \<lparr>pa_rnm = None, pa_cache = g_rnms, pa_freed = freed, pa_oob = None\<rparr>) in
      case filename of
        None \<Rightarrow> fail []
      | Some fname \<Rightarrow>
          (case getfullpath g fname of
             None \<Rightarrow> fail []
           | Some fnm \<Rightarrow>
               (case findrnm g_rnms fnm of
                  Some r \<Rightarrow> \<lparr>pa_rnm = Some r, pa_cache = g_rnms, pa_freed = [BlkPath], pa_oob = None\<rparr>
                | None \<Rightarrow>
                    (case fs fnm of
                       None \<Rightarrow> fail [BlkPath]
                     | Some txt \<Rightarrow>
                         (let offs = maxoffs txt; (mem1, mem2, mem3) = mem in
                          if offs = 0 then fail [BlkPath]
                          else if \<not> mem1 then fail [BlkPath]
                          else if \<not> mem2 then fail [BlkMdata, BlkPath]
                          else
                            (let ret = \<lparr>r_mdata = replicate (nat offs + 1) \<lparr>md_name = '''', md_sign = 0, md_dwidth = 0\<rparr>,
                                        r_path = fnm, r_len = offs, r_endi = 0, r_dwidth = 0, r_awidth = 0,
                                        r_hash = (\<lambda>b. []), r_name = take 13 (dirstrip fnm)\<rparr>
                             in case filldata ec mem3 (hashclear ret) txt of
                                  LineOob i \<Rightarrow> \<lparr>pa_rnm = None, pa_cache = g_rnms, pa_freed = [], pa_oob = Some i\<rparr>
                                | LineErr r \<Rightarrow> fail (rnmfree r @ [BlkMdata, BlkPath])
                                | LineOk r \<Rightarrow> \<lparr>pa_rnm = Some r, pa_cache = rnmadd2path g_rnms r, pa_freed = [],
                                               pa_oob = None\<rparr>))))))"

end
