(* ===== verification/Tui_Browser.thy ===== *)
theory Tui_Browser
  imports V120_Rw Tui_Token Tui_Rnm "HOL-Library.Signed_Division"
begin

text \<open>
  The register browser (\<open>v120_tui/browser.c\<close>): the cursor of a page of registers over a mapped VME
  region, its moves, and the commands of the browser mode. The height of the terminal, the answers of
  the prompts and the tokens of a command file are parameters (\<open>br_env\<close>); the stores into the region
  are recorded as byte offset, width and value. A command that does not come back (a NULL dereference,
  or a loop without end) is \<open>None\<close>.
\<close>

section \<open>State\<close>

record browser =
  br_sel :: int
  br_refresh :: int
  br_offs :: int
  br_ncols :: int
  br_dwidth :: int
  br_printlen :: int
  br_strbar :: "string option"
  br_dwshift :: int
  br_lastwrite :: int
  br_topoffs :: int
  br_crateid :: int
  br_region :: vme_region
  br_mdata :: "rnm option"

definition ROW_TAG :: int where "ROW_TAG = 2"
definition BROWSER_MS :: int where "BROWSER_MS = 50"
definition REFRESH_MIN_MS :: int where "REFRESH_MIN_MS = 10"

text \<open>\<open>rows\<close> is \<open>ttnrows()\<close>.\<close>

definition btnrows :: "int \<Rightarrow> int" where
  "btnrows rows = rows - 3"

definition s32 :: "int \<Rightarrow> int" where
  "s32 x = sint (of_int x :: u32)"

definition brarraylen :: "int \<Rightarrow> browser \<Rightarrow> int" where
  "brarraylen rows br = (btnrows rows - ROW_TAG) * br_ncols br"

text \<open>The length is a \<open>size_t\<close>: the division and the difference are unsigned, the result is an \<open>int\<close>.\<close>

definition broffmax :: "int \<Rightarrow> browser \<Rightarrow> int" where
  "broffmax rows br =
     s32 (uint (vr_len (br_region br) div of_int (br_dwidth br) - of_int (brarraylen rows br)))"

definition brstartpos :: "browser \<Rightarrow> browser" where
  "brstartpos br = br\<lparr>br_sel := 0, br_offs := 0\<rparr>"

definition brendpos :: "int \<Rightarrow> browser \<Rightarrow> browser" where
  "brendpos rows br = br\<lparr>br_sel := brarraylen rows br - 1, br_offs := broffmax rows br\<rparr>"

section \<open>Titles\<close>

text \<open>\<open>snprintf\<close> into \<open>n\<close> remaining bytes after the text \<open>acc\<close>, and what remains then.\<close>

definition snprintf_to :: "string \<times> int \<Rightarrow> string \<Rightarrow> string \<times> int" where
  "snprintf_to b p = (case b of (acc, n) \<Rightarrow> (if n \<le> 0 then acc else acc @ take (nat (n - 1)) p, n - int (length p)))"

definition titlemake :: "bool \<Rightarrow> string \<Rightarrow> int \<Rightarrow> int \<Rightarrow> string option" where
  "titlemake mem name vmeaddr crateid =
     (let b1 = snprintf_to ('''', 80) (name @ '' '');
          b2 = (if snd b1 < 0 then b1
                else snprintf_to b1 (if vmeaddr < 0 then ''CONFIG '' else ''0x'' @ fmt_X 8 (nat vmeaddr) @ '' ''));
          b3 = (if snd b1 < 0 \<or> snd b2 < 0 then b2
                else snprintf_to b2 (if crateid < 0 then ''No crate'' else ''Crate '' @ fmt_d crateid))
      in if mem then Some (fst b3) else None)"

section \<open>Moving the cursor\<close>

definition brcheckpos :: "int \<Rightarrow> browser \<Rightarrow> browser" where
  "brcheckpos rows br =
     (let sel = br_sel br; off = br_offs br; ncols = br_ncols br;
          (sel, off) = (if sel < 0 then (sel + ncols, off - ncols)
                        else if brarraylen rows br \<le> sel then (sel - ncols, off + ncols)
                        else (sel, off));
          br = br\<lparr>br_offs := off, br_sel := sel\<rparr>
      in if off < 0 then brstartpos br
         else if broffmax rows br < off then brendpos rows br
         else br)"

definition brleft :: "int \<Rightarrow> browser \<Rightarrow> browser" where
  "brleft rows br = brcheckpos rows (br\<lparr>br_sel := br_sel br - 1\<rparr>)"

definition brright :: "int \<Rightarrow> browser \<Rightarrow> browser" where
  "brright rows br = brcheckpos rows (br\<lparr>br_sel := br_sel br + 1\<rparr>)"

definition brup :: "int \<Rightarrow> browser \<Rightarrow> browser" where
  "brup rows br = brcheckpos rows (br\<lparr>br_sel := br_sel br - br_ncols br\<rparr>)"

definition brdn :: "int \<Rightarrow> browser \<Rightarrow> browser" where
  "brdn rows br = brcheckpos rows (br\<lparr>br_sel := br_sel br + br_ncols br\<rparr>)"

definition brpgdn :: "int \<Rightarrow> browser \<Rightarrow> browser" where
  "brpgdn rows br = brcheckpos rows (br\<lparr>br_offs := br_offs br + brarraylen rows br\<rparr>)"

definition brpgup :: "int \<Rightarrow> browser \<Rightarrow> browser" where
  "brpgup rows br = brcheckpos rows (br\<lparr>br_offs := br_offs br - brarraylen rows br\<rparr>)"

definition brend :: "int \<Rightarrow> browser \<Rightarrow> browser" where
  "brend rows br = brendpos rows br"

definition brhome :: "browser \<Rightarrow> browser" where
  "brhome br = brstartpos br"

text \<open>The first register that was found in the first rows of the page; without columns the loop does not end.\<close>

function brjump_loop :: "int \<Rightarrow> browser \<Rightarrow> browser option" where
  "brjump_loop rows br =
     (if broffmax rows br < br_offs br then
        (if br_ncols br \<le> 0 then None
         else brjump_loop rows (br\<lparr>br_offs := br_offs br - br_ncols br, br_sel := br_sel br + br_ncols br\<rparr>))
      else Some br)"
  by pat_completeness auto
termination
  by (relation "measure (\<lambda>(rows, br). nat (br_offs br - broffmax rows br))")
    (auto simp: broffmax_def brarraylen_def)

declare brjump_loop.simps [simp del]

definition brjump :: "int \<Rightarrow> int \<Rightarrow> browser \<Rightarrow> browser option" where
  "brjump rows v br =
     (let v = v sdiv br_dwidth br
      in brjump_loop rows (br\<lparr>br_offs := v AND NOT 15, br_sel := v AND 15\<rparr>))"

section \<open>Commands\<close>

type_synonym reg_write = "int \<times> int \<times> u32"

text \<open>A browser buffer: its name data, its private data, the stores so far and the key timeout.\<close>

record brbuf =
  bb_rnms :: "rnm option"
  bb_br :: browser
  bb_writes :: "reg_write list"
  bb_to :: int

text \<open>
  What a command finds: \<open>ttnrows()\<close>, whether the keyboard is the input, what \<open>mbgets\<close> and \<open>mbgetval\<close>
  answer, the tokens of the line, what \<open>rnmparse\<close> returns for a name, and the success of \<open>strdup\<close>.
\<close>

record br_env =
  be_rows :: int
  be_keyboard :: bool
  be_gets :: "string option"
  be_val :: "int option"
  be_tokens :: "string option list"
  be_rnmparse :: "string \<Rightarrow> rnm option"
  be_mem :: bool

definition put_reg :: "reg_write \<Rightarrow> brbuf \<Rightarrow> brbuf" where
  "put_reg w b = b\<lparr>bb_writes := bb_writes b @ [w]\<rparr>"

definition brsetto :: "brbuf \<Rightarrow> brbuf" where
  "brsetto b = b\<lparr>bb_to := br_refresh (bb_br b)\<rparr>"

definition brwrite1 :: "int \<Rightarrow> brbuf \<Rightarrow> brbuf" where
  "brwrite1 v b =
     (let br = bb_br b; i = br_sel br + br_offs br in
      if br_dwidth br = 2 then put_reg (2 * i, 2, take_bit 16 (of_int v)) b
      else put_reg (4 * i, 4, of_int v) b)"

definition brditto :: "br_env \<Rightarrow> brbuf \<Rightarrow> brbuf option" where
  "brditto e b = Some (if be_keyboard e then brwrite1 (br_lastwrite (bb_br b)) b else b)"

definition brwrite :: "br_env \<Rightarrow> brbuf \<Rightarrow> brbuf option" where
  "brwrite e b =
     Some (if \<not> be_keyboard e then b
           else (let b = brsetto b in
                 case be_val e of
                   None \<Rightarrow> b
                 | Some v \<Rightarrow> (let b = brwrite1 v b in b\<lparr>bb_br := (bb_br b)\<lparr>br_lastwrite := v\<rparr>\<rparr>)))"

definition brzero :: "br_env \<Rightarrow> brbuf \<Rightarrow> brbuf option" where
  "brzero e b = Some (brwrite1 0 b)"

definition set_br :: "brbuf \<Rightarrow> browser option \<Rightarrow> brbuf option" where
  "set_br b r = map_option (\<lambda>br. b\<lparr>bb_br := br\<rparr>) r"

definition brgoto :: "br_env \<Rightarrow> brbuf \<Rightarrow> brbuf option" where
  "brgoto e b =
     (if be_keyboard e then
        (let b = brsetto b in
         case be_val e of
           Some v \<Rightarrow> (if v < br_topoffs (bb_br b) \<and> 0 \<le> v then set_br b (brjump (be_rows e) v (bb_br b)) else Some b)
         | None \<Rightarrow> Some b)
      else Some b)"

definition brgotoname :: "br_env \<Rightarrow> brbuf \<Rightarrow> brbuf option" where
  "brgotoname e b =
     (if \<not> be_keyboard e then Some b
      else case bb_rnms b of
        None \<Rightarrow> Some b
      | Some rnm \<Rightarrow>
          (let b = brsetto b in
           case be_gets e of
             None \<Rightarrow> Some b
           | Some s \<Rightarrow>
               (let offs = rnmsearch rnm s in
                if offs < 0 then Some b
                else set_br b (brjump (be_rows e) (offs * br_dwidth (bb_br b)) (bb_br b)))))"

text \<open>The finisher of \<open>brwrite2name\<close>: the offset is not checked against the region.\<close>

definition write2name :: "string \<Rightarrow> int \<Rightarrow> brbuf \<Rightarrow> brbuf option" where
  "write2name s v b =
     (let offs = (if c_isdigit (char0 s) then Some (int_of_strtol s)
                  else map_option (\<lambda>rnm. rnmsearch rnm s * br_dwidth (bb_br b)) (bb_rnms b)) in
      case offs of
        None \<Rightarrow> None
      | Some offs \<Rightarrow>
          (if offs < 0 then Some b
           else case bb_rnms b of
             None \<Rightarrow> None
           | Some rnm \<Rightarrow>
               Some (if r_dwidth rnm = 2 then put_reg (offs AND NOT 1, 2, take_bit 16 (of_int v)) b
                     else put_reg (offs AND NOT 3, 4, of_int v) b)))"

definition brwrite2name :: "br_env \<Rightarrow> brbuf \<Rightarrow> brbuf option" where
  "brwrite2name e b =
     (if be_keyboard e then
        (case be_gets e of
           None \<Rightarrow> Some b
         | Some s \<Rightarrow> (case be_val e of None \<Rightarrow> Some b | Some v \<Rightarrow> write2name s v b))
      else
        (case be_tokens e of
           Some s # Some ts # _ \<Rightarrow> write2name s (int_of_strtol ts) b
         | _ \<Rightarrow> Some b))"

definition brapp :: "br_env \<Rightarrow> brbuf \<Rightarrow> brbuf option" where
  "brapp e b = Some b"

definition brchmod_br :: "int \<Rightarrow> browser \<Rightarrow> browser" where
  "brchmod_br rows br =
     (let br = (if br_dwidth br = 2 then
                  br\<lparr>br_dwidth := 4, br_printlen := 10, br_offs := br_offs br sdiv 2, br_sel := br_sel br sdiv 2\<rparr>
                else
                  br\<lparr>br_dwidth := 2, br_printlen := 6, br_offs := br_offs br * 2, br_sel := br_sel br * 2\<rparr>);
          br = br\<lparr>br_dwshift := (case br_mdata br of
                                  None \<Rightarrow> 0
                                | Some rnm \<Rightarrow> (if r_dwidth rnm < br_dwidth br then -1
                                               else if br_dwidth br < r_dwidth rnm then 1 else 0))\<rparr>
      in brcheckpos rows (br\<lparr>br_ncols := 16 sdiv br_dwidth br\<rparr>))"

definition brchmod :: "br_env \<Rightarrow> brbuf \<Rightarrow> brbuf option" where
  "brchmod e b = Some (b\<lparr>bb_br := brchmod_br (be_rows e) (bb_br b)\<rparr>)"

definition brchrefresh :: "br_env \<Rightarrow> brbuf \<Rightarrow> brbuf option" where
  "brchrefresh e b =
     (let set_v = (\<lambda>v. brsetto (b\<lparr>bb_br := (bb_br b)
            \<lparr>br_refresh := (if 0 < v \<and> v < 10 then REFRESH_MIN_MS else if v < 0 then -1 else v)\<rparr>\<rparr>)) in
      Some (if be_keyboard e then (case be_val e of None \<Rightarrow> brsetto b | Some v \<Rightarrow> set_v v)
            else (case be_tokens e of Some s # _ \<Rightarrow> set_v (int_of_strtol s) | _ \<Rightarrow> b)))"

definition brrefreshoff :: "br_env \<Rightarrow> brbuf \<Rightarrow> brbuf option" where
  "brrefreshoff e b = Some (brsetto (b\<lparr>bb_br := (bb_br b)\<lparr>br_refresh := -1\<rparr>\<rparr>))"

definition vme_addr_int :: "vme_region \<Rightarrow> int" where
  "vme_addr_int region = s32 (uint (vr_vme_addr region))"

definition braddrnm :: "br_env \<Rightarrow> brbuf \<Rightarrow> brbuf option" where
  "braddrnm e b =
     (let b = (if be_keyboard e then brsetto b else b);
          s = (if be_keyboard e then be_gets e else (case be_tokens e of [] \<Rightarrow> None | t # _ \<Rightarrow> t)) in
      case s of
        None \<Rightarrow> Some b
      | Some s \<Rightarrow>
          (let r = be_rnmparse e s;
               br = (bb_br b)\<lparr>br_mdata := r,
                 br_strbar := titlemake (be_mem e) (dirstrip s) (vme_addr_int (br_region (bb_br b))) (br_crateid (bb_br b))\<rparr>
           in Some (b\<lparr>bb_rnms := r, bb_br := brchmod_br (be_rows e) (brchmod_br (be_rows e) br)\<rparr>)))"

definition brtitle :: "brbuf \<Rightarrow> string option" where
  "brtitle b = br_strbar (bb_br b)"

definition idxchk :: "browser \<Rightarrow> int \<Rightarrow> int" where
  "idxchk br i =
     (if br_dwshift br = 0 then i
      else if 0 < br_dwshift br then drop_bit (nat (br_dwshift br)) i
      else push_bit (nat (- br_dwshift br)) i)"

text \<open>What \<open>browsernew\<close> makes of the new browser; its columns and print length are not initialised.\<close>

definition browser_init :: "int \<Rightarrow> int \<times> int \<Rightarrow> string option \<Rightarrow> vme_region \<Rightarrow> rnm option \<Rightarrow> int \<Rightarrow> browser" where
  "browser_init rows junk ps region metadata crateid =
     (let pbr = \<lparr>br_sel = 0, br_refresh = BROWSER_MS, br_offs = 0, br_ncols = fst junk,
        br_dwidth = (case metadata of Some m \<Rightarrow> r_dwidth m | None \<Rightarrow> 2), br_printlen = snd junk, br_strbar = ps,
        br_dwshift = 0, br_lastwrite = 0,
        br_topoffs = (case metadata of Some m \<Rightarrow> r_len m * r_dwidth m | None \<Rightarrow> 128), br_crateid = crateid,
        br_region = region, br_mdata = metadata\<rparr>
      in brchmod_br rows (brchmod_br rows pbr))"

section \<open>The tables of the mode\<close>

type_synonym br_cmd = "br_env \<Rightarrow> brbuf \<Rightarrow> brbuf option"

definition brslu :: "(string \<times> br_cmd) list" where
  "brslu =
     [(''app'', brapp), (''ditto'', brditto), (''zero'', brzero), (''goto'', brgoto), (''goto-name'', brgotoname),
      (''write'', brwrite), (''chmod'', brchmod), (''add-rnm'', braddrnm), (''refresh-off'', brrefreshoff),
      (''refresh-on'', brchrefresh), (''write-reg'', brwrite2name)]"

definition brklu :: "(int \<times> br_cmd) list" where
  "brklu =
     [(key_of CHR ''d'', brditto), (key_of CHR ''D'', brditto), (key_of CHR ''g'', brgoto), (key_of CHR ''G'', brgotoname),
      (key_of CHR ''/'', brgoto), (key_of CHR ''z'', brzero), (key_of CHR ''Z'', brzero), (key_of CHR ''w'', brwrite),
      (key_of CHR ''W'', brwrite), (key_of CHR ''c'', brchmod), (key_of CHR ''C'', brchmod)]"

text \<open>The cursor methods of \<open>brmode\<close>, as commands.\<close>

definition br_move :: "(int \<Rightarrow> browser \<Rightarrow> browser) \<Rightarrow> br_cmd" where
  "br_move f e b = Some (b\<lparr>bb_br := f (be_rows e) (bb_br b)\<rparr>)"

definition br_moves :: "br_cmd list" where
  "br_moves = map br_move [brleft, brright, brup, brdn, brpgdn, brpgup, brend, \<lambda>rows. brhome]"

fun br_run :: "(br_env \<times> br_cmd) list \<Rightarrow> brbuf \<Rightarrow> brbuf option" where
  "br_run [] b = Some b"
| "br_run ((e, c) # cs) b = Option.bind (c e b) (br_run cs)"

section \<open>The cursor stays on the page and the page in the region\<close>

definition region_ok :: "int \<Rightarrow> vme_region \<Rightarrow> bool" where
  "region_ok rows region \<longleftrightarrow>
     9 \<le> rows \<and> 128 \<le> uint (vr_len region) \<and> 16 * (rows - 5) \<le> uint (vr_len region) \<and> uint (vr_len region) < 2 ^ 31 \<and> 16 dvd uint (vr_len region)"

definition br_shape :: "int \<Rightarrow> browser \<Rightarrow> bool" where
  "br_shape rows br \<longleftrightarrow>
     (br_dwidth br = 2 \<and> br_ncols br = 8 \<or> br_dwidth br = 4 \<and> br_ncols br = 4) \<and> region_ok rows (br_region br)"

definition br_pos :: "int \<Rightarrow> browser \<Rightarrow> bool" where
  "br_pos rows br \<longleftrightarrow>
     0 \<le> br_sel br \<and> br_sel br < brarraylen rows br \<and> 0 \<le> br_offs br \<and> br_offs br \<le> broffmax rows br"

lemma brarraylen_eq: "brarraylen rows br = (rows - 5) * br_ncols br"
  by (simp add: brarraylen_def btnrows_def ROW_TAG_def)

lemma s32_id: "- (2 ^ 31) \<le> x \<Longrightarrow> x < 2 ^ 31 \<Longrightarrow> s32 x = x"
  by (simp add: s32_def sint_sbintrunc' signed_take_bit_int_eq_self)

lemma uint_of_nonneg: "x = of_int y \<Longrightarrow> 0 \<le> y \<Longrightarrow> y < 2 ^ 31 \<Longrightarrow> uint (x :: u64) = y"
  by (simp add: uint_word_of_int)

lemma broffmax_eq:
  assumes "br_shape rows br"
  shows "broffmax rows br = uint (vr_len (br_region br)) div br_dwidth br - (rows - 5) * br_ncols br"
proof -
  let ?len = "vr_len (br_region br)" and ?dw = "br_dwidth br" and ?a = "(rows - 5) * br_ncols br"
  have len: "16 * (rows - 5) \<le> uint ?len" "uint ?len < 2 ^ 31" "9 \<le> rows" and dw: "?dw = 2 \<or> ?dw = 4"
    and nc: "br_ncols br = 16 div ?dw"
    using assms by (auto simp: br_shape_def region_ok_def)
  have q: "uint (?len div of_int ?dw) = uint ?len div ?dw"
    using dw by (auto simp: uint_div_distrib)
  have a: "0 \<le> ?a" "?a \<le> uint ?len div ?dw"
    using len dw nc by auto
  have d: "uint ?len div ?dw < 2 ^ 31"
    using len(2) dw uint_ge_0 [of ?len] by auto
  have "of_int (uint ?len div ?dw - ?a) = (?len div of_int ?dw - of_int ?a :: u64)"
    by (simp flip: q)
  then have "uint (?len div of_int ?dw - of_int ?a) = uint ?len div ?dw - ?a"
    using a d by (intro uint_of_nonneg) auto
  then show ?thesis
    using a d by (simp add: broffmax_def brarraylen_eq s32_id)
qed

lemma br_shape_cases:
  assumes "br_shape rows br"
  obtains L where "uint (vr_len (br_region br)) = 16 * L" "rows - 5 \<le> L" "4 \<le> rows - 5"
    "br_dwidth br = 2" "br_ncols br = 8" "brarraylen rows br = 8 * (rows - 5)" "broffmax rows br = 8 * (L - (rows - 5))"
  | L where "uint (vr_len (br_region br)) = 16 * L" "rows - 5 \<le> L" "4 \<le> rows - 5"
    "br_dwidth br = 4" "br_ncols br = 4" "brarraylen rows br = 4 * (rows - 5)" "broffmax rows br = 4 * (L - (rows - 5))"
proof -
  have reg: "region_ok rows (br_region br)" using assms by (simp add: br_shape_def)
  then obtain L where L: "uint (vr_len (br_region br)) = 16 * L"
    unfolding region_ok_def by (auto simp: dvd_def)
  have bounds: "rows - 5 \<le> L" "4 \<le> rows - 5" using reg L by (auto simp: region_ok_def)
  show ?thesis
    using assms that [OF L bounds] broffmax_eq [OF assms] L
    unfolding br_shape_def brarraylen_eq by (auto simp: algebra_simps)
qed

lemma br_shape_frame [simp]:
  "br_shape rows (br\<lparr>br_sel := a\<rparr>) = br_shape rows br"
  "br_shape rows (br\<lparr>br_offs := a\<rparr>) = br_shape rows br"
  "br_shape rows (br\<lparr>br_lastwrite := a\<rparr>) = br_shape rows br"
  "br_shape rows (br\<lparr>br_refresh := a\<rparr>) = br_shape rows br"
  "br_shape rows (br\<lparr>br_mdata := m\<rparr>) = br_shape rows br"
  "br_shape rows (br\<lparr>br_strbar := t\<rparr>) = br_shape rows br"
  by (simp_all add: br_shape_def)

lemma brarraylen_frame [simp]:
  "brarraylen rows (br\<lparr>br_sel := a\<rparr>) = brarraylen rows br"
  "brarraylen rows (br\<lparr>br_offs := a\<rparr>) = brarraylen rows br"
  "brarraylen rows (br\<lparr>br_lastwrite := a\<rparr>) = brarraylen rows br"
  "brarraylen rows (br\<lparr>br_refresh := a\<rparr>) = brarraylen rows br"
  "brarraylen rows (br\<lparr>br_mdata := m\<rparr>) = brarraylen rows br"
  "brarraylen rows (br\<lparr>br_strbar := t\<rparr>) = brarraylen rows br"
  by (simp_all add: brarraylen_def)

lemma broffmax_frame [simp]:
  "broffmax rows (br\<lparr>br_sel := a\<rparr>) = broffmax rows br"
  "broffmax rows (br\<lparr>br_offs := a\<rparr>) = broffmax rows br"
  "broffmax rows (br\<lparr>br_lastwrite := a\<rparr>) = broffmax rows br"
  "broffmax rows (br\<lparr>br_refresh := a\<rparr>) = broffmax rows br"
  "broffmax rows (br\<lparr>br_mdata := m\<rparr>) = broffmax rows br"
  "broffmax rows (br\<lparr>br_strbar := t\<rparr>) = broffmax rows br"
  by (simp_all add: broffmax_def)

lemma br_pos_frame [simp]:
  "br_pos rows (br\<lparr>br_lastwrite := a\<rparr>) = br_pos rows br"
  "br_pos rows (br\<lparr>br_refresh := a\<rparr>) = br_pos rows br"
  "br_pos rows (br\<lparr>br_mdata := m\<rparr>) = br_pos rows br"
  "br_pos rows (br\<lparr>br_strbar := t\<rparr>) = br_pos rows br"
  by (simp_all add: br_pos_def)

lemma br_shape_bounds:
  assumes "br_shape rows br"
  shows "0 < brarraylen rows br" "0 \<le> broffmax rows br" "0 < br_ncols br" "br_ncols br \<le> brarraylen rows br"
  using assms by (elim br_shape_cases; simp)+

text \<open>\<open>brcheckpos\<close> brings a cursor that is at most one row off the page back to it.\<close>

lemma brcheckpos_pos:
  assumes "br_shape rows br" "- br_ncols br \<le> br_sel br" "br_sel br < brarraylen rows br + br_ncols br"
  shows "br_pos rows (brcheckpos rows br)"
  using assms br_shape_bounds [OF assms(1)]
  by (auto simp: brcheckpos_def br_pos_def brstartpos_def brendpos_def Let_def)

definition br_moved :: "browser \<Rightarrow> browser \<Rightarrow> bool" where
  "br_moved br br' \<longleftrightarrow> br' = br\<lparr>br_sel := br_sel br', br_offs := br_offs br'\<rparr>"

lemma br_moved_refl [simp]: "br_moved br br"
  by (simp add: br_moved_def)

lemma br_moved_upd [simp]:
  "br_moved br (br\<lparr>br_sel := a, br_offs := b\<rparr>)" "br_moved br (br\<lparr>br_offs := b, br_sel := a\<rparr>)"
  "br_moved (br\<lparr>br_sel := a\<rparr>) br' = br_moved br br'" "br_moved (br\<lparr>br_offs := b\<rparr>) br' = br_moved br br'"
  by (cases br; cases br'; simp add: br_moved_def)+

lemma brcheckpos_keeps [simp]: "br_moved br (brcheckpos rows br)"
  by (auto simp: brcheckpos_def brstartpos_def brendpos_def Let_def)

lemma br_move_pos:
  assumes "br_shape rows br" "br_pos rows br" "f \<in> {brleft, brright, brup, brdn, brpgdn, brpgup, brend, \<lambda>rows. brhome}"
  shows "br_pos rows (f rows br) \<and> br_moved br (f rows br)"
proof -
  note b = br_shape_bounds [OF assms(1)]
  have pos: "br_pos rows (brcheckpos rows (br\<lparr>br_sel := sel\<rparr>))"
    if "- br_ncols br \<le> sel" "sel < brarraylen rows br + br_ncols br" for sel
    using assms(1) that by (intro brcheckpos_pos) simp_all
  have pos2: "br_pos rows (brcheckpos rows (br\<lparr>br_offs := off\<rparr>))" for off
    using assms b by (intro brcheckpos_pos) (simp_all add: br_pos_def)
  have keep: "br_moved br (brcheckpos rows (br\<lparr>br_sel := sel\<rparr>))" "br_moved br (brcheckpos rows (br\<lparr>br_offs := off\<rparr>))"
    for sel off
    using brcheckpos_keeps [of "br\<lparr>br_sel := sel\<rparr>" rows] brcheckpos_keeps [of "br\<lparr>br_offs := off\<rparr>" rows]
    by (simp_all del: brcheckpos_keeps)
  have ends: "br_pos rows (brendpos rows br)" "br_pos rows (brstartpos br)" "br_moved br (brendpos rows br)"
      "br_moved br (brstartpos br)"
    using b by (auto simp: br_pos_def brendpos_def brstartpos_def)
  have sel: "0 \<le> br_sel br" "br_sel br < brarraylen rows br" using assms(2) by (auto simp: br_pos_def)
  show ?thesis
    using assms(3) b sel pos pos2 keep ends
    by (auto simp: brleft_def brright_def brup_def brdn_def brpgdn_def brpgup_def brend_def brhome_def)
qed

lemma and_not_and: "i AND NOT (i AND m) = i AND NOT (m :: int)"
  by (rule bit_eqI) (auto simp: bit_simps)

lemma mask15:
  fixes i :: int
  shows "i AND 15 = i mod 16" "i AND NOT 15 = i - i mod 16"
proof -
  show a: "i AND 15 = i mod 16"
    using take_bit_eq_mask [of 4 i] by (simp add: take_bit_eq_mod mask_eq_exp_minus_1)
  have "i - (i AND 15) = i AND NOT (i AND 15)"
    by (rule disjunctive_diff) (simp add: bit_and_iff)
  also have "\<dots> = i AND NOT 15"
    by (rule and_not_and)
  finally show "i AND NOT 15 = i - i mod 16" unfolding a by simp
qed

lemma brjump_loop_pos:
  assumes "br_shape rows br" "0 \<le> br_offs br" "br_ncols br dvd br_offs br" "0 \<le> br_sel br"
    "br_sel br + br_offs br < broffmax rows br + brarraylen rows br"
    "br_offs br \<le> broffmax rows br \<Longrightarrow> br_sel br < brarraylen rows br"
  shows "\<exists>br'. brjump_loop rows br = Some br' \<and> br_pos rows br' \<and> br_moved br br' \<and>
    br_sel br' + br_offs br' = br_sel br + br_offs br"
  using assms
proof (induction rows br rule: brjump_loop.induct)
  case (1 rows br)
  show ?case
  proof (cases "broffmax rows br < br_offs br")
    case True
    let ?br = "br\<lparr>br_offs := br_offs br - br_ncols br, br_sel := br_sel br + br_ncols br\<rparr>"
    note n = br_shape_bounds [OF "1.prems"(1)]
    have d: "br_ncols br dvd broffmax rows br" using "1.prems"(1) by (elim br_shape_cases) simp_all
    have le: "broffmax rows br \<le> br_offs br - br_ncols br"
      using True d "1.prems"(3) n(3) by (auto simp: dvd_def zless_imp_add1_zle algebra_simps)
        (metis add.commute add1_zle_eq mult.commute mult.right_neutral mult_le_cancel_left_pos mult_less_cancel_left_pos distrib_left)
    have "\<exists>br'. brjump_loop rows ?br = Some br' \<and> br_pos rows br' \<and> br_moved ?br br' \<and>
        br_sel br' + br_offs br' = br_sel ?br + br_offs ?br"
      using "1.prems" n le by (intro "1.IH" [OF True]) (auto simp: dvd_diff)
    then show ?thesis
      using n(3) by (subst brjump_loop.simps) (simp add: True)
  next
    case False
    then show ?thesis
      using "1.prems" by (subst brjump_loop.simps) (simp add: br_pos_def)
  qed
qed

lemma sdiv_nonneg: "0 \<le> v \<Longrightarrow> 0 < d \<Longrightarrow> v sdiv d = v div (d :: int)"
  by (cases "v = 0") (simp_all add: signed_divide_int_def)

lemma brjump_pos:
  assumes "br_shape rows br" "0 \<le> v" "v < uint (vr_len (br_region br))"
  shows "\<exists>br'. brjump rows v br = Some br' \<and> br_pos rows br' \<and> br_moved br br' \<and>
    br_sel br' + br_offs br' = v div br_dwidth br"
proof -
  define i where "i = v div br_dwidth br"
  have v: "v sdiv br_dwidth br = i \<and> 0 \<le> i \<and> i < broffmax rows br + brarraylen rows br \<and>
      16 \<le> brarraylen rows br \<and> br_ncols br dvd 16"
    using assms(1)
  proof (cases rule: br_shape_cases)
    case (1 L)
    then have "v div 2 < 8 * L" using assms(3) by simp
    then show ?thesis using 1 assms(2) by (simp add: i_def sdiv_nonneg)
  next
    case (2 L)
    then have "v div 4 < 4 * L" using assms(3) by simp
    then show ?thesis using 2 assms(2) by (simp add: i_def sdiv_nonneg)
  qed
  have m: "0 \<le> i mod 16" "i mod 16 < 16" "i mod 16 \<le> i" "(16 :: int) dvd i - i mod 16"
    using v zmod_le_nonneg_dividend [of i 16] by auto
  have "\<exists>br'. brjump_loop rows (br\<lparr>br_offs := i - i mod 16, br_sel := i mod 16\<rparr>) = Some br' \<and> br_pos rows br' \<and>
      br_moved (br\<lparr>br_offs := i - i mod 16, br_sel := i mod 16\<rparr>) br' \<and>
      br_sel br' + br_offs br' = br_sel (br\<lparr>br_offs := i - i mod 16, br_sel := i mod 16\<rparr>) +
        br_offs (br\<lparr>br_offs := i - i mod 16, br_sel := i mod 16\<rparr>)"
    using assms v m by (intro brjump_loop_pos) (auto intro: dvd_trans)
  then show ?thesis
    using v unfolding brjump_def Let_def mask15 by (simp add: i_def)
qed

end
