(* ===== verification/Tui_Browser_Props.thy ===== *)
theory Tui_Browser_Props
  imports Tui_Browser
begin

text \<open>
  The browser stays inside its region: on a terminal of a fixed height, no command of the mode except
  \<open>write-reg\<close> (whose offset the code does not check) takes the cursor off the page, the page out of
  the region, or a store out of the mapped memory.
\<close>

section \<open>The invariant\<close>

definition rnm_fits :: "vme_region \<Rightarrow> rnm \<Rightarrow> bool" where
  "rnm_fits region rnm \<longleftrightarrow> (\<forall>name. rnmsearch rnm name * 4 < uint (vr_len region))"

definition in_region :: "vme_region \<Rightarrow> reg_write \<Rightarrow> bool" where
  "in_region region w \<longleftrightarrow> (case w of (off, width, v) \<Rightarrow> 0 \<le> off \<and> off + width \<le> uint (vr_len region))"

definition br_inv :: "int \<Rightarrow> vme_region \<Rightarrow> brbuf \<Rightarrow> bool" where
  "br_inv rows region b \<longleftrightarrow>
     br_region (bb_br b) = region \<and> br_shape rows (bb_br b) \<and> br_pos rows (bb_br b) \<and>
     br_topoffs (bb_br b) \<le> uint (vr_len region) \<and> (\<forall>rnm. bb_rnms b = Some rnm \<longrightarrow> rnm_fits region rnm) \<and>
     list_all (in_region region) (bb_writes b)"

definition env_ok :: "int \<Rightarrow> vme_region \<Rightarrow> br_env \<Rightarrow> bool" where
  "env_ok rows region e \<longleftrightarrow>
     be_rows e = rows \<and> (\<forall>s rnm. be_rnmparse e s = Some rnm \<longrightarrow> rnm_fits region rnm)"

text \<open>The commands of both tables and the moves, without \<open>write-reg\<close>.\<close>

definition browser_cmds :: "br_cmd list" where
  "browser_cmds = map snd brklu @ map snd (filter (\<lambda>(n, c). n \<noteq> ''write-reg'') brslu) @ br_moves"

text \<open>The command returns and keeps the invariant.\<close>

definition keeps_inv :: "int \<Rightarrow> vme_region \<Rightarrow> brbuf option \<Rightarrow> bool" where
  "keeps_inv rows region r \<longleftrightarrow> (\<exists>b. r = Some b \<and> br_inv rows region b)"

lemma keeps_inv_Some [simp]: "keeps_inv rows region (Some b) = br_inv rows region b"
  by (simp add: keeps_inv_def)

lemma br_inv_to [simp]:
  "br_inv rows region (b\<lparr>bb_to := t\<rparr>) = br_inv rows region b"
  "br_inv rows region (brsetto b) = br_inv rows region b"
  by (simp_all add: br_inv_def brsetto_def)

lemma br_moved_frame:
  assumes "br_moved br br'"
  shows "br_region br' = br_region br" "br_topoffs br' = br_topoffs br" "br_shape rows br' = br_shape rows br"
    "br_dwidth br' = br_dwidth br"
proof -
  have eq: "br' = br\<lparr>br_sel := br_sel br', br_offs := br_offs br'\<rparr>"
    using assms by (simp add: br_moved_def)
  show "br_region br' = br_region br" "br_topoffs br' = br_topoffs br" "br_shape rows br' = br_shape rows br"
    "br_dwidth br' = br_dwidth br"
    by (subst eq, simp)+
qed

lemma br_inv_moved:
  assumes "br_inv rows region b" "br_moved (bb_br b) br'" "br_pos rows br'"
  shows "br_inv rows region (b\<lparr>bb_br := br'\<rparr>)"
  using assms br_moved_frame [OF assms(2)] by (simp add: br_inv_def)

lemma br_inv_lastwrite [simp]:
  "br_inv rows region (b\<lparr>bb_br := (bb_br b)\<lparr>br_lastwrite := v\<rparr>\<rparr>) = br_inv rows region b"
  "br_inv rows region (b\<lparr>bb_br := (bb_br b)\<lparr>br_refresh := v\<rparr>\<rparr>) = br_inv rows region b"
  by (simp_all add: br_inv_def)

section \<open>The commands\<close>

lemma brwrite1_inv:
  assumes "br_inv rows region b"
  shows "br_inv rows region (brwrite1 v b)"
proof -
  have h: "br_shape rows (bb_br b)" "br_pos rows (bb_br b)" "br_region (bb_br b) = region"
    using assms by (auto simp: br_inv_def)
  show ?thesis
    using h(1)
  proof (cases rule: br_shape_cases)
    case (1 L)
    then show ?thesis
      using assms h by (simp add: br_inv_def brwrite1_def put_reg_def in_region_def br_pos_def Let_def)
  next
    case (2 L)
    then show ?thesis
      using assms h by (simp add: br_inv_def brwrite1_def put_reg_def in_region_def br_pos_def Let_def)
  qed
qed

lemma brchmod_br_pos:
  assumes "region_ok rows (br_region br)" "br_dwidth br = 2 \<or> br_dwidth br = 4" "0 \<le> br_sel br"
    "br_sel br * br_dwidth br < 16 * (rows - 5)"
  shows "br_shape rows (brchmod_br rows br) \<and> br_pos rows (brchmod_br rows br) \<and>
    br_region (brchmod_br rows br) = br_region br \<and> br_topoffs (brchmod_br rows br) = br_topoffs br"
proof -
  obtain br1 where eq: "brchmod_br rows br = brcheckpos rows br1" and br1: "br_shape rows br1" "0 \<le> br_sel br1"
    "br_sel br1 < brarraylen rows br1" "br_region br1 = br_region br" "br_topoffs br1 = br_topoffs br"
  proof (cases "br_dwidth br = 2")
    case True
    have "br_sel br sdiv 2 = br_sel br div 2" using assms(3) by (simp add: sdiv_nonneg)
    moreover have "br_sel br < 8 * (rows - 5)" using assms(4) True by simp
    ultimately show ?thesis
      using True assms(1,3)
      by (intro that [OF brchmod_br_def [unfolded Let_def]])
        (simp_all add: br_shape_def brarraylen_eq sdiv_nonneg)
  next
    case False
    then show ?thesis
      using assms
      by (intro that [OF brchmod_br_def [unfolded Let_def]])
        (simp_all add: br_shape_def brarraylen_eq sdiv_nonneg)
  qed
  note f = br_moved_frame [OF brcheckpos_keeps [of br1 rows]]
  show ?thesis
    unfolding eq using br1 f br_shape_bounds [OF br1(1)] by (auto intro: brcheckpos_pos)
qed

lemma brchmod_br_inv:
  assumes "br_shape rows br" "br_pos rows br"
  shows "br_shape rows (brchmod_br rows br) \<and> br_pos rows (brchmod_br rows br) \<and>
    br_region (brchmod_br rows br) = br_region br \<and> br_topoffs (brchmod_br rows br) = br_topoffs br"
proof (rule brchmod_br_pos)
  show "region_ok rows (br_region br)" "br_dwidth br = 2 \<or> br_dwidth br = 4" "0 \<le> br_sel br"
    using assms by (auto simp: br_shape_def br_pos_def)
  show "br_sel br * br_dwidth br < 16 * (rows - 5)"
    using assms by (auto simp: br_pos_def elim!: br_shape_cases)
qed

lemma brjump_inv:
  assumes "br_inv rows region b" "0 \<le> v" "v < uint (vr_len region)"
  shows "keeps_inv rows region (set_br b (brjump rows v (bb_br b)))"
proof -
  have "br_shape rows (bb_br b)" "br_region (bb_br b) = region" using assms(1) by (auto simp: br_inv_def)
  then obtain br' where "brjump rows v (bb_br b) = Some br'" "br_pos rows br'" "br_moved (bb_br b) br'"
    using brjump_pos [of rows "bb_br b" v] assms(2,3) by auto
  then show ?thesis
    using br_inv_moved [OF assms(1)] by (simp add: set_br_def)
qed

lemma brgoto_inv:
  assumes "br_inv rows region b" "env_ok rows region e"
  shows "keeps_inv rows region (brgoto e b)"
proof -
  have "br_topoffs (bb_br b) \<le> uint (vr_len region)" using assms(1) by (simp add: br_inv_def)
  then show ?thesis
    using assms brjump_inv [of rows region "brsetto b"]
    by (auto simp: brgoto_def env_ok_def brsetto_def Let_def split: option.split)
qed

lemma brgotoname_inv:
  assumes "br_inv rows region b" "env_ok rows region e"
  shows "keeps_inv rows region (brgotoname e b)"
proof -
  have dw: "br_dwidth (bb_br b) = 2 \<or> br_dwidth (bb_br b) = 4"
    using assms(1) by (auto simp: br_inv_def br_shape_def)
  show ?thesis
  proof (cases "be_keyboard e"; cases "bb_rnms b"; cases "be_gets e")
    fix rnm s
    assume c: "be_keyboard e" "bb_rnms b = Some rnm" "be_gets e = Some s"
    let ?o = "rnmsearch rnm s"
    have fit: "?o * 4 < uint (vr_len region)"
      using assms(1) c(2) by (auto simp: br_inv_def rnm_fits_def)
    show ?thesis
    proof (cases "?o < 0")
      case False
      then have "?o * br_dwidth (bb_br b) < uint (vr_len region)" "0 \<le> ?o * br_dwidth (bb_br b)"
        using fit dw by auto
      then show ?thesis
        using False c assms brjump_inv [of rows region "brsetto b" "?o * br_dwidth (bb_br b)"]
        by (simp add: brgotoname_def env_ok_def brsetto_def)
    qed (use assms c in \<open>simp add: brgotoname_def\<close>)
  qed (use assms in \<open>simp_all add: brgotoname_def\<close>)
qed

lemma brchmod_inv:
  assumes "br_inv rows region b" "env_ok rows region e"
  shows "keeps_inv rows region (brchmod e b)"
  using assms brchmod_br_inv [of rows "bb_br b"] by (simp add: brchmod_def br_inv_def env_ok_def)

lemma braddrnm_inv:
  assumes "br_inv rows region b" "env_ok rows region e"
  shows "keeps_inv rows region (braddrnm e b)"
proof -
  let ?s = "if be_keyboard e then be_gets e else (case be_tokens e of [] \<Rightarrow> None | t # _ \<Rightarrow> t)"
  let ?b = "if be_keyboard e then brsetto b else b"
  have i: "br_inv rows region ?b" using assms(1) by simp
  show ?thesis
  proof (cases ?s)
    case None
    then show ?thesis using i unfolding braddrnm_def Let_def by simp
  next
    case (Some s)
    let ?br = "(bb_br ?b)\<lparr>br_mdata := be_rnmparse e s,
        br_strbar := titlemake (be_mem e) (dirstrip s) (vme_addr_int (br_region (bb_br ?b))) (br_crateid (bb_br ?b))\<rparr>"
    have "br_shape rows ?br" "br_pos rows ?br" using i by (auto simp: br_inv_def)
    then have "br_shape rows (brchmod_br rows ?br)" "br_pos rows (brchmod_br rows ?br)"
      "br_region (brchmod_br rows ?br) = br_region ?br" "br_topoffs (brchmod_br rows ?br) = br_topoffs ?br"
      using brchmod_br_inv by blast+
    note one = this
    then have "br_shape rows (brchmod_br rows (brchmod_br rows ?br))" "br_pos rows (brchmod_br rows (brchmod_br rows ?br))"
      "br_region (brchmod_br rows (brchmod_br rows ?br)) = br_region ?br"
      "br_topoffs (brchmod_br rows (brchmod_br rows ?br)) = br_topoffs ?br"
      using brchmod_br_inv [OF one(1,2)] by simp_all
    then have "br_inv rows region (?b\<lparr>bb_rnms := be_rnmparse e s, bb_br := brchmod_br rows (brchmod_br rows ?br)\<rparr>)"
      using i assms(2) by (auto simp: br_inv_def env_ok_def)
    moreover have "be_rows e = rows" using assms(2) by (simp add: env_ok_def)
    ultimately show ?thesis using Some unfolding braddrnm_def Let_def by simp
  qed
qed

lemma move_inv:
  assumes "br_inv rows region b" "env_ok rows region e" "c \<in> set br_moves"
  shows "keeps_inv rows region (c e b)"
proof -
  obtain f where f: "c = br_move f" "f \<in> {brleft, brright, brup, brdn, brpgdn, brpgup, brend, \<lambda>rows. brhome}"
    using assms(3) by (auto simp: br_moves_def)
  have "br_shape rows (bb_br b)" "br_pos rows (bb_br b)" using assms(1) by (auto simp: br_inv_def)
  then show ?thesis
    using br_move_pos [OF _ _ f(2), of rows "bb_br b"] br_inv_moved [OF assms(1)] assms(2)
    by (simp add: f(1) br_move_def env_ok_def)
qed

lemma brwrite_inv:
  assumes "br_inv rows region b"
  shows "keeps_inv rows region (brwrite e b)"
proof (cases "be_val e")
  case (Some v)
  then show ?thesis
    using assms brwrite1_inv [of rows region "brsetto b" v] unfolding brwrite_def Let_def by simp
qed (use assms in \<open>simp add: brwrite_def\<close>)

lemma brchrefresh_inv:
  assumes "br_inv rows region b"
  shows "keeps_inv rows region (brchrefresh e b)"
  using assms unfolding brchrefresh_def Let_def
  by (cases "be_keyboard e"; cases "be_val e"; cases "be_tokens e"; cases "hd (be_tokens e)") simp_all

lemma simple_cmd_inv:
  assumes "br_inv rows region b"
  shows "keeps_inv rows region (brditto e b)" "keeps_inv rows region (brzero e b)"
    "keeps_inv rows region (brapp e b)" "keeps_inv rows region (brrefreshoff e b)"
proof -
  show "keeps_inv rows region (brditto e b)" "keeps_inv rows region (brzero e b)"
    using assms brwrite1_inv unfolding brditto_def brzero_def by simp_all
  show "keeps_inv rows region (brapp e b)" using assms unfolding brapp_def by simp
  show "keeps_inv rows region (brrefreshoff e b)" using assms unfolding brrefreshoff_def keeps_inv_Some br_inv_to br_inv_lastwrite .
qed

lemma cmd_inv:
  assumes "br_inv rows region b" "env_ok rows region e" "c \<in> set browser_cmds"
  shows "keeps_inv rows region (c e b)"
proof -
  have "c \<in> {brditto, brgoto, brgotoname, brzero, brwrite, brchmod, brapp, braddrnm, brrefreshoff, brchrefresh} \<union> set br_moves"
    using assms(3) by (auto simp: browser_cmds_def brklu_def brslu_def)
  then show ?thesis
    using brwrite_inv [OF assms(1)] brchrefresh_inv [OF assms(1)] simple_cmd_inv [OF assms(1)] brgoto_inv [OF assms(1,2)] brgotoname_inv [OF assms(1,2)] brchmod_inv [OF assms(1,2)]
      braddrnm_inv [OF assms(1,2)] move_inv [OF assms(1,2)]
    by blast
qed

interpretation browser: guarded_run "\<lambda>(e, c) b. c e b" br_run
  "\<lambda>(e, c). env_ok rows region e \<and> c \<in> set browser_cmds" "br_inv rows region"
  for rows :: int and region :: vme_region
proof (unfold_locales, goal_cases)
  case (3 b op)
  then show ?case using cmd_inv [of rows region b "fst op" "snd op"] by (auto simp: keeps_inv_def)
qed auto

section \<open>From the creation of the browser\<close>

lemma browser_init_inv:
  assumes "region_ok rows region" "\<And>m. metadata = Some m \<Longrightarrow> r_dwidth m = 2 \<or> r_dwidth m = 4"
    "\<And>m. metadata = Some m \<Longrightarrow> rnm_fits region m \<and> r_len m * r_dwidth m \<le> uint (vr_len region)"
  shows "br_inv rows region
    \<lparr>bb_rnms = metadata, bb_br = browser_init rows junk ps region metadata crateid, bb_writes = [], bb_to = t\<rparr>"
proof -
  let ?d = "case metadata of Some m \<Rightarrow> r_dwidth m | None \<Rightarrow> 2"
  let ?o = "case metadata of Some m \<Rightarrow> r_len m * r_dwidth m | None \<Rightarrow> 128"
  let ?pbr = "\<lparr>br_sel = 0, br_refresh = BROWSER_MS, br_offs = 0, br_ncols = fst junk, br_dwidth = ?d,
      br_printlen = snd junk, br_strbar = ps, br_dwshift = 0, br_lastwrite = 0, br_topoffs = ?o,
      br_crateid = crateid, br_region = region, br_mdata = metadata\<rparr>"
  have rows: "0 < rows - 5" using assms(1) by (auto simp: region_ok_def)
  have topoffs: "?o \<le> uint (vr_len region)"
    using assms(1,3) by (cases metadata) (auto simp: region_ok_def)
  have one: "br_shape rows (brchmod_br rows ?pbr) \<and> br_pos rows (brchmod_br rows ?pbr) \<and>
      br_region (brchmod_br rows ?pbr) = region \<and> br_topoffs (brchmod_br rows ?pbr) = ?o"
    using brchmod_br_pos [of rows ?pbr] assms(1,2) rows by (cases metadata) auto
  then have "br_shape rows (brchmod_br rows (brchmod_br rows ?pbr)) \<and> br_pos rows (brchmod_br rows (brchmod_br rows ?pbr)) \<and>
      br_region (brchmod_br rows (brchmod_br rows ?pbr)) = region \<and> br_topoffs (brchmod_br rows (brchmod_br rows ?pbr)) = ?o"
    using brchmod_br_inv [of rows "brchmod_br rows ?pbr"] by simp
  then show ?thesis
    using topoffs assms(3) unfolding br_inv_def browser_init_def Let_def by simp
qed


definition dummy_region :: vme_region where
  "dummy_region = \<lparr>vr_base = Some 0, vr_start_page = 0, vr_end_page = 0, vr_vme_addr = 0, vr_len = 32768,
     vr_config = 0, vr_tag = None\<rparr>"

definition key_env :: "int option \<Rightarrow> br_env" where
  "key_env v = \<lparr>be_rows = 24, be_keyboard = True, be_gets = None, be_val = v, be_tokens = [],
     be_rnmparse = (\<lambda>s. None), be_mem = True\<rparr>"


text \<open>The \<open>goto\<close> command puts the cursor on the register that holds the byte asked for: the number of
  the register under the cursor is the byte offset divided by the data width, with the cursor on the page
  and the page in the region.\<close>

theorem brgoto_reaches:
  assumes "br_shape rows (bb_br b)" "be_rows e = rows" "be_keyboard e" "be_val e = Some v" "0 \<le> v"
    "v < br_topoffs (bb_br b)" "br_topoffs (bb_br b) \<le> uint (vr_len (br_region (bb_br b)))"
  shows "\<exists>b'. brgoto e b = Some b' \<and> br_sel (bb_br b') + br_offs (bb_br b') = v div br_dwidth (bb_br b) \<and>
    0 \<le> br_sel (bb_br b') \<and> br_sel (bb_br b') < brarraylen rows (bb_br b') \<and>
    0 \<le> br_offs (bb_br b') \<and> br_offs (bb_br b') \<le> broffmax rows (bb_br b') \<and>
    br_dwidth (bb_br b') = br_dwidth (bb_br b) \<and> bb_writes b' = bb_writes b"
proof -
  have "v < uint (vr_len (br_region (bb_br b)))" using assms(6,7) by simp
  then obtain br' where j: "brjump rows v (bb_br b) = Some br'" "br_pos rows br'" "br_moved (bb_br b) br'"
      "br_sel br' + br_offs br' = v div br_dwidth (bb_br b)"
    using brjump_pos [OF assms(1,5)] by blast
  then have "brgoto e b = Some ((brsetto b)\<lparr>bb_br := br'\<rparr>)"
    using assms by (simp add: brgoto_def brsetto_def set_br_def)
  then show ?thesis
    using j br_moved_frame(4) [OF j(3)] by (simp add: br_pos_def brsetto_def)
qed

definition dummy_buf :: brbuf where
  "dummy_buf = \<lparr>bb_rnms = None, bb_br = \<lparr>br_sel = 3, br_refresh = 50, br_offs = 8, br_ncols = 8, br_dwidth = 2,
     br_printlen = 6, br_strbar = None, br_dwshift = 0, br_lastwrite = 0, br_topoffs = 128, br_crateid = 0,
     br_region = dummy_region, br_mdata = None\<rparr>, bb_writes = [], bb_to = 0\<rparr>"

theorem brgoto_reaches_witness:
  "\<exists>b'. brgoto (key_env (Some 101)) dummy_buf = Some b' \<and> br_sel (bb_br b') + br_offs (bb_br b') = 50 \<and>
    0 \<le> br_sel (bb_br b') \<and> br_sel (bb_br b') < brarraylen 24 (bb_br b') \<and>
    0 \<le> br_offs (bb_br b') \<and> br_offs (bb_br b') \<le> broffmax 24 (bb_br b') \<and>
    br_dwidth (bb_br b') = 2 \<and> bb_writes b' = []"
  using brgoto_reaches [of 24 dummy_buf "key_env (Some 101)" 101]
  by (simp add: dummy_buf_def key_env_def br_shape_def region_ok_def dummy_region_def)

end
