(* ===== verification/Tui_Buffer.thy ===== *)
theory Tui_Buffer
  imports Tui_Browser_Props
begin

text \<open>
  The buffers of the browser program (\<open>v120_tui/buffer.c\<close>, and \<open>browsernew\<close>, \<open>brkill\<close>, \<open>brquit\<close> of
  \<open>browser.c\<close>): the linked list of buffers as the list of their addresses, the buffers that are
  allocated, the current and the last one, and the cursor of the buffer list. Drawing is left out, but
  not what it dereferences: \<open>None\<close> is an access through NULL or to a freed buffer.
\<close>

section \<open>State\<close>

datatype tui_mode = BRMODE | BUMODE

record tbuffer =
  b_name :: string
  b_mode :: tui_mode
  b_rnms :: "rnm option"
  b_priv :: "browser option"

text \<open>\<open>g_list\<close> is the list from \<open>g_headbuf\<close> on; \<open>g_fresh\<close> is the next address \<open>malloc\<close> returns.\<close>

record tui =
  g_heap :: "nat \<Rightarrow> tbuffer option"
  g_list :: "nat list"
  g_buffer :: "nat option"
  g_lastbuf :: "nat option"
  g_cpos :: int
  g_fresh :: nat
  g_to :: int
  g_writes :: "reg_write list"

definition g_headbuf :: "tui \<Rightarrow> nat option" where
  "g_headbuf t = (case g_list t of [] \<Rightarrow> None | b # _ \<Rightarrow> Some b)"

section \<open>The list\<close>

definition bufferadd2list :: "nat \<Rightarrow> tui \<Rightarrow> tui" where
  "bufferadd2list b t = t\<lparr>g_list := b # g_list t\<rparr>"

definition buffershuffle :: "tui \<Rightarrow> tui" where
  "buffershuffle t = (case g_list t of b # c # bs \<Rightarrow> t\<lparr>g_list := c # b # bs\<rparr> | _ \<Rightarrow> t)"

text \<open>The buffer at a position, NULL beyond the end; in an empty list the loop starts with NULL.\<close>

definition pos2buf :: "nat list \<Rightarrow> int \<Rightarrow> nat option option" where
  "pos2buf bs pos =
     (if pos \<le> 0 then Some (case bs of [] \<Rightarrow> None | b # _ \<Rightarrow> Some b)
      else if bs = [] then None
      else if nat pos < length bs then Some (Some (bs ! nat pos)) else Some None)"

text \<open>\<open>NONAME\<close> is the name when its copy cannot be allocated.\<close>

definition buffernew :: "bool \<times> bool \<Rightarrow> string \<Rightarrow> tui_mode \<Rightarrow> rnm option \<Rightarrow> browser option \<Rightarrow> tui \<Rightarrow> nat option \<times> tui" where
  "buffernew mem name mode rnm priv t =
     (if \<not> fst mem then (None, t)
      else (let a = g_fresh t;
                s = (if snd mem then name else ''(Unk)'');
                t = t\<lparr>g_heap := (g_heap t)(a \<mapsto> \<lparr>b_name = s, b_mode = mode, b_rnms = rnm, b_priv = priv\<rparr>), g_fresh := a + 1\<rparr>
            in (Some a, bufferadd2list a t)))"

section \<open>Switching\<close>

definition m_title :: "tbuffer \<Rightarrow> string option" where
  "m_title b = (case b_mode b of BUMODE \<Rightarrow> Some ''Buffer list'' | BRMODE \<Rightarrow> Option.bind (b_priv b) br_strbar)"

text \<open>The title is measured by \<open>titleprint\<close>, then the page is drawn and the timeout set.\<close>

definition m_setto :: "tbuffer \<Rightarrow> tui \<Rightarrow> tui" where
  "m_setto b t = t\<lparr>g_to := (case b_priv b of Some br \<Rightarrow> (if b_mode b = BRMODE then br_refresh br else -1) | None \<Rightarrow> -1)\<rparr>"

definition buffergoto :: "nat option \<Rightarrow> tui \<Rightarrow> tui option" where
  "buffergoto pbuf t =
     (let t = t\<lparr>g_lastbuf := g_buffer t, g_buffer := pbuf\<rparr> in
      case Option.bind pbuf (g_heap t) of
        None \<Rightarrow> None
      | Some b \<Rightarrow> (case m_title b of None \<Rightarrow> None | Some s \<Rightarrow> Some (m_setto b t)))"

definition bufferback :: "tui \<Rightarrow> tui option" where
  "bufferback t = buffergoto (g_lastbuf t) t"

text \<open>\<open>b_next\<close> of a buffer in the list.\<close>

fun b_next :: "nat list \<Rightarrow> nat \<Rightarrow> nat option" where
  "b_next [] b = None"
| "b_next [x] b = None"
| "b_next (x # y # bs) b = (if x = b then Some y else b_next (y # bs) b)"

definition buffernext :: "tui \<Rightarrow> tui option" where
  "buffernext t =
     (case g_buffer t of
        None \<Rightarrow> None
      | Some b \<Rightarrow>
          (if g_heap t b = None then None
           else (let p = b_next (g_list t) b in buffergoto (if p = None then g_headbuf t else p) t)))"

section \<open>Killing\<close>

text \<open>The predecessor of a buffer that is not the head.\<close>

fun b_prev :: "nat list \<Rightarrow> nat \<Rightarrow> nat option" where
  "b_prev [] b = None"
| "b_prev [x] b = None"
| "b_prev (x # y # bs) b = (if y = b then Some x else b_prev (y # bs) b)"

definition bufferfree :: "nat \<Rightarrow> tui \<Rightarrow> tui" where
  "bufferfree b t = t\<lparr>g_heap := (g_heap t)(b := None)\<rparr>"

definition bufferkill :: "nat \<Rightarrow> tui \<Rightarrow> tui option" where
  "bufferkill pbuf t =
     (case g_list t of
        [] \<Rightarrow> None
      | h # bs \<Rightarrow>
          (if pbuf = h then Some (bufferfree h (t\<lparr>g_list := bs\<rparr>))
           else case b_prev (h # bs) pbuf of
             None \<Rightarrow> Some t
           | Some p \<Rightarrow>
               (let t = t\<lparr>g_cpos := 0, g_list := remove1 pbuf (g_list t)\<rparr> in
                if g_buffer t = Some pbuf
                then map_option (bufferfree pbuf) (buffergoto (Some p) (t\<lparr>g_buffer := Some p\<rparr>))
                else Some (bufferfree pbuf t))))"

text \<open>The title and the private data are freed before the buffer; a region without a crate, its memory too.\<close>

definition brquit :: "nat \<Rightarrow> tui \<Rightarrow> tui option" where
  "brquit pbuf t =
     (case g_heap t pbuf of
        None \<Rightarrow> None
      | Some b \<Rightarrow>
          (case b_priv b of
             None \<Rightarrow> None
           | Some br \<Rightarrow> bufferkill pbuf (t\<lparr>g_heap := (g_heap t)(pbuf \<mapsto> b\<lparr>b_priv := None\<rparr>)\<rparr>)))"

definition brkill :: "nat \<Rightarrow> tui \<Rightarrow> tui option" where
  "brkill pbuf t =
     (case g_heap t pbuf of
        None \<Rightarrow> None
      | Some b \<Rightarrow>
          (case b_priv b of
             None \<Rightarrow> None
           | Some br \<Rightarrow> (if vme_addr_int (br_region br) < 0 then Some t else brquit pbuf t)))"

definition buquit :: "nat \<Rightarrow> tui \<Rightarrow> tui option" where
  "buquit pbuf t = bufferkill pbuf t"

definition bukill :: "nat \<Rightarrow> tui \<Rightarrow> tui option" where
  "bukill pbuf t =
     (case pos2buf (g_list t) (g_cpos t) of
        None \<Rightarrow> None
      | Some p \<Rightarrow>
          (if p = g_headbuf t then Some t
           else case p of
             None \<Rightarrow> None
           | Some p \<Rightarrow>
               (case g_heap t p of
                  None \<Rightarrow> None
                | Some b \<Rightarrow> (if b_mode b = BUMODE \<or> p = pbuf then Some t else brkill p t))))"

definition m_kill :: "nat \<Rightarrow> tui \<Rightarrow> tui option" where
  "m_kill pbuf t =
     (case g_heap t pbuf of
        None \<Rightarrow> None
      | Some b \<Rightarrow> (case b_mode b of BRMODE \<Rightarrow> brkill pbuf t | BUMODE \<Rightarrow> bukill pbuf t))"

definition m_quit :: "nat \<Rightarrow> tui \<Rightarrow> tui option" where
  "m_quit pbuf t =
     (case g_heap t pbuf of
        None \<Rightarrow> None
      | Some b \<Rightarrow> (case b_mode b of BRMODE \<Rightarrow> brquit pbuf t | BUMODE \<Rightarrow> buquit pbuf t))"

section \<open>The cursor of the buffer list\<close>

definition buup :: "tui \<Rightarrow> tui" where
  "buup t = (if 0 < g_cpos t then t\<lparr>g_cpos := g_cpos t - 1\<rparr> else t)"

definition budn :: "tui \<Rightarrow> tui option" where
  "budn t =
     (case pos2buf (g_list t) (g_cpos t) of
        None \<Rightarrow> None
      | Some p \<Rightarrow> Some (case p of
            Some p \<Rightarrow> (if b_next (g_list t) p \<noteq> None then t\<lparr>g_cpos := g_cpos t + 1\<rparr> else t)
          | None \<Rightarrow> t))"

definition bupgup :: "int \<Rightarrow> tui \<Rightarrow> tui" where
  "bupgup rows t = t\<lparr>g_cpos := (let n = g_cpos t - btnrows rows in if n < 0 then 0 else n)\<rparr>"

text \<open>\<open>rest\<close> is what follows the buffer \<open>p\<close> in the list.\<close>

fun pgdn_loop :: "nat list \<Rightarrow> int \<Rightarrow> int \<Rightarrow> int" where
  "pgdn_loop [] n cpos = cpos"
| "pgdn_loop (p # rest) n cpos = (if 0 < n then pgdn_loop rest (n - 1) (cpos + 1) else cpos)"

definition bupgdn :: "int \<Rightarrow> tui \<Rightarrow> tui option" where
  "bupgdn rows t =
     (case pos2buf (g_list t) (g_cpos t) of
        None \<Rightarrow> None
      | Some None \<Rightarrow> Some t
      | Some (Some p) \<Rightarrow>
          Some (t\<lparr>g_cpos := pgdn_loop (drop (Suc (nat (g_cpos t))) (g_list t)) (btnrows rows) (g_cpos t)\<rparr>))"

definition buend :: "tui \<Rightarrow> tui" where
  "buend t = t\<lparr>g_cpos := int (length (g_list t) - 1)\<rparr>"

definition buhome :: "tui \<Rightarrow> tui" where
  "buhome t = t\<lparr>g_cpos := 0\<rparr>"

definition bugoto :: "tui \<Rightarrow> tui option" where
  "bugoto t =
     (case pos2buf (g_list t) (g_cpos t) of
        None \<Rightarrow> None
      | Some None \<Rightarrow> Some t
      | Some p \<Rightarrow> buffergoto p t)"

section \<open>Creating\<close>

definition bufferlist_start :: "bool \<times> bool \<Rightarrow> tui \<Rightarrow> tui" where
  "bufferlist_start mem t =
     (let t = snd (buffernew mem ''Buffer list'' BUMODE None None t); t = t\<lparr>g_cpos := 0\<rparr>
      in t\<lparr>g_buffer := g_headbuf t\<rparr>)"

text \<open>\<open>mem\<close> is the success of the allocations of the browser, of its title and in \<open>buffernew\<close>.\<close>

definition browsernew ::
  "bool \<times> bool \<times> bool \<times> bool \<Rightarrow> int \<Rightarrow> int \<times> int \<Rightarrow> string \<Rightarrow> vme_region \<Rightarrow> rnm option \<Rightarrow> int \<Rightarrow> tui \<Rightarrow>
    nat option \<times> tui" where
  "browsernew mem rows junk name region metadata crateid t =
     (case mem of (m1, m2, m3) \<Rightarrow>
        if \<not> m1 then (None, t)
        else
          (let mdname = (case metadata of Some m \<Rightarrow> r_name m | None \<Rightarrow> ''(no name)'');
               ps = titlemake m2 mdname (vme_addr_int region) crateid
           in if ps = None then (None, t)
              else buffernew m3 name BRMODE metadata (Some (browser_init rows junk ps region metadata crateid)) t))"

section \<open>The operations of the user\<close>

text \<open>
  \<open>inpnext\<close>, \<open>inphome\<close>, \<open>inpkill\<close>, \<open>bugoto\<close>, the cursor methods of \<open>bumode\<close>, and a new browser,
  which \<open>add_vme\<close> and \<open>add_dummy\<close> put behind the buffer list.
\<close>

datatype tui_op =
    OpNext | OpHome | OpKill | OpGoto
  | OpUp | OpDn | OpPgup int | OpPgdn int | OpEnd | OpStart
  | OpNew "bool \<times> bool \<times> bool \<times> bool" int "int \<times> int" string vme_region "rnm option" int

definition inpkill :: "tui \<Rightarrow> tui option" where
  "inpkill t = Option.bind (g_buffer t) (\<lambda>b. m_kill b t)"

fun tui_exec :: "tui_op \<Rightarrow> tui \<Rightarrow> tui option" where
  "tui_exec OpNext t = buffernext t"
| "tui_exec OpHome t = buffergoto (g_headbuf t) t"
| "tui_exec OpKill t = inpkill t"
| "tui_exec OpGoto t = bugoto t"
| "tui_exec OpUp t = Some (buup t)"
| "tui_exec OpDn t = budn t"
| "tui_exec (OpPgup rows) t = Some (bupgup rows t)"
| "tui_exec (OpPgdn rows) t = bupgdn rows t"
| "tui_exec OpEnd t = Some (buend t)"
| "tui_exec OpStart t = Some (buhome t)"
| "tui_exec (OpNew mem rows junk name region metadata crateid) t =
     (case browsernew mem rows junk name region metadata crateid t of
        (None, t) \<Rightarrow> Some t
      | (Some b, t) \<Rightarrow> Some (buffershuffle t))"

fun tui_run :: "tui_op list \<Rightarrow> tui \<Rightarrow> tui option" where
  "tui_run [] t = Some t"
| "tui_run (x # xs) t = Option.bind (tui_exec x t) (tui_run xs)"

fun next_times :: "nat \<Rightarrow> tui \<Rightarrow> tui option" where
  "next_times 0 t = Some t"
| "next_times (Suc k) t = Option.bind (buffernext t) (next_times k)"

end
