(* ===== verification/Tui_Buffer_Props.thy ===== *)
theory Tui_Buffer_Props
  imports Tui_Buffer
begin

text \<open>
  The buffer list keeps its shape under every operation of the program, \<open>next-buffer\<close> visits all
  buffers in turn, and \<open>toggle-buffer\<close> after a kill goes to a freed buffer.
\<close>

section \<open>The invariant\<close>

definition list_ok :: "(nat \<Rightarrow> tbuffer option) \<Rightarrow> nat list \<Rightarrow> bool" where
  "list_ok h bs \<longleftrightarrow>
     distinct bs \<and> bs \<noteq> [] \<and> (\<exists>x. h (hd bs) = Some x \<and> b_mode x = BUMODE) \<and>
     (\<forall>b \<in> set (tl bs). \<exists>x br. h b = Some x \<and> b_mode x = BRMODE \<and> b_priv x = Some br \<and> br_strbar br \<noteq> None)"

definition tui_wf :: "tui \<Rightarrow> bool" where
  "tui_wf t \<longleftrightarrow>
     list_ok (g_heap t) (g_list t) \<and> (\<forall>b. g_heap t b \<noteq> None \<longleftrightarrow> b \<in> set (g_list t)) \<and>
     (\<exists>c. g_buffer t = Some c \<and> c \<in> set (g_list t)) \<and> 0 \<le> g_cpos t \<and> g_cpos t < int (length (g_list t)) \<and>
     (\<forall>b \<in> set (g_list t). b < g_fresh t)"

lemma list_ok_split:
  assumes "list_ok h bs" "b \<in> set bs"
  obtains "b = hd bs" | "b \<in> set (tl bs)" "b \<noteq> hd bs"
  using assms by (cases bs) (auto simp: list_ok_def)

lemma list_ok_shown:
  assumes "list_ok h bs" "b \<in> set bs"
  shows "\<exists>x s. h b = Some x \<and> m_title x = Some s"
  using list_ok_split [OF assms]
  by cases (use assms(1) in \<open>fastforce simp: list_ok_def m_title_def\<close>)+

lemma pos2buf_in: "0 \<le> pos \<Longrightarrow> pos < int (length bs) \<Longrightarrow> pos2buf bs pos = Some (Some (bs ! nat pos))"
  by (cases bs) (auto simp: pos2buf_def)

lemma b_prev_in: "b \<in> set (tl bs) \<Longrightarrow> distinct bs \<Longrightarrow> \<exists>p. b_prev bs b = Some p \<and> p \<in> set bs \<and> p \<noteq> b"
  by (induction bs b rule: b_prev.induct) auto

lemma b_next_nth: "distinct bs \<Longrightarrow> i < length bs \<Longrightarrow> b_next bs (bs ! i) = (if Suc i < length bs then Some (bs ! Suc i) else None)"
proof (induction bs arbitrary: i)
  case (Cons x bs)
  then show ?case by (cases bs; cases i) (auto simp: nth_Cons')
qed simp

lemma buffergoto_shown:
  assumes "g_heap t b = Some x" "m_title x = Some s"
  shows "buffergoto (Some b) t = Some (m_setto x (t\<lparr>g_lastbuf := g_buffer t, g_buffer := Some b\<rparr>))"
  using assms by (simp add: buffergoto_def)

lemma m_setto_sel [simp]:
  "g_heap (m_setto x t) = g_heap t" "g_list (m_setto x t) = g_list t" "g_buffer (m_setto x t) = g_buffer t"
  "g_lastbuf (m_setto x t) = g_lastbuf t" "g_cpos (m_setto x t) = g_cpos t" "g_fresh (m_setto x t) = g_fresh t"
  by (simp_all add: m_setto_def)

lemma buffergoto_wf:
  assumes "tui_wf t" "b \<in> set (g_list t)"
  shows "\<exists>t'. buffergoto (Some b) t = Some t' \<and> tui_wf t' \<and> g_buffer t' = Some b \<and> g_list t' = g_list t"
proof -
  obtain x s where "g_heap t b = Some x" "m_title x = Some s"
    using list_ok_shown [of "g_heap t" "g_list t" b] assms by (auto simp: tui_wf_def)
  note g = buffergoto_shown [OF this]
  show ?thesis
    unfolding g using assms by (auto simp: tui_wf_def)
qed

lemma buffernext_wf:
  assumes "tui_wf t" "g_buffer t = Some (g_list t ! i)" "i < length (g_list t)"
  shows "\<exists>t'. buffernext t = Some t' \<and> tui_wf t' \<and> g_list t' = g_list t \<and>
    g_buffer t' = Some (g_list t ! (Suc i mod length (g_list t)))"
proof -
  let ?bs = "g_list t"
  have d: "distinct ?bs" "?bs \<noteq> []" using assms(1) by (auto simp: tui_wf_def list_ok_def)
  have live: "g_heap t (?bs ! i) \<noteq> None" using assms by (auto simp: tui_wf_def)
  have head: "g_headbuf t = Some (?bs ! 0)" using d(2) by (cases ?bs) (auto simp: g_headbuf_def)
  have next_eq: "buffernext t = buffergoto (Some (?bs ! (Suc i mod length ?bs))) t"
  proof (cases "Suc i < length ?bs")
    case True
    then show ?thesis
      using assms(2) live b_next_nth [OF d(1) assms(3)] by (auto simp: buffernext_def)
  next
    case False
    then have "Suc i = length ?bs" using assms(3) by simp
    then show ?thesis
      using assms(2) live b_next_nth [OF d(1) assms(3)] head by (auto simp: buffernext_def)
  qed
  have "?bs ! (Suc i mod length ?bs) \<in> set ?bs"
    using d(2) by (intro nth_mem) simp
  then show ?thesis unfolding next_eq using buffergoto_wf [OF assms(1)] by blast
qed

section \<open>Killing\<close>

lemma brkill_wf:
  assumes "tui_wf t" "b \<in> set (tl (g_list t))"
  shows "\<exists>t'. brkill b t = Some t' \<and> tui_wf t' \<and> (g_buffer t \<noteq> Some b \<longrightarrow> g_lastbuf t' = g_lastbuf t) \<and>
    (\<forall>x br. g_heap t b = Some x \<longrightarrow> b_priv x = Some br \<longrightarrow> 0 \<le> vme_addr_int (br_region br) \<longrightarrow> g_heap t' b = None)"
proof -
  let ?bs = "g_list t"
  have ok: "list_ok (g_heap t) ?bs" and inv: "\<forall>b. g_heap t b \<noteq> None \<longleftrightarrow> b \<in> set ?bs"
    using assms(1) by (auto simp: tui_wf_def)
  obtain x br where x: "g_heap t b = Some x" "b_priv x = Some br" using ok assms(2) by (auto simp: list_ok_def)
  show ?thesis
  proof (cases "vme_addr_int (br_region br) < 0")
    case True
    then show ?thesis using x assms(1) by (simp add: brkill_def)
  next
    case False
    obtain h bs where bs: "?bs = h # bs" "b \<in> set bs" using assms(2) by (cases ?bs) auto
    have d: "distinct (h # bs)" using ok bs by (simp add: list_ok_def)
    then have bh: "b \<noteq> h" using bs(2) by auto
    obtain p where p: "b_prev ?bs b = Some p" "p \<in> set ?bs" "p \<noteq> b"
      using b_prev_in [OF assms(2)] ok by (auto simp: list_ok_def)
    let ?t = "t\<lparr>g_heap := (g_heap t)(b \<mapsto> x\<lparr>b_priv := None\<rparr>), g_cpos := 0, g_list := remove1 b ?bs\<rparr>"
    have kill: "brkill b t = (if g_buffer t = Some b
        then map_option (bufferfree b) (buffergoto (Some p) (?t\<lparr>g_buffer := Some p\<rparr>)) else Some (bufferfree b ?t))"
      using False x p(1) bh unfolding brkill_def brquit_def bufferkill_def by (simp add: Let_def bs(1))
    have rem: "set (remove1 b ?bs) = set ?bs - {b}" "remove1 b ?bs = h # remove1 b bs"
      using d bs bh by auto
    have ok': "list_ok ((g_heap t)(b := None)) (remove1 b ?bs)"
      using ok d bs bh unfolding list_ok_def rem(2) by (auto simp: bs(1))
    obtain y s where y: "g_heap t p = Some y" "m_title y = Some s" using list_ok_shown [OF ok p(2)] by blast
    have wf: "tui_wf (bufferfree b t')"
      if "g_heap t' = (g_heap t)(b \<mapsto> x\<lparr>b_priv := None\<rparr>)" "g_cpos t' = 0" "g_list t' = remove1 b ?bs" "g_fresh t' = g_fresh t"
        "g_buffer t' = Some c" "c \<in> set ?bs" "c \<noteq> b" for t' c
    proof -
      have "list_ok (g_heap (bufferfree b t')) (g_list (bufferfree b t'))"
        using ok' that(1,3) by (simp add: bufferfree_def)
      moreover have "\<forall>c. g_heap (bufferfree b t') c \<noteq> None \<longleftrightarrow> c \<in> set (g_list (bufferfree b t'))"
        using inv that(1,3) rem(1) by (simp add: bufferfree_def)
      moreover have "\<exists>c. g_buffer (bufferfree b t') = Some c \<and> c \<in> set (g_list (bufferfree b t'))"
        using that(3,5,6,7) rem(1) by (simp add: bufferfree_def)
      moreover have "0 \<le> g_cpos (bufferfree b t') \<and> g_cpos (bufferfree b t') < int (length (g_list (bufferfree b t')))"
        using that(2,3) rem(2) by (simp add: bufferfree_def)
      moreover have "\<forall>c \<in> set (g_list (bufferfree b t')). c < g_fresh (bufferfree b t')"
        using assms(1) that(3,4) rem(1) by (simp add: bufferfree_def tui_wf_def)
      ultimately show ?thesis unfolding tui_wf_def by blast
    qed
    show ?thesis
    proof (cases "g_buffer t = Some b")
      case True
      have "buffergoto (Some p) (?t\<lparr>g_buffer := Some p\<rparr>) =
          Some (m_setto y (?t\<lparr>g_buffer := Some p, g_lastbuf := Some p, g_buffer := Some p\<rparr>))"
        using buffergoto_shown [of "?t\<lparr>g_buffer := Some p\<rparr>" p y s] y p(3) by simp
      then show ?thesis
        unfolding kill using True wf [of _ p] p by (simp add: bufferfree_def)
    next
      case other: False
      obtain c where c: "g_buffer t = Some c" "c \<in> set ?bs" using assms(1) by (auto simp: tui_wf_def)
      show ?thesis
        unfolding kill using other c wf [of ?t c] by (auto simp: bufferfree_def)
    qed
  qed
qed

lemma bukill_wf:
  assumes "tui_wf t"
  shows "\<exists>t'. bukill b t = Some t' \<and> tui_wf t'"
proof -
  let ?bs = "g_list t" and ?p = "g_list t ! nat (g_cpos t)"
  have ok: "list_ok (g_heap t) ?bs" and c: "0 \<le> g_cpos t" "g_cpos t < int (length ?bs)"
    using assms by (auto simp: tui_wf_def)
  have mem: "?p \<in> set ?bs" using c by (intro nth_mem) simp
  have h: "g_headbuf t = Some (hd ?bs)" using ok by (cases ?bs) (auto simp: g_headbuf_def list_ok_def)
  show ?thesis
    using list_ok_split [OF ok mem]
  proof cases
    case 1
    then show ?thesis using assms pos2buf_in [OF c] h by (simp add: bukill_def)
  next
    case 2
    obtain x where "g_heap t ?p = Some x" "b_mode x = BRMODE" using ok 2(1) by (auto simp: list_ok_def)
    then show ?thesis
      using pos2buf_in [OF c] h 2 brkill_wf [OF assms 2(1)] assms by (auto simp: bukill_def)
  qed
qed

lemma m_kill_wf:
  assumes "tui_wf t" "b \<in> set (g_list t)"
  shows "\<exists>t'. m_kill b t = Some t' \<and> tui_wf t'"
proof -
  have ok: "list_ok (g_heap t) (g_list t)" using assms(1) by (simp add: tui_wf_def)
  show ?thesis
    using list_ok_split [OF ok assms(2)]
  proof cases
    case 1
    then obtain x where "g_heap t b = Some x" "b_mode x = BUMODE" using ok by (auto simp: list_ok_def)
    then show ?thesis using bukill_wf [OF assms(1)] by (simp add: m_kill_def)
  next
    case 2
    then obtain x where "g_heap t b = Some x" "b_mode x = BRMODE" using ok by (auto simp: list_ok_def)
    then show ?thesis using brkill_wf [OF assms(1) 2(1)] by (auto simp: m_kill_def)
  qed
qed

section \<open>Moving and adding\<close>

lemma tui_wf_cpos:
  "tui_wf t \<Longrightarrow> 0 \<le> n \<Longrightarrow> n < int (length (g_list t)) \<Longrightarrow> tui_wf (t\<lparr>g_cpos := n\<rparr>)"
  by (simp add: tui_wf_def)

lemma pgdn_loop_bounds: "cpos \<le> pgdn_loop rest n cpos \<and> pgdn_loop rest n cpos \<le> cpos + int (length rest)"
proof (induction rest arbitrary: n cpos)
  case (Cons p rest)
  show ?case using Cons.IH [of "cpos + 1" "n - 1"] by auto
qed simp

lemma cursor_wf:
  assumes "tui_wf t" "3 \<le> rows"
  shows "tui_wf (buup t)" "\<exists>t'. budn t = Some t' \<and> tui_wf t'" "tui_wf (bupgup rows t)"
    "\<exists>t'. bupgdn rows t = Some t' \<and> tui_wf t'" "tui_wf (buend t)" "tui_wf (buhome t)"
proof -
  let ?bs = "g_list t"
  have c: "0 \<le> g_cpos t" "g_cpos t < int (length ?bs)" and d: "distinct ?bs" "?bs \<noteq> []"
    using assms(1) by (auto simp: tui_wf_def list_ok_def)
  note w = tui_wf_cpos [OF assms(1)]
  note at = pos2buf_in [OF c]
  show "tui_wf (buup t)" using assms w [of "g_cpos t - 1"] c by (simp add: buup_def)
  have "b_next ?bs (?bs ! nat (g_cpos t)) = (if Suc (nat (g_cpos t)) < length ?bs then Some (?bs ! Suc (nat (g_cpos t))) else None)"
    using c by (intro b_next_nth [OF d(1)]) simp
  then show "\<exists>t'. budn t = Some t' \<and> tui_wf t'"
    using assms at w [of "g_cpos t + 1"] c by (simp add: budn_def)
  show "tui_wf (bupgup rows t)"
    using w [of "g_cpos t - btnrows rows"] w [of 0] c d assms(2) by (simp add: bupgup_def Let_def btnrows_def)
  show "\<exists>t'. bupgdn rows t = Some t' \<and> tui_wf t'"
    using at w [of "pgdn_loop (drop (Suc (nat (g_cpos t))) ?bs) (btnrows rows) (g_cpos t)"] c
      pgdn_loop_bounds [of "g_cpos t" "drop (Suc (nat (g_cpos t))) ?bs" "btnrows rows"]
    by (simp add: bupgdn_def)
  show "tui_wf (buend t)" using w [of "int (length ?bs - 1)"] d by (cases ?bs) (simp_all add: buend_def)
  show "tui_wf (buhome t)" using w [of 0] d(2) by (simp add: buhome_def)
qed

lemma brchmod_br_strbar: "br_strbar (brchmod_br rows br) = br_strbar br"
proof -
  have "br_strbar (brcheckpos rows b) = br_strbar b" for b
    by (simp add: brcheckpos_def brstartpos_def brendpos_def Let_def)
  then show ?thesis by (simp add: brchmod_br_def Let_def)
qed

lemma browsernew_wf:
  assumes "tui_wf t"
  shows "case browsernew mem rows junk name region metadata crateid t of
           (None, t') \<Rightarrow> t' = t | (Some b, t') \<Rightarrow> tui_wf (buffershuffle t')"
proof (cases "fst (browsernew mem rows junk name region metadata crateid t)")
  case None
  then show ?thesis
    by (auto simp: browsernew_def buffernew_def Let_def split: prod.splits if_splits)
next
  case (Some a)
  obtain m1 m2 m3 where mem: "mem = (m1, m2, m3)" by (cases mem) auto
  define ps where "ps = titlemake m2 (case metadata of Some m \<Rightarrow> r_name m | None \<Rightarrow> ''(no name)'') (vme_addr_int region) crateid"
  define br where "br = browser_init rows junk ps region metadata crateid"
  define x where "x = \<lparr>b_name = (if snd m3 then name else ''(Unk)''), b_mode = BRMODE, b_rnms = metadata, b_priv = Some br\<rparr>"
  have ok: "m1" "ps \<noteq> None" "fst m3"
    using Some unfolding browsernew_def mem prod.case Let_def ps_def [symmetric] buffernew_def
    by (auto split: if_splits)
  have eq: "browsernew mem rows junk name region metadata crateid t =
      (Some (g_fresh t), bufferadd2list (g_fresh t) (t\<lparr>g_heap := (g_heap t)(g_fresh t \<mapsto> x), g_fresh := g_fresh t + 1\<rparr>))"
    using ok unfolding browsernew_def mem prod.case Let_def ps_def [symmetric] br_def [symmetric] buffernew_def x_def
    by simp
  have x: "b_mode x = BRMODE" "b_priv x = Some br" by (simp_all add: x_def)
  have strbar: "br_strbar br \<noteq> None"
    using ok(2) by (simp add: br_def browser_init_def Let_def brchmod_br_strbar)
  obtain h bs where bs: "g_list t = h # bs" using assms by (cases "g_list t") (auto simp: tui_wf_def list_ok_def)
  have new: "g_fresh t \<notin> set (h # bs)" using assms by (auto simp: tui_wf_def bs)
  show ?thesis
    unfolding eq using assms new x strbar
    by (auto simp: buffershuffle_def bufferadd2list_def bs tui_wf_def list_ok_def less_SucI)
qed

section \<open>From the start of the program\<close>

text \<open>Before \<open>bufferlist_start\<close> the list holds the browsers of the crates' registers.\<close>

definition tui_boot :: "tui \<Rightarrow> bool" where
  "tui_boot t \<longleftrightarrow>
     distinct (g_list t) \<and> (\<forall>b. g_heap t b \<noteq> None \<longleftrightarrow> b \<in> set (g_list t)) \<and> (\<forall>b \<in> set (g_list t). b < g_fresh t) \<and>
     (\<forall>b \<in> set (g_list t). \<exists>x br. g_heap t b = Some x \<and> b_mode x = BRMODE \<and> b_priv x = Some br \<and> br_strbar br \<noteq> None)"

lemma bufferlist_start_wf:
  assumes "tui_boot t" "fst mem"
  shows "tui_wf (bufferlist_start mem t)"
proof -
  have new: "g_fresh t \<notin> set (g_list t)" using assms(1) by (auto simp: tui_boot_def)
  then have "list_ok ((g_heap t)(g_fresh t \<mapsto> x)) (g_fresh t # g_list t)" if "b_mode x = BUMODE" for x
    using assms(1) that unfolding list_ok_def tui_boot_def by auto
  then show ?thesis
    using assms new
    by (auto simp: bufferlist_start_def buffernew_def bufferadd2list_def Let_def g_headbuf_def tui_wf_def tui_boot_def less_SucI)
qed

definition op_ok :: "tui_op \<Rightarrow> bool" where
  "op_ok op \<longleftrightarrow> (case op of OpPgup rows \<Rightarrow> 3 \<le> rows | OpPgdn rows \<Rightarrow> 3 \<le> rows | _ \<Rightarrow> True)"

lemma bugoto_wf:
  assumes "tui_wf t"
  shows "\<exists>t'. bugoto t = Some t' \<and> tui_wf t'"
proof -
  have c: "0 \<le> g_cpos t" "g_cpos t < int (length (g_list t))" using assms by (auto simp: tui_wf_def)
  then have "g_list t ! nat (g_cpos t) \<in> set (g_list t)" by (intro nth_mem) simp
  then show ?thesis using pos2buf_in [OF c] buffergoto_wf [OF assms] by (fastforce simp: bugoto_def)
qed

lemma tui_wf_current:
  assumes "tui_wf t"
  obtains i where "g_buffer t = Some (g_list t ! i)" "i < length (g_list t)"
  using assms by (auto simp: tui_wf_def in_set_conv_nth)

lemma tui_exec_wf:
  assumes "tui_wf t" "op_ok op"
  shows "\<exists>t'. tui_exec op t = Some t' \<and> tui_wf t'"
proof (cases op)
  case OpNext
  obtain i where "g_buffer t = Some (g_list t ! i)" "i < length (g_list t)" by (rule tui_wf_current [OF assms(1)])
  then show ?thesis using buffernext_wf [OF assms(1)] OpNext by fastforce
next
  case OpHome
  have "\<exists>h. g_headbuf t = Some h \<and> h \<in> set (g_list t)"
    using assms(1) by (cases "g_list t") (auto simp: g_headbuf_def tui_wf_def list_ok_def)
  then show ?thesis using buffergoto_wf [OF assms(1)] OpHome by fastforce
next
  case OpKill
  obtain b where "g_buffer t = Some b" "b \<in> set (g_list t)" using assms(1) by (auto simp: tui_wf_def)
  then show ?thesis using m_kill_wf [OF assms(1)] OpKill by (simp add: inpkill_def)
next
  case OpGoto
  then show ?thesis using bugoto_wf [OF assms(1)] by simp
next
  case (OpNew mem rows junk name region metadata crateid)
  then show ?thesis
    using browsernew_wf [OF assms(1), of mem rows junk name region metadata crateid] assms(1)
    by (auto split: option.splits prod.splits)
qed (use cursor_wf [OF assms(1), of 24] cursor_wf [OF assms(1)] assms(2) in \<open>auto simp: op_ok_def\<close>)

interpretation buffers: guarded_run tui_exec tui_run op_ok tui_wf
proof (unfold_locales, goal_cases)
  case (3 t op)
  then show ?case by (rule tui_exec_wf)
qed auto


definition tui_empty :: tui where
  "tui_empty = \<lparr>g_heap = (\<lambda>b. None), g_list = [], g_buffer = None, g_lastbuf = None, g_cpos = 0, g_fresh = 0,
     g_to = 0, g_writes = []\<rparr>"

lemma tui_empty_boot: "tui_boot tui_empty"
  by (simp add: tui_boot_def tui_empty_def)

definition ops_demo :: "tui_op list" where
  "ops_demo = [OpNew (True, True, True, True) 24 (0, 0) ''a'' dummy_region None 0,
     OpNew (True, True, True, True) 24 (0, 0) ''b'' dummy_region None 1, OpNext, OpKill, OpHome, OpDn, OpGoto, OpKill]"


text \<open>C35: \<open>next-buffer\<close> visits every buffer: from the buffer at position \<open>i\<close> of the list, \<open>k\<close> presses lead
  to the one at position \<open>i + k\<close>, counted around, and leave the list as it is; after as many presses as
  there are buffers the first one is current again.\<close>

theorem buffernext_cycles:
  assumes "tui_wf t" "g_buffer t = Some (g_list t ! i)" "i < length (g_list t)"
  shows "\<exists>t'. next_times k t = Some t' \<and> g_list t' = g_list t \<and>
    g_buffer t' = Some (g_list t ! ((i + k) mod length (g_list t)))"
  using assms
proof (induction k arbitrary: t i)
  case (Suc k)
  obtain t1 where t1: "buffernext t = Some t1" "tui_wf t1" "g_list t1 = g_list t"
      "g_buffer t1 = Some (g_list t ! (Suc i mod length (g_list t)))"
    using buffernext_wf [OF Suc.prems] by blast
  have "Suc i mod length (g_list t) < length (g_list t)" using Suc.prems(3) by (intro mod_less_divisor) auto
  then show ?case
    using Suc.IH [OF t1(2), of "Suc i mod length (g_list t)"] t1 by (simp add: mod_add_left_eq)
qed simp

theorem buffernext_cycles_witness:
  "\<exists>t'. next_times 5 (bufferlist_start (True, True) tui_empty) = Some t' \<and> g_list t' = [0] \<and> g_buffer t' = Some 0"
proof -
  have w: "tui_wf (bufferlist_start (True, True) tui_empty)"
    by (rule bufferlist_start_wf [OF tui_empty_boot]) simp
  have l: "g_list (bufferlist_start (True, True) tui_empty) = [0]" "g_buffer (bufferlist_start (True, True) tui_empty) = Some 0"
    by (simp_all add: bufferlist_start_def buffernew_def bufferadd2list_def tui_empty_def g_headbuf_def)
  show ?thesis
    using buffernext_cycles [OF w, of 0 5] l by simp
qed

text \<open>Killing the buffer that was shown last, from the buffer list, leaves \<open>g_lastbuf\<close> pointing to
  freed memory: \<open>toggle-buffer\<close> then dereferences a freed buffer.\<close>

theorem kill_then_toggle_uses_freed:
  assumes "tui_wf t" "g_buffer t = g_headbuf t" "g_lastbuf t = Some x" "x \<in> set (tl (g_list t))"
    "g_list t ! nat (g_cpos t) = x" "g_heap t x = Some b" "b_priv b = Some br" "0 \<le> vme_addr_int (br_region br)"
  shows "\<exists>t'. inpkill t = Some t' \<and> g_heap t' x = None \<and> g_lastbuf t' = Some x \<and> bufferback t' = None"
proof -
  have ok: "list_ok (g_heap t) (g_list t)" and c: "0 \<le> g_cpos t" "g_cpos t < int (length (g_list t))"
    using assms(1) by (auto simp: tui_wf_def)
  have bm: "b_mode b = BRMODE" using ok assms(4,6) by (force simp: list_ok_def)
  obtain h hb where h: "g_headbuf t = Some h" "g_heap t h = Some hb" "b_mode hb = BUMODE" "x \<noteq> h"
    using ok assms(4) by (cases "g_list t") (auto simp: list_ok_def g_headbuf_def)
  have "inpkill t = brkill x t"
    using h bm assms(2,5,6) pos2buf_in [OF c] by (simp add: inpkill_def m_kill_def bukill_def)
  moreover obtain t' where "brkill x t = Some t'" "g_buffer t \<noteq> Some x \<longrightarrow> g_lastbuf t' = g_lastbuf t" "g_heap t' x = None"
    using brkill_wf [OF assms(1,4)] assms(6,7,8) by blast
  ultimately show ?thesis
    using assms(2,3) h by (auto simp: bufferback_def buffergoto_def)
qed

definition card_demo :: tbuffer where
  "card_demo = \<lparr>b_name = ''card'', b_mode = BRMODE, b_rnms = None,
     b_priv = Some ((bb_br dummy_buf)\<lparr>br_strbar := Some ''card''\<rparr>)\<rparr>"

definition tui_demo :: tui where
  "tui_demo = \<lparr>g_heap = [0 \<mapsto> \<lparr>b_name = ''Buffer list'', b_mode = BUMODE, b_rnms = None, b_priv = None\<rparr>, 1 \<mapsto> card_demo],
     g_list = [0, 1], g_buffer = Some 0, g_lastbuf = Some 1, g_cpos = 1, g_fresh = 2, g_to = -1, g_writes = []\<rparr>"

theorem kill_then_toggle_uses_freed_witness:
  "\<exists>t'. inpkill tui_demo = Some t' \<and> g_heap t' 1 = None \<and> g_lastbuf t' = Some 1 \<and> bufferback t' = None"
proof (rule kill_then_toggle_uses_freed)
  show "tui_wf tui_demo"
    by (auto simp: tui_wf_def list_ok_def tui_demo_def card_demo_def less_Suc_eq)
  show "b_priv card_demo = Some ((bb_br dummy_buf)\<lparr>br_strbar := Some ''card''\<rparr>)"
    by (simp add: card_demo_def)
  show "0 \<le> vme_addr_int (br_region ((bb_br dummy_buf)\<lparr>br_strbar := Some ''card''\<rparr>))"
    by (simp add: dummy_buf_def dummy_region_def vme_addr_int_def s32_def)
qed (simp_all add: tui_demo_def g_headbuf_def)

end
