(* ===== verification/Tui_Input.thy ===== *)
theory Tui_Input
  imports Tui_Buffer_Props
begin

text \<open>
  Keys, commands and command files (\<open>v120_tui/input.c\<close>, \<open>add_dummy\<close>, \<open>load_file\<close>, \<open>add_vme\<close> and the
  key loop of \<open>main.c\<close>). The answers the user gives to the prompts of a key press are part of the state,
  the file system and what the V120 library maps are parameters. A call returns, dereferences or frees
  what it must not (\<open>Crash\<close>), ends the program, or has not ended when the fuel is used up (\<open>NoEnd\<close>).
\<close>

section \<open>State\<close>

datatype 'a res = Ret 'a | Crash | Quit | NoEnd

primrec rbind :: "'a res \<Rightarrow> ('a \<Rightarrow> 'b res) \<Rightarrow> 'b res" where
  "rbind (Ret x) f = f x"
| "rbind Crash f = Crash"
| "rbind Quit f = Quit"
| "rbind NoEnd f = NoEnd"

lemma rbind_eq_Ret: "rbind m f = Ret y \<longleftrightarrow> (\<exists>x. m = Ret x \<and> f x = Ret y)"
  by (cases m) auto

text \<open>\<open>g_instream\<close> is \<open>None\<close> for the keyboard and else one of the opened files.\<close>

record prog =
  p_tui :: tui
  g_instream :: "nat option"
  p_files :: "nat \<Rightarrow> string"
  p_eof :: "nat \<Rightarrow> bool"
  p_nfiles :: nat
  p_tok :: token_stack
  p_gets :: "string option list"
  p_vals :: "int option list"

record inp_env =
  ie_rows :: int
  ie_paths :: path_env
  ie_fs :: "string \<Rightarrow> string option"
  ie_rnmparse :: "string \<Rightarrow> rnm option"
  ie_crate :: "int \<Rightarrow> bool"
  ie_map :: "int \<Rightarrow> int \<Rightarrow> int \<Rightarrow> vme_region option"
  ie_mem :: "bool \<times> bool \<times> bool \<times> bool"
  ie_junk :: "int \<times> int"

type_synonym cmd = "nat \<Rightarrow> prog \<Rightarrow> prog res"

definition iskeyboard :: "prog \<Rightarrow> bool" where
  "iskeyboard p \<longleftrightarrow> g_instream p = None"

text \<open>The prompts \<open>mbgets\<close> and \<open>mbgetval\<close>, and the next token.\<close>

definition ask_str :: "prog \<Rightarrow> string option \<times> prog" where
  "ask_str p = (case p_gets p of [] \<Rightarrow> (None, p) | a # as \<Rightarrow> (a, p\<lparr>p_gets := as\<rparr>))"

definition ask_val :: "prog \<Rightarrow> int option \<times> prog" where
  "ask_val p = (case p_vals p of [] \<Rightarrow> (None, p) | a # as \<Rightarrow> (a, p\<lparr>p_vals := as\<rparr>))"

definition next_token :: "prog \<Rightarrow> string option \<times> prog" where
  "next_token p = (case token_next (ptok (p_tok p)) of (s, tb) \<Rightarrow> (s, p\<lparr>p_tok := set_ptok tb (p_tok p)\<rparr>))"

definition lift_tui :: "(tui \<Rightarrow> tui option) \<Rightarrow> prog \<Rightarrow> prog res" where
  "lift_tui f p = (case f (p_tui p) of None \<Rightarrow> Crash | Some t \<Rightarrow> Ret (p\<lparr>p_tui := t\<rparr>))"

text \<open>\<open>pbuf->b_mode->m_setto(pbuf)\<close>.\<close>

definition setto :: "nat \<Rightarrow> prog \<Rightarrow> prog res" where
  "setto b p = lift_tui (\<lambda>t. map_option (\<lambda>x. m_setto x t) (g_heap t b)) p"

section \<open>Lookup\<close>

text \<open>The first entry of the table that matches is called.\<close>

fun keylookupbytable :: "(int \<times> cmd) list \<Rightarrow> int \<Rightarrow> cmd option" where
  "keylookupbytable [] c = None"
| "keylookupbytable ((k, fn) # lut) c = (if k = c then Some fn else keylookupbytable lut c)"

fun stringlookupbytable :: "(string \<times> cmd) list \<Rightarrow> string \<Rightarrow> cmd option" where
  "stringlookupbytable [] s = None"
| "stringlookupbytable ((n, fn) # lut) s = (if n = s then Some fn else stringlookupbytable lut s)"

section \<open>Commands of the browser and of the buffer list\<close>

definition run_br :: "inp_env \<Rightarrow> br_cmd \<Rightarrow> cmd" where
  "run_br e c b p =
     (let t = p_tui p;
          be = \<lparr>be_rows = ie_rows e, be_keyboard = iskeyboard p, be_gets = fst (ask_str p), be_val = fst (ask_val p),
                be_tokens = next_n NARGS (ptok (p_tok p)), be_rnmparse = ie_rnmparse e, be_mem = fst (snd (ie_mem e))\<rparr>
      in case g_heap t b of
           None \<Rightarrow> Crash
         | Some x \<Rightarrow>
             (case b_priv x of
                None \<Rightarrow> Crash
              | Some br \<Rightarrow>
                  (case c be \<lparr>bb_rnms = b_rnms x, bb_br = br, bb_writes = g_writes t, bb_to = g_to t\<rparr> of
                     None \<Rightarrow> Crash
                   | Some bb \<Rightarrow>
                       Ret (p\<lparr>p_tui := t\<lparr>g_heap := (g_heap t)(b \<mapsto> x\<lparr>b_rnms := bb_rnms bb, b_priv := Some (bb_br bb)\<rparr>),
                                          g_writes := bb_writes bb, g_to := bb_to bb\<rparr>\<rparr>))))"

definition b_slu :: "inp_env \<Rightarrow> tui_mode \<Rightarrow> (string \<times> cmd) list" where
  "b_slu e m = (case m of BRMODE \<Rightarrow> map (\<lambda>(n, c). (n, run_br e c)) brslu | BUMODE \<Rightarrow> [])"

definition b_klu :: "inp_env \<Rightarrow> tui_mode \<Rightarrow> (int \<times> cmd) list" where
  "b_klu e m =
     (case m of
        BRMODE \<Rightarrow> map (\<lambda>(k, c). (k, run_br e c)) brklu
      | BUMODE \<Rightarrow> [(10, \<lambda>b. lift_tui bugoto)])"

text \<open>A cursor method of the current buffer: \<open>f\<close> in a browser, \<open>g\<close> in the buffer list.\<close>

definition curs :: "inp_env \<Rightarrow> (int \<Rightarrow> browser \<Rightarrow> browser) \<Rightarrow> (tui \<Rightarrow> tui option) \<Rightarrow> prog \<Rightarrow> prog res" where
  "curs e f g p =
     (case Option.bind (g_buffer (p_tui p)) (g_heap (p_tui p)) of
        None \<Rightarrow> Crash
      | Some x \<Rightarrow>
          (case b_mode x of
             BRMODE \<Rightarrow> run_br e (br_move f) (the (g_buffer (p_tui p))) p
           | BUMODE \<Rightarrow> lift_tui g p))"

definition inpup :: "inp_env \<Rightarrow> cmd" where "inpup e b = curs e brup (\<lambda>t. Some (buup t))"
definition inpdn :: "inp_env \<Rightarrow> cmd" where "inpdn e b = curs e brdn budn"
definition inpleft :: "inp_env \<Rightarrow> cmd" where "inpleft e b = curs e brleft Some"
definition inpright :: "inp_env \<Rightarrow> cmd" where "inpright e b = curs e brright Some"
definition inppgup :: "inp_env \<Rightarrow> cmd" where "inppgup e b = curs e brpgup (\<lambda>t. Some (bupgup (ie_rows e) t))"
definition inppgdn :: "inp_env \<Rightarrow> cmd" where "inppgdn e b = curs e brpgdn (bupgdn (ie_rows e))"

definition inpnext :: cmd where "inpnext b = lift_tui buffernext"
definition inptoggle :: cmd where "inptoggle b = lift_tui bufferback"
definition inphome :: cmd where "inphome b = lift_tui (\<lambda>t. buffergoto (g_headbuf t) t)"
definition inpkill_cmd :: cmd where "inpkill_cmd b = lift_tui inpkill"

definition inpquit :: cmd where
  "inpquit b p = (if iskeyboard p then Quit else Ret p)"

section \<open>New browsers\<close>

definition new_browser :: "inp_env \<Rightarrow> string \<Rightarrow> vme_region \<Rightarrow> rnm option \<Rightarrow> int \<Rightarrow> prog \<Rightarrow> prog res" where
  "new_browser e name region rnm crateid p =
     (case browsernew (ie_mem e) (ie_rows e) (ie_junk e) name region rnm crateid (p_tui p) of
        (None, t) \<Rightarrow> Ret (p\<lparr>p_tui := t\<rparr>)
      | (Some b, t) \<Rightarrow> Ret (p\<lparr>p_tui := buffershuffle t\<rparr>))"

definition add_dummy :: "inp_env \<Rightarrow> nat option \<Rightarrow> cmd" where
  "add_dummy e base b p =
     (if base = None then Ret p
      else new_browser e ''dummy VME''
             \<lparr>vr_base = base, vr_start_page = 0, vr_end_page = 0, vr_vme_addr = 0, vr_len = 32768, vr_config = 0,
              vr_tag = None\<rparr> None (-1) p)"

text \<open>What \<open>v120_add_vme_region\<close> and \<open>v120_allocate_vme\<close> make of the region is \<open>ie_map\<close>.\<close>

definition add_vme :: "inp_env \<Rightarrow> int \<Rightarrow> int \<Rightarrow> int \<Rightarrow> string option \<Rightarrow> prog \<Rightarrow> prog res" where
  "add_vme e crateid vmeaddr vmelen rnmfile p =
     (if \<not> ie_crate e crateid then Ret p
      else case ie_map e crateid vmeaddr vmelen of
        None \<Rightarrow> Ret p
      | Some region \<Rightarrow> new_browser e ''loaded VME'' region (Option.bind rnmfile (ie_rnmparse e)) 1 p)"

definition add_vme_checked :: "inp_env \<Rightarrow> int \<Rightarrow> int \<Rightarrow> string option \<Rightarrow> prog \<Rightarrow> prog res" where
  "add_vme_checked e crateid vmeaddr rnmfile p =
     (if 15 < crateid \<or> crateid < 0 then Ret p else add_vme e crateid vmeaddr 65536 rnmfile p)"

definition inpaddvme :: "inp_env \<Rightarrow> cmd" where
  "inpaddvme e b p =
     (if iskeyboard p then
        (case ask_val p of
           (None, p) \<Rightarrow> Ret p
         | (Some crateid, p) \<Rightarrow>
             (case ask_val p of
                (None, p) \<Rightarrow> Ret p
              | (Some vmeaddr, p) \<Rightarrow>
                  (case ask_str p of
                     (None, p) \<Rightarrow> Ret p
                   | (Some s, p) \<Rightarrow> add_vme_checked e crateid vmeaddr (if s = '''' then None else Some s) p)))
      else
        (case next_token p of
           (None, p) \<Rightarrow> Ret p
         | (Some s, p) \<Rightarrow>
             (case next_token p of
                (None, p) \<Rightarrow> Ret p
              | (Some a, p) \<Rightarrow>
                  (case next_token p of
                     (rnmfile, p) \<Rightarrow> add_vme_checked e (int_of_strtol s) (int_of_strtoul a) rnmfile p))))"

section \<open>Command files\<close>

text \<open>Whether \<open>fgets\<close> ran into the end of the file during \<open>token_start\<close>.\<close>

function token_eof :: "string \<Rightarrow> bool" where
  "token_eof inp =
     (if inp = [] then True
      else (case fgets_take (LINE_MAX - 1) inp of (l, rest) \<Rightarrow>
        case token_scan NARGS (line_buf l) 0 [] of
          None \<Rightarrow> False
        | Some (line, argv) \<Rightarrow>
            if argv = [] then token_eof rest else last l \<noteq> LF \<and> length l < LINE_MAX - 1))"
  by pat_completeness auto
termination
  by (relation "measure length") (auto dest: fgets_take_rest)

declare token_eof.simps [simp del]

definition start_tokens :: "prog \<Rightarrow> prog res" where
  "start_tokens p =
     (case g_instream p of
        None \<Rightarrow> Ret p
      | Some fp \<Rightarrow>
          (case token_start False (ptok (p_tok p)) (p_files p fp) of
             None \<Rightarrow> Crash
           | Some (tb, rest) \<Rightarrow>
               Ret (p\<lparr>p_tok := set_ptok tb (p_tok p), p_files := (p_files p)(fp := rest),
                      p_eof := (p_eof p)(fp := token_eof (p_files p fp))\<rparr>)))"

definition open_file :: "string \<Rightarrow> prog \<Rightarrow> prog" where
  "open_file content p =
     p\<lparr>g_instream := Some (p_nfiles p), p_files := (p_files p)(p_nfiles p := content),
       p_eof := (p_eof p)(p_nfiles p := False), p_nfiles := p_nfiles p + 1\<rparr>"

definition inpslu :: "inp_env \<Rightarrow> nat option \<Rightarrow> cmd \<Rightarrow> (string \<times> cmd) list" where
  "inpslu e base inpfileload =
     [(''home'', inphome), (''quit'', inpquit), (''q'', inpquit), (''Q'', inpquit), (''next-buffer'', inpnext),
      (''toggle-buffer'', inptoggle), (''add-vme'', inpaddvme e), (''add-dummy'', add_dummy e base), (''kill'', inpkill_cmd),
      (''load-file'', inpfileload)]"

text \<open>
  The command word, from the prompt or the line; a table of the program comes before the one of the
  buffer. \<open>pbuf\<close> is the buffer that was current when the key was pressed or the file was loaded.
\<close>

definition inpcommand_with :: "inp_env \<Rightarrow> nat option \<Rightarrow> cmd \<Rightarrow> cmd" where
  "inpcommand_with e base inpfileload pbuf p =
     (case (if iskeyboard p then ask_str (p\<lparr>p_tui := (p_tui p)\<lparr>g_to := -1\<rparr>\<rparr>) else next_token p) of
        (None, p) \<Rightarrow> setto pbuf p
      | (Some s, p) \<Rightarrow>
          (case Option.bind (g_buffer (p_tui p)) (g_heap (p_tui p)) of
             None \<Rightarrow> Crash
           | Some x \<Rightarrow>
               (let b = the (g_buffer (p_tui p)) in
                rbind (case stringlookupbytable (inpslu e base inpfileload) s of
                         Some fn \<Rightarrow> fn b p
                       | None \<Rightarrow>
                           (case stringlookupbytable (b_slu e (b_mode x)) s of Some fn \<Rightarrow> fn b p | None \<Rightarrow> Ret p))
                  (setto pbuf))))"

text \<open>
  \<open>load_file\<close>, the loop over the lines, and \<open>inpfileload\<close>, which frees the file name: one that came
  from a command file points into the token buffer. The fuel bounds the nesting and the lines.
\<close>

fun load_file :: "nat \<Rightarrow> inp_env \<Rightarrow> nat option \<Rightarrow> string \<Rightarrow> nat \<Rightarrow> prog \<Rightarrow> (int \<times> prog) res"
  and load_loop :: "nat \<Rightarrow> inp_env \<Rightarrow> nat option \<Rightarrow> nat \<Rightarrow> nat \<Rightarrow> prog \<Rightarrow> prog res"
  and inpfileload :: "nat \<Rightarrow> inp_env \<Rightarrow> nat option \<Rightarrow> cmd" where
  "load_file 0 e base fname pbuf p = NoEnd"
| "load_file (Suc n) e base fname pbuf p =
     (case Option.bind (getfullpath (ie_paths e) fname) (ie_fs e) of
        None \<Rightarrow> Ret (-1, p)
      | Some content \<Rightarrow>
          (let fpsave = g_instream p; fp = p_nfiles p; p = open_file content p in
           case tokenpush (p_tok p) of
             (res, tok) \<Rightarrow>
               if res \<noteq> 0 then Ret (-1, p)
               else rbind (load_loop n e base fp pbuf (p\<lparr>p_tok := tok\<rparr>))
                      (\<lambda>p. Ret (0, p\<lparr>p_tok := tokenpop (p_tok p), g_instream := fpsave\<rparr>))))"
| "load_loop 0 e base fp pbuf p = NoEnd"
| "load_loop (Suc n) e base fp pbuf p =
     (if p_eof p fp then Ret p
      else rbind (start_tokens p)
             (\<lambda>p. rbind (inpcommand_with e base (inpfileload n e base) pbuf p) (load_loop n e base fp pbuf)))"
| "inpfileload 0 e base b p = NoEnd"
| "inpfileload (Suc n) e base b p =
     (case (if iskeyboard p then ask_str p else next_token p) of
        (None, p) \<Rightarrow> Ret p
      | (Some fname, p) \<Rightarrow>
          (let heap_name = iskeyboard p in
           rbind (load_file n e base fname b p) (\<lambda>(res, p). if heap_name then Ret p else Crash)))"

definition inpcommand :: "nat \<Rightarrow> inp_env \<Rightarrow> nat option \<Rightarrow> cmd" where
  "inpcommand n e base = inpcommand_with e base (inpfileload n e base)"

section \<open>Keys\<close>

definition inpklu :: "nat \<Rightarrow> inp_env \<Rightarrow> nat option \<Rightarrow> (int \<times> cmd) list" where
  "inpklu n e base =
     [(key_of CHR ''j'', inpdn e), (key_of CHR ''J'', inpdn e), (KEY_DOWN, inpdn e),
      (key_of CHR ''k'', inpup e), (key_of CHR ''K'', inpup e), (KEY_UP, inpup e),
      (key_of CHR ''l'', inpright e), (key_of CHR ''L'', inpright e), (KEY_RIGHT, inpright e),
      (key_of CHR ''h'', inpleft e), (key_of CHR ''H'', inpleft e), (KEY_LEFT, inpleft e),
      (TO_CTRL (key_of CHR ''B''), inppgup e), (KEY_PPAGE, inppgup e),
      (TO_CTRL (key_of CHR ''F''), inppgdn e), (KEY_NPAGE, inppgdn e),
      (key_of CHR '':'', inpcommand n e base), (key_of CHR ''0'', inphome),
      (key_of CHR ''N'', inpnext), (key_of CHR ''n'', inpnext),
      (key_of CHR ''b'', inptoggle), (key_of CHR ''B'', inptoggle)]"

definition processinput :: "nat \<Rightarrow> inp_env \<Rightarrow> nat option \<Rightarrow> int \<Rightarrow> prog \<Rightarrow> prog res" where
  "processinput n e base c p =
     (if c = -1 then Ret p
      else case Option.bind (g_buffer (p_tui p)) (g_heap (p_tui p)) of
        None \<Rightarrow> Crash
      | Some x \<Rightarrow>
          (let b = the (g_buffer (p_tui p)) in
           case keylookupbytable (inpklu n e base) c of
             Some fn \<Rightarrow> fn b p
           | None \<Rightarrow> (case keylookupbytable (b_klu e (b_mode x)) c of Some fn \<Rightarrow> fn b p | None \<Rightarrow> Ret p)))"

text \<open>The page that \<open>tty_main\<close> draws before it waits for a key: title and contents of the current buffer.\<close>

definition show_page :: "prog \<Rightarrow> prog res" where
  "show_page p =
     (case Option.bind (Option.bind (g_buffer (p_tui p)) (g_heap (p_tui p))) m_title of None \<Rightarrow> Crash | Some s \<Rightarrow> Ret p)"

text \<open>The loop of \<open>tty_main\<close> over key presses with the answers given to their prompts.\<close>

fun tty_main :: "nat \<Rightarrow> inp_env \<Rightarrow> nat option \<Rightarrow> (int \<times> string option list \<times> int option list) list \<Rightarrow> prog \<Rightarrow> prog res" where
  "tty_main n e base [] p = Ret p"
| "tty_main n e base ((c, gets, vals) # keys) p =
     rbind (show_page p) (\<lambda>p.
       rbind (processinput n e base c (p\<lparr>p_gets := gets, p_vals := vals\<rparr>)) (tty_main n e base keys))"

end
