(* ===== verification/Tui_Input_Props.thy ===== *)
theory Tui_Input_Props
  imports Tui_Input
begin

text \<open>
  Command files leave the input of the program as it was, and the \<open>kill\<close> command uses the buffer it
  has freed.
\<close>

section \<open>Command files\<close>

text \<open>
  What running a file leaves alone: the input stream, the level of the token stack, and the token
  buffers below the current one. A single command does not read on in the files either.
\<close>

definition same_level :: "prog \<Rightarrow> prog \<Rightarrow> bool" where
  "same_level p q \<longleftrightarrow>
     g_instream q = g_instream p \<and> ts_ptok (p_tok q) = ts_ptok (p_tok p) \<and>
     take (ts_ptok (p_tok p)) (ts_bufs (p_tok q)) = take (ts_ptok (p_tok p)) (ts_bufs (p_tok p)) \<and>
     length (ts_bufs (p_tok q)) = length (ts_bufs (p_tok p))"

definition same_input :: "prog \<Rightarrow> prog \<Rightarrow> bool" where
  "same_input p q \<longleftrightarrow> same_level p q \<and> p_files q = p_files p \<and> p_eof q = p_eof p"

lemma same_refl [simp]: "same_level p p" "same_input p p"
  by (simp_all add: same_level_def same_input_def)

lemma same_level_trans: "same_level p q \<Longrightarrow> same_level q r \<Longrightarrow> same_level p r"
  by (simp add: same_level_def)

lemma same_input_trans: "same_input p q \<Longrightarrow> same_input q r \<Longrightarrow> same_input p r"
  by (auto simp: same_input_def intro: same_level_trans)

lemma same_input_level: "same_input p q \<Longrightarrow> same_level p q"
  by (simp add: same_input_def)

lemma same_input_upd [simp]:
  "same_input p (q\<lparr>p_tui := t\<rparr>) = same_input p q"
  "same_input p (q\<lparr>p_gets := gs\<rparr>) = same_input p q"
  "same_input p (q\<lparr>p_vals := vs\<rparr>) = same_input p q"
  "same_input (p\<lparr>p_tui := t\<rparr>) q = same_input p q"
  by (simp_all add: same_input_def same_level_def)

lemma same_input_set_ptok [simp]:
  "same_input p (q\<lparr>p_tok := set_ptok tb (p_tok q)\<rparr>) \<longleftrightarrow> same_input p q"
  by (auto simp: same_input_def same_level_def set_ptok_def)

lemma same_input_ask:
  "ask_str p = (r, q) \<Longrightarrow> same_input p q" "ask_val p = (v, q) \<Longrightarrow> same_input p q" "next_token p = (r, q) \<Longrightarrow> same_input p q"
  by (auto simp: ask_str_def ask_val_def next_token_def split: list.splits prod.splits)

lemma iskeyboard_same: "same_input p q \<Longrightarrow> iskeyboard q = iskeyboard p"
  by (simp add: same_input_def same_level_def iskeyboard_def)

definition keeps :: "(prog \<Rightarrow> prog \<Rightarrow> bool) \<Rightarrow> prog \<Rightarrow> prog res \<Rightarrow> bool" where
  "keeps R p r \<longleftrightarrow> (\<forall>q. r = Ret q \<longrightarrow> R p q)"

abbreviation keeps_input :: "prog \<Rightarrow> prog res \<Rightarrow> bool" where "keeps_input \<equiv> keeps same_input"
abbreviation keeps_level :: "prog \<Rightarrow> prog res \<Rightarrow> bool" where "keeps_level \<equiv> keeps same_level"

lemma keeps_simps [simp]: "keeps R p (Ret q) = R p q" "keeps R p Crash" "keeps R p Quit" "keeps R p NoEnd"
  by (simp_all add: keeps_def)

lemma keeps_bind:
  assumes "\<And>q s. R p q \<Longrightarrow> R q s \<Longrightarrow> R p s" "keeps R p r" "\<And>q. r = Ret q \<Longrightarrow> R p q \<Longrightarrow> keeps R q (f q)"
  shows "keeps R p (rbind r f)"
  using assms by (cases r) (auto simp: keeps_def)

lemma keeps_input_bind:
  "keeps_input p r \<Longrightarrow> (\<And>q. r = Ret q \<Longrightarrow> same_input p q \<Longrightarrow> keeps_input q (f q)) \<Longrightarrow> keeps_input p (rbind r f)"
  by (rule keeps_bind [OF same_input_trans])

lemma keeps_level_bind:
  "keeps_level p r \<Longrightarrow> (\<And>q. r = Ret q \<Longrightarrow> same_level p q \<Longrightarrow> keeps_level q (f q)) \<Longrightarrow> keeps_level p (rbind r f)"
  by (rule keeps_bind [OF same_level_trans])

lemma keeps_input_from: "same_input p q \<Longrightarrow> keeps_input q r \<Longrightarrow> keeps_input p r"
  by (auto simp: keeps_def intro: same_input_trans)

lemma keeps_input_level: "keeps_input p r \<Longrightarrow> keeps_level p r"
  by (auto simp: keeps_def intro: same_input_level)

lemma keeps_lift_tui [simp]: "keeps_input p (lift_tui f p)"
  by (simp add: lift_tui_def split: option.split)

lemma keeps_setto [simp]: "keeps_input p (setto b p)"
  by (simp add: setto_def)

lemma keeps_run_br [simp]: "keeps_input p (run_br e c b p)"
  by (simp add: run_br_def Let_def split: option.split)

lemma keeps_curs [simp]: "keeps_input p (curs e f g p)"
  by (simp add: curs_def split: option.split tui_mode.split)

lemma keeps_new_browser [simp]: "keeps_input p (new_browser e name region rnm crateid p)"
  by (simp add: new_browser_def split: prod.split option.split)

lemma keeps_add_vme [simp]: "keeps_input p (add_vme_checked e crateid vmeaddr rnmfile p)"
  by (simp add: add_vme_checked_def add_vme_def split: option.split)

lemma keeps_inpaddvme [simp]: "keeps_input p (inpaddvme e b p)"
proof (cases "iskeyboard p")
  case True
  obtain v1 p1 where 1: "ask_val p = (v1, p1)" by fastforce
  obtain v2 p2 where 2: "ask_val p1 = (v2, p2)" by fastforce
  obtain s p3 where 3: "ask_str p2 = (s, p3)" by fastforce
  have "same_input p p1" "same_input p p2" "same_input p p3"
    using same_input_ask(2) [OF 1] same_input_ask(2) [OF 2] same_input_ask(1) [OF 3] same_input_trans by blast+
  then show ?thesis
    using True 1 2 3 by (auto simp: inpaddvme_def intro: keeps_input_from split: option.split)
next
  case False
  obtain v1 p1 where 1: "next_token p = (v1, p1)" by fastforce
  obtain v2 p2 where 2: "next_token p1 = (v2, p2)" by fastforce
  obtain s p3 where 3: "next_token p2 = (s, p3)" by fastforce
  have "same_input p p1" "same_input p p2" "same_input p p3"
    using same_input_ask(3) [OF 1] same_input_ask(3) [OF 2] same_input_ask(3) [OF 3] same_input_trans by blast+
  then show ?thesis
    using False 1 2 3 by (auto simp: inpaddvme_def intro: keeps_input_from split: option.split)
qed

lemma stringlookup_in: "stringlookupbytable lut s = Some fn \<Longrightarrow> fn \<in> snd ` set lut"
  by (induction lut s rule: stringlookupbytable.induct) (auto split: if_splits)

lemma keeps_inpslu:
  assumes "\<And>b. keeps_input p (load b p)" "fn \<in> snd ` set (inpslu e base load)"
  shows "keeps_input p (fn b p)"
  using assms
  by (auto simp: inpslu_def inphome_def inpquit_def inpnext_def inptoggle_def add_dummy_def inpkill_cmd_def)

text \<open>The cases of \<open>inpcommand_with\<close>.\<close>

definition ask_command :: "prog \<Rightarrow> string option \<times> prog" where
  "ask_command p = (if iskeyboard p then ask_str (p\<lparr>p_tui := (p_tui p)\<lparr>g_to := -1\<rparr>\<rparr>) else next_token p)"

lemma inpcommand_with_cases:
  assumes "ask_command p = (s, q)"
  shows "s = None \<Longrightarrow> inpcommand_with e base load pbuf p = setto pbuf q"
    and "s = Some w \<Longrightarrow> Option.bind (g_buffer (p_tui q)) (g_heap (p_tui q)) = None \<Longrightarrow>
      inpcommand_with e base load pbuf p = Crash"
    and "s = Some w \<Longrightarrow> Option.bind (g_buffer (p_tui q)) (g_heap (p_tui q)) = Some x \<Longrightarrow>
      inpcommand_with e base load pbuf p =
        rbind (case stringlookupbytable (inpslu e base load) w of
                 Some fn \<Rightarrow> fn (the (g_buffer (p_tui q))) q
               | None \<Rightarrow> (case stringlookupbytable (b_slu e (b_mode x)) w of
                   Some fn \<Rightarrow> fn (the (g_buffer (p_tui q))) q | None \<Rightarrow> Ret q))
          (setto pbuf)"
  using assms unfolding inpcommand_with_def ask_command_def by (simp_all add: Let_def del: bind_eq_None_conv)

lemma ask_command_cases:
  obtains (none) s q where "ask_command p = (s, q)" "s = None"
  | (crash) w q where "ask_command p = (Some w, q)" "Option.bind (g_buffer (p_tui q)) (g_heap (p_tui q)) = None"
  | (fn) w q x where "ask_command p = (Some w, q)" "Option.bind (g_buffer (p_tui q)) (g_heap (p_tui q)) = Some x"
  by (cases "ask_command p") (metis not_Some_eq)

lemma same_input_ask_command: "ask_command p = (s, q) \<Longrightarrow> same_input p q"
  using same_input_ask by (auto simp: ask_command_def split: if_splits) (metis same_input_upd(4))

lemma keeps_inpcommand_with:
  assumes "\<And>b q. same_input p q \<Longrightarrow> keeps_input q (load b q)"
  shows "keeps_input p (inpcommand_with e base load pbuf p)"
proof (cases p rule: ask_command_cases)
  case (none s q)
  show ?thesis
    unfolding inpcommand_with_cases(1) [OF none] by (rule keeps_input_from [OF same_input_ask_command [OF none(1)] keeps_setto])
next
  case (fn w q x)
  have same: "same_input p q" by (rule same_input_ask_command [OF fn(1)])
  let ?b = "the (g_buffer (p_tui q))"
  have "keeps_input q (case stringlookupbytable (inpslu e base load) w of
           Some fn \<Rightarrow> fn ?b q
         | None \<Rightarrow> (case stringlookupbytable (b_slu e (b_mode x)) w of Some fn \<Rightarrow> fn ?b q | None \<Rightarrow> Ret q))"
  proof (cases "stringlookupbytable (inpslu e base load) w")
    case None
    have "fn \<in> snd ` set (b_slu e (b_mode x)) \<Longrightarrow> keeps_input q (fn ?b q)" for fn
      by (auto simp: b_slu_def split: tui_mode.splits)
    then show ?thesis
      using None stringlookup_in by (cases "stringlookupbytable (b_slu e (b_mode x)) w") fastforce+
  next
    case (Some fn)
    have "keeps_input q (fn ?b q)"
      by (rule keeps_inpslu [where load = load]) (use assms [OF same] stringlookup_in [OF Some] in auto)
    then show ?thesis using Some by simp
  qed
  then show ?thesis
    unfolding inpcommand_with_cases(3) [OF fn(1) refl fn(2)]
    by (intro keeps_input_from [OF same] keeps_input_bind) simp_all
qed (simp add: inpcommand_with_cases(2))

text \<open>
  Inside a command file the loop keeps the input: a nested \<open>load-file\<close> never returns, because the
  name it frees is not from the heap.
\<close>

lemma keeps_inpfileload_script:
  assumes "g_instream p \<noteq> None"
  shows "keeps_input p (inpfileload n e base b p)"
proof (cases n)
  case (Suc m)
  obtain s q where ask: "next_token p = (s, q)" by fastforce
  have kb: "\<not> iskeyboard p" using assms by (simp add: iskeyboard_def)
  show ?thesis
  proof (cases s)
    case None
    then show ?thesis using Suc ask kb same_input_ask(3) [OF ask] by simp
  next
    case (Some f)
    then show ?thesis
      using Suc ask kb iskeyboard_same [OF same_input_ask(3) [OF ask]]
      by (cases "load_file m e base f b q") (auto simp: Let_def)
  qed
qed simp

lemma keeps_start_tokens: "keeps_level p (start_tokens p)"
  by (auto simp: start_tokens_def same_level_def set_ptok_def split: option.split)

lemma keeps_script_command:
  assumes "g_instream q \<noteq> None"
  shows "keeps_input q (inpcommand_with e base (inpfileload n e base) pbuf q)"
  using assms by (intro keeps_inpcommand_with keeps_inpfileload_script) (simp add: same_input_def same_level_def)

lemma keeps_load_loop: "g_instream p \<noteq> None \<Longrightarrow> keeps_level p (load_loop n e base fp pbuf p)"
proof (induction n arbitrary: p)
  case (Suc n)
  show ?case
  proof (cases "p_eof p fp")
    case False
    have "keeps_level p (rbind (start_tokens p)
        (\<lambda>p. rbind (inpcommand_with e base (inpfileload n e base) pbuf p) (load_loop n e base fp pbuf)))"
    proof (rule keeps_level_bind [OF keeps_start_tokens])
      fix q assume "same_level p q"
      then have q: "g_instream q \<noteq> None" using Suc.prems by (simp add: same_level_def)
      show "keeps_level q (rbind (inpcommand_with e base (inpfileload n e base) pbuf q) (load_loop n e base fp pbuf))"
      proof (rule keeps_level_bind [OF keeps_input_level [OF keeps_script_command [OF q]]])
        fix r assume "same_level q r"
        with q have "g_instream r \<noteq> None" by (simp add: same_level_def)
        then show "keeps_level r (load_loop n e base fp pbuf r)" by (rule Suc.IH)
      qed
    qed
    with False show ?thesis by simp
  qed simp
qed simp

section \<open>Command files end\<close>

text \<open>A call that has the same result, and it is not \<open>NoEnd\<close>, from some amount of fuel on.\<close>

definition settled :: "(nat \<Rightarrow> 'a res) \<Rightarrow> bool" where
  "settled f \<longleftrightarrow> (\<exists>N r. r \<noteq> NoEnd \<and> (\<forall>n \<ge> N. f n = r))"

lemma settled_const: "r \<noteq> NoEnd \<Longrightarrow> settled (\<lambda>n. r)"
  by (auto simp: settled_def)

lemma settled_Suc: "settled (\<lambda>n. f (Suc n)) \<Longrightarrow> settled f"
  by (auto simp: settled_def) (metis Suc_le_D Suc_le_mono)

lemma settled_bind:
  assumes "settled f" "\<And>n q. f n = Ret q \<Longrightarrow> settled (\<lambda>n. g n q)"
  shows "settled (\<lambda>n. rbind (f n) (g n))"
proof -
  obtain N r where r: "r \<noteq> NoEnd" "\<And>n. N \<le> n \<Longrightarrow> f n = r" using assms(1) by (auto simp: settled_def)
  show ?thesis
  proof (cases r)
    case (Ret q)
    obtain M s where "s \<noteq> NoEnd" "\<And>n. M \<le> n \<Longrightarrow> g n q = s"
      using assms(2) [of N q] r(2) [of N] Ret by (auto simp: settled_def)
    then show ?thesis using r(2) Ret unfolding settled_def by (intro exI [of _ "max M N"] exI [of _ s]) simp
  qed (use r in \<open>auto simp: settled_def intro!: exI [of _ N]\<close>)
qed

lemma ends_lift_tui [simp]: "lift_tui f p \<noteq> NoEnd"
  by (simp add: lift_tui_def split: option.split)

lemma ends_setto [simp]: "setto b p \<noteq> NoEnd"
  by (simp add: setto_def)

lemma ends_run_br [simp]: "run_br e c b p \<noteq> NoEnd"
  by (simp add: run_br_def Let_def split: option.split)

lemma ends_new_browser [simp]: "new_browser e name region rnm crateid p \<noteq> NoEnd"
  by (simp add: new_browser_def split: prod.split option.split)

lemma ends_add_vme [simp]: "add_vme_checked e crateid vmeaddr rnmfile p \<noteq> NoEnd"
  by (simp add: add_vme_checked_def add_vme_def split: option.split)

lemma ends_inpaddvme [simp]: "inpaddvme e b p \<noteq> NoEnd"
  by (simp add: inpaddvme_def split: prod.split option.split)

lemma ends_b_slu: "stringlookupbytable (b_slu e m) s = Some fn \<Longrightarrow> fn b p \<noteq> NoEnd"
  using stringlookup_in by (fastforce simp: b_slu_def split: tui_mode.splits)

text \<open>The table of the program with its only entry that depends on the files.\<close>

lemma inpslu_lookup:
  "stringlookupbytable (inpslu e base load) s =
     (if s = ''load-file'' then Some load else stringlookupbytable (inpslu e base (\<lambda>b. Ret)) s)"
  by (auto simp: inpslu_def)

lemma settled_inpslu:
  assumes "settled (\<lambda>n. load n b q)" "r \<noteq> NoEnd"
  shows "settled (\<lambda>n. case stringlookupbytable (inpslu e base (load n)) s of Some fn \<Rightarrow> fn b q | None \<Rightarrow> r)"
proof (cases "s = ''load-file''")
  case False
  have "fn b q \<noteq> NoEnd" if "stringlookupbytable (inpslu e base (\<lambda>b. Ret)) s = Some fn" for fn
    using stringlookup_in [OF that]
    by (auto simp: inpslu_def inphome_def inpquit_def inpnext_def inptoggle_def add_dummy_def inpkill_cmd_def
        split: if_splits)
  then show ?thesis
    using False assms(2) by (auto simp: inpslu_lookup [of e base "load n" for n] intro!: settled_const split: option.split)
qed (use assms(1) in \<open>simp add: inpslu_lookup [of e base "load n" for n]\<close>)

lemma settled_inpcommand_with:
  assumes "\<And>b q. same_input p q \<Longrightarrow> settled (\<lambda>n. load n b q)"
  shows "settled (\<lambda>n. inpcommand_with e base (load n) pbuf p)"
proof (cases p rule: ask_command_cases)
  case (fn w q x)
  let ?b = "the (g_buffer (p_tui q))"
  let ?other = "case stringlookupbytable (b_slu e (b_mode x)) w of Some fn \<Rightarrow> fn ?b q | None \<Rightarrow> Ret q"
  have "settled (\<lambda>n. case stringlookupbytable (inpslu e base (load n)) w of Some fn \<Rightarrow> fn ?b q | None \<Rightarrow> ?other)"
    using ends_b_slu by (intro settled_inpslu assms same_input_ask_command [OF fn(1)]) (auto split: option.split)
  then show ?thesis
    unfolding inpcommand_with_cases(3) [OF fn(1) refl fn(2)] by (rule settled_bind) (simp add: settled_const)
qed (simp_all add: inpcommand_with_cases(1,2) settled_const)

lemma settled_inpfileload:
  assumes "\<And>fname q. same_input p q \<Longrightarrow> settled (\<lambda>n. load_file n e base fname b q)"
  shows "settled (\<lambda>n. inpfileload n e base b p)"
proof (rule settled_Suc)
  obtain s q where ask: "(if iskeyboard p then ask_str p else next_token p) = (s, q)" by fastforce
  have same: "same_input p q" using ask same_input_ask by (cases "iskeyboard p") simp_all
  show "settled (\<lambda>n. inpfileload (Suc n) e base b p)"
  proof (cases s)
    case (Some f)
    have "settled (\<lambda>n. rbind (load_file n e base f b q) (\<lambda>(res, p'). if iskeyboard q then Ret p' else Crash))"
      by (rule settled_bind) (use assms same in \<open>auto intro: settled_const\<close>)
    then show ?thesis using ask Some by (simp add: Let_def)
  qed (use ask in \<open>simp add: settled_const\<close>)
qed

text \<open>One line of a file: at the end of the file the flag is set, otherwise the text gets shorter.\<close>

lemma token_read_shorter: "token_read inp = Some (tb, rest) \<Longrightarrow> inp \<noteq> [] \<Longrightarrow> length rest < length inp"
proof (induction inp arbitrary: tb rest rule: token_read.induct)
  case (1 inp)
  obtain l r where lr: "fgets_take (LINE_MAX - 1) inp = (l, r)" by fastforce
  then have shorter: "length r < length inp" using 1(3) fgets_take_rest [of l r inp] by simp
  obtain line argv where scan: "token_scan NARGS (line_buf l) 0 [] = Some (line, argv)"
    using 1(2,3) by (subst (asm) token_read.simps) (auto simp: lr [simplified] split: option.splits)
  show ?case
  proof (cases "argv = []")
    case True
    have rest: "token_read r = Some (tb, rest)"
      using 1(2,3) True by (subst (asm) token_read.simps) (simp add: lr [simplified] scan)
    then have "rest = []" if "r = []"
      using that by (simp add: token_read.simps)
    then show ?thesis
      using 1(1) [OF 1(3) lr [symmetric] scan refl True rest] shorter by (cases "r = []") (auto intro: less_trans)
  next
    case False
    then have "rest = r" using 1(2,3) by (subst (asm) token_read.simps) (simp add: lr [simplified] scan)
    then show ?thesis using shorter by simp
  qed
qed

definition unread :: "prog \<Rightarrow> nat \<Rightarrow> nat" where
  "unread p fp = length (p_files p fp) + (if p_eof p fp then 0 else 1)"

lemma start_tokens_unread:
  assumes "start_tokens p = Ret q" "g_instream p = Some fp" "\<not> p_eof p fp"
  shows "unread q fp < unread p fp"
proof (cases "p_files p fp = []")
  case True
  then show ?thesis
    using assms by (auto simp: start_tokens_def unread_def token_start_def token_read.simps token_eof.simps split: option.splits)
next
  case False
  obtain tb rest where "token_read (p_files p fp) = Some (tb, rest)" "p_files q fp = rest"
    using assms by (auto simp: start_tokens_def token_start_def split: option.splits)
  then show ?thesis using token_read_shorter False assms(3) by (fastforce simp: unread_def)
qed

lemma settled_load_loop:
  assumes "\<And>b fname q. ts_ptok (p_tok q) = k \<Longrightarrow> g_instream q \<noteq> None \<Longrightarrow> settled (\<lambda>n. load_file n e base fname b q)"
  shows "g_instream p = Some fp \<Longrightarrow> ts_ptok (p_tok p) = k \<Longrightarrow> settled (\<lambda>n. load_loop n e base fp pbuf p)"
proof (induction "unread p fp" arbitrary: p rule: less_induct)
  case less
  show ?case
  proof (rule settled_Suc, cases "p_eof p fp")
    case False
    let ?cmd = "\<lambda>n. inpcommand_with e base (inpfileload n e base) pbuf"
    have "settled (\<lambda>n. rbind (start_tokens p) (\<lambda>q. rbind (?cmd n q) (load_loop n e base fp pbuf)))"
    proof (rule settled_bind)
      show "settled (\<lambda>n. start_tokens p)"
        by (rule settled_const) (simp add: start_tokens_def split: option.split)
      fix q assume q: "start_tokens p = Ret q"
      then have "same_level p q" using keeps_start_tokens [of p] by simp
      then have at: "g_instream q = Some fp" "ts_ptok (p_tok q) = k" using less(2,3) by (auto simp: same_level_def)
      show "settled (\<lambda>n. rbind (?cmd n q) (load_loop n e base fp pbuf))"
      proof (rule settled_bind)
        show "settled (\<lambda>n. ?cmd n q)"
          using at assms by (intro settled_inpcommand_with settled_inpfileload)
            (simp_all add: iskeyboard_def same_input_def same_level_def)
        fix n r assume "?cmd n q = Ret r"
        then have "same_input q r"
          using keeps_script_command [of q e base n pbuf] at(1) by simp
        then have "unread r fp < unread p fp" "g_instream r = Some fp" "ts_ptok (p_tok r) = k"
          using start_tokens_unread [OF q less(2) False] at
          by (auto simp: same_input_def same_level_def unread_def)
        then show "settled (\<lambda>n. load_loop n e base fp pbuf r)" by (rule less(1))
      qed
    qed
    then show "settled (\<lambda>n. load_loop (Suc n) e base fp pbuf p)" using False by simp
  qed (simp add: settled_const)
qed

lemma settled_load_file: "settled (\<lambda>n. load_file n e base fname pbuf p)"
proof (induction "NTOKENS - ts_ptok (p_tok p)" arbitrary: p fname pbuf rule: less_induct)
  case less
  show ?case
  proof (rule settled_Suc, cases "Option.bind (getfullpath (ie_paths e) fname) (ie_fs e)")
    case (Some content)
    let ?q = "(open_file content p)\<lparr>p_tok := (p_tok p)\<lparr>ts_ptok := ts_ptok (p_tok p) + 1\<rparr>\<rparr>"
    show "settled (\<lambda>n. load_file (Suc n) e base fname pbuf p)"
    proof (cases "ts_ptok (p_tok p) < NTOKENS - 1")
      case True
      have "settled (\<lambda>n. load_loop n e base (p_nfiles p) pbuf ?q)"
        by (rule settled_load_loop [where k = "ts_ptok (p_tok p) + 1"])
          (use less True in \<open>auto simp: open_file_def\<close>)
      then have "settled (\<lambda>n. rbind (load_loop n e base (p_nfiles p) pbuf ?q)
          (\<lambda>q. Ret (0, q\<lparr>p_tok := tokenpop (p_tok q), g_instream := g_instream p\<rparr>)))"
        by (rule settled_bind) (simp add: settled_const)
      then show ?thesis using Some True by (simp add: open_file_def tokenpush_def Let_def)
    next
      case False
      then show ?thesis using Some by (simp add: open_file_def tokenpush_def Let_def settled_const)
    qed
  qed (simp add: settled_const)
qed

text \<open>More fuel does not change a result.\<close>

lemma rbind_more:
  "rbind m f \<noteq> NoEnd \<Longrightarrow> (m \<noteq> NoEnd \<Longrightarrow> m' = m) \<Longrightarrow> (\<And>x. f x \<noteq> NoEnd \<Longrightarrow> g x = f x) \<Longrightarrow> rbind m' g = rbind m f"
  by (cases m) auto

lemma inpcommand_with_more:
  assumes "\<And>b q. load b q \<noteq> NoEnd \<Longrightarrow> load' b q = load b q" "inpcommand_with e base load pbuf p \<noteq> NoEnd"
  shows "inpcommand_with e base load' pbuf p = inpcommand_with e base load pbuf p"
proof (cases p rule: ask_command_cases)
  case (fn w q x)
  show ?thesis
  proof (cases "w = ''load-file''")
    case True
    then show ?thesis
      using assms(1) [of "the (g_buffer (p_tui q))" q] assms(2)
      by (cases "load (the (g_buffer (p_tui q))) q") (simp_all add: inpcommand_with_cases(3) [OF fn(1) refl fn(2)]
          inpslu_lookup [of e base load'] inpslu_lookup [of e base load])
  next
    case False
    then show ?thesis
      by (simp add: inpcommand_with_cases(3) [OF fn(1) refl fn(2)] inpslu_lookup [of e base load'] inpslu_lookup [of e base load])
  qed
qed (simp_all add: inpcommand_with_cases(1,2))

declare load_file.simps(2) [simp del] load_loop.simps(2) [simp del] inpfileload.simps(2) [simp del]

lemma more_fuel:
  "(load_file n e base fname b p \<noteq> NoEnd \<longrightarrow> load_file (Suc n) e base fname b p = load_file n e base fname b p) \<and>
   (load_loop n e base fp b p \<noteq> NoEnd \<longrightarrow> load_loop (Suc n) e base fp b p = load_loop n e base fp b p) \<and>
   (inpfileload n e base b p \<noteq> NoEnd \<longrightarrow> inpfileload (Suc n) e base b p = inpfileload n e base b p)"
proof (induction n arbitrary: fname b p fp)
  case (Suc n)
  have "load_file (Suc (Suc n)) e base fname b p = load_file (Suc n) e base fname b p"
    if "load_file (Suc n) e base fname b p \<noteq> NoEnd"
  proof (cases "Option.bind (getfullpath (ie_paths e) fname) (ie_fs e)")
    case (Some content)
    obtain r tok where push: "tokenpush (p_tok (open_file content p)) = (r, tok)" by fastforce
    show ?thesis
    proof (cases "r = 0")
      case True
      then show ?thesis
        using that by (simp add: load_file.simps(2) Some push Let_def) (erule rbind_more, use Suc.IH in auto)
    qed (simp add: load_file.simps(2) Some push Let_def)
  qed (simp add: load_file.simps(2))
  moreover have "load_loop (Suc (Suc n)) e base fp b p = load_loop (Suc n) e base fp b p"
    if "load_loop (Suc n) e base fp b p \<noteq> NoEnd"
  proof (cases "p_eof p fp")
    case False
    have "rbind (inpcommand_with e base (inpfileload (Suc n) e base) b q) (load_loop (Suc n) e base fp b) =
        rbind (inpcommand_with e base (inpfileload n e base) b q) (load_loop n e base fp b)"
      if "rbind (inpcommand_with e base (inpfileload n e base) b q) (load_loop n e base fp b) \<noteq> NoEnd" for q
      using that by (rule rbind_more) (use Suc.IH in \<open>blast intro: inpcommand_with_more\<close>)+
    then show ?thesis
      using that False by (simp add: load_loop.simps(2)) (erule rbind_more, simp_all)
  qed (simp add: load_loop.simps(2))
  moreover have "inpfileload (Suc (Suc n)) e base b p = inpfileload (Suc n) e base b p"
    if "inpfileload (Suc n) e base b p \<noteq> NoEnd"
  proof -
    obtain s q where ask: "(if iskeyboard p then ask_str p else next_token p) = (s, q)" by fastforce
    show ?thesis
    proof (cases s)
      case (Some f)
      then show ?thesis
        using that unfolding inpfileload.simps(2) ask by (simp add: Let_def) (erule rbind_more, use Suc.IH in auto)
    qed (simp add: inpfileload.simps(2) ask)
  qed
  ultimately show ?case by blast
qed simp

declare load_file.simps(2) [simp] load_loop.simps(2) [simp] inpfileload.simps(2) [simp]

lemma load_file_more:
  assumes "load_file n e base fname b p \<noteq> NoEnd" "n \<le> m"
  shows "load_file m e base fname b p = load_file n e base fname b p"
  using assms(2) by (induction m rule: dec_induct) (use assms(1) more_fuel in \<open>simp_all\<close>)

section \<open>Command files leave the input\<close>

lemma load_file_input:
  assumes "load_file n e base fname pbuf p = Ret (r, q)" "ts_ptok (p_tok p) < length (ts_bufs (p_tok p))"
  shows "(r = 0 \<and> g_instream q = g_instream p \<and> ts_ptok (p_tok q) = ts_ptok (p_tok p) \<and>
            take (Suc (ts_ptok (p_tok p))) (ts_bufs (p_tok q)) = take (Suc (ts_ptok (p_tok p))) (ts_bufs (p_tok p))) \<or>
         (r = -1 \<and> p_tui q = p_tui p \<and> p_tok q = p_tok p \<and>
            (g_instream q = g_instream p \<or>
             NTOKENS - 1 \<le> ts_ptok (p_tok p) \<and> g_instream q = Some (p_nfiles p)))"
proof -
  obtain m where n: "n = Suc m" using assms(1) by (cases n) auto
  show ?thesis
  proof (cases "Option.bind (getfullpath (ie_paths e) fname) (ie_fs e)")
    case None
    then show ?thesis using assms(1) by (simp add: n)
  next
    case (Some content)
    let ?p = "open_file content p"
    show ?thesis
    proof (cases "ts_ptok (p_tok p) < NTOKENS - 1")
      case True
      let ?q = "?p\<lparr>p_tok := (p_tok ?p)\<lparr>ts_ptok := ts_ptok (p_tok p) + 1\<rparr>\<rparr>"
      obtain q1 where q1: "load_loop m e base (p_nfiles p) pbuf ?q = Ret q1"
        and q: "r = 0" "q = q1\<lparr>p_tok := tokenpop (p_tok q1), g_instream := g_instream p\<rparr>"
        using assms(1) Some True by (auto simp: n open_file_def tokenpush_def Let_def rbind_eq_Ret)
      have "keeps_level ?q (load_loop m e base (p_nfiles p) pbuf ?q)"
        by (rule keeps_load_loop) (simp add: open_file_def)
      then have "same_level ?q q1" unfolding q1 keeps_simps .
      then show ?thesis using q by (simp add: same_level_def open_file_def tokenpop_def)
    next
      case False
      then show ?thesis
        using assms(1) Some by (auto simp: n open_file_def tokenpush_def Let_def)
    qed
  qed
qed

text \<open>C24: a command file always comes to its end, whatever it loads: from some amount of fuel on the
  outcome of \<open>load_file\<close> is the same. And it leaves the program reading where it read before. When
  \<open>load_file\<close> returns 0, the input stream is the one from before the call, the token stack is at the same
  level, and the arguments of every line below that level are untouched; when it returns -1, nothing was
  executed, and the stream is the old one unless the token stack was full: then the new file stays the
  input.\<close>

theorem load_file_restores:
  assumes "ts_ptok (p_tok p) < length (ts_bufs (p_tok p))"
  shows "\<exists>N res. res \<noteq> NoEnd \<and> (\<forall>n \<ge> N. load_file n e base fname pbuf p = res) \<and>
    (\<forall>r q. res = Ret (r, q) \<longrightarrow>
       (r = 0 \<and> g_instream q = g_instream p \<and> ts_ptok (p_tok q) = ts_ptok (p_tok p) \<and>
          take (Suc (ts_ptok (p_tok p))) (ts_bufs (p_tok q)) = take (Suc (ts_ptok (p_tok p))) (ts_bufs (p_tok p))) \<or>
       (r = -1 \<and> p_tui q = p_tui p \<and> p_tok q = p_tok p \<and>
          (g_instream q = g_instream p \<or>
           NTOKENS - 1 \<le> ts_ptok (p_tok p) \<and> g_instream q = Some (p_nfiles p))))"
proof -
  obtain N res where N: "res \<noteq> NoEnd" "\<And>n. N \<le> n \<Longrightarrow> load_file n e base fname pbuf p = res"
    using settled_load_file [of e base fname pbuf p] by (auto simp: settled_def)
  have "load_file N e base fname pbuf p = res" by (rule N(2)) simp
  with N load_file_input [OF _ assms, of N e base fname pbuf] show ?thesis
    by (intro exI [of _ N] exI [of _ res]) auto
qed

definition prog_demo :: prog where
  "prog_demo = \<lparr>p_tui = tui_demo, g_instream = None, p_files = (\<lambda>i. ''''), p_eof = (\<lambda>i. False), p_nfiles = 0,
     p_tok = \<lparr>ts_bufs = replicate 3 \<lparr>tk_argv = [], tk_argi = 0, tk_line = ''''\<rparr>, ts_ptok = 0\<rparr>,
     p_gets = [], p_vals = []\<rparr>"

definition env_demo :: inp_env where
  "env_demo = \<lparr>ie_rows = 24, ie_paths = \<lparr>pe_home = ''/h'', pe_path = [], pe_access = (\<lambda>f. True), pe_malloc = True\<rparr>,
     ie_fs = (\<lambda>f. if f = ''/h/s'' then Some (''# go'' @ [LF] @ ''next-buffer'' @ [LF] @ ''home'' @ [LF]) else None),
     ie_rnmparse = (\<lambda>f. None), ie_crate = (\<lambda>c. False), ie_map = (\<lambda>c a l. None),
     ie_mem = (True, True, True, True), ie_junk = (0, 0)\<rparr>"

theorem load_file_restores_witness:
  "\<exists>q. load_file 9 env_demo None ''~/s'' 0 prog_demo = Ret (0, q) \<and> g_instream q = None \<and> ts_ptok (p_tok q) = 0 \<and>
     take 1 (ts_bufs (p_tok q)) = take 1 (ts_bufs (p_tok prog_demo))"
proof -
  have "(case load_file 9 env_demo None ''~/s'' 0 prog_demo of Ret (r, q) \<Rightarrow> r = 0 | _ \<Rightarrow> False)"
    by code_simp
  then obtain q where q: "load_file 9 env_demo None ''~/s'' 0 prog_demo = Ret (0, q)"
    by (auto split: res.splits prod.splits)
  have "ts_ptok (p_tok prog_demo) < length (ts_bufs (p_tok prog_demo))" by (simp add: prog_demo_def)
  from load_file_restores [OF this, of env_demo None "''~/s''" 0]
  obtain N res where N: "\<forall>n \<ge> N. load_file n env_demo None ''~/s'' 0 prog_demo = res"
    and res: "\<forall>r q. res = Ret (r, q) \<longrightarrow>
       (r = 0 \<and> g_instream q = g_instream prog_demo \<and> ts_ptok (p_tok q) = ts_ptok (p_tok prog_demo) \<and>
          take (Suc (ts_ptok (p_tok prog_demo))) (ts_bufs (p_tok q)) =
          take (Suc (ts_ptok (p_tok prog_demo))) (ts_bufs (p_tok prog_demo))) \<or> r = -1"
    by metis
  have "load_file (max N 9) env_demo None ''~/s'' 0 prog_demo = Ret (0, q)"
    using load_file_more [of 9 env_demo None "''~/s''" 0 prog_demo "max N 9"] q by simp
  then have "res = Ret (0, q)" using N by (metis max.cobounded1)
  then show ?thesis using res q by (auto simp: prog_demo_def)
qed

section \<open>The kill command\<close>

text \<open>C23: the \<open>kill\<close> command typed in a browser that can be killed frees the buffer, and then \<open>inpcommand\<close>
  calls a method through the pointer to it: the program uses freed memory.\<close>

theorem kill_command_uses_freed:
  assumes "tui_wf (p_tui p)" "g_buffer (p_tui p) = Some b" "b \<in> set (tl (g_list (p_tui p)))"
    "g_heap (p_tui p) b = Some x" "b_priv x = Some br" "0 \<le> vme_addr_int (br_region br)"
    "iskeyboard p" "p_gets p = Some ''kill'' # as"
  shows "processinput n e base (key_of CHR '':'') p = Crash"
proof -
  have key: "keylookupbytable (inpklu n e base) (key_of CHR '':'') = Some (inpcommand n e base)"
    by (simp add: inpklu_def key_eval)
  let ?t = "(p_tui p)\<lparr>g_to := -1\<rparr>"
  have wf: "tui_wf ?t" using assms(1) by (simp add: tui_wf_def)
  have "b_mode x = BRMODE" using assms(1,3,4) by (force simp: tui_wf_def list_ok_def)
  then have "inpkill ?t = brkill b ?t" using assms(2,4) by (simp add: inpkill_def m_kill_def)
  moreover obtain t' where "brkill b ?t = Some t'" "g_heap t' b = None"
    using brkill_wf [OF wf, of b] assms(3-6) by auto
  ultimately have kill: "inpkill ?t = Some t'" "g_heap t' b = None" by simp_all
  have "inpcommand n e base b p = Crash"
    using assms(2,4,7,8) kill
    by (simp add: inpcommand_def inpcommand_with_def ask_str_def inpslu_def inpkill_cmd_def lift_tui_def setto_def Let_def)
  then show ?thesis using assms(2,4) key by (simp add: processinput_def) (simp add: key_of_def)
qed

theorem kill_command_uses_freed_witness:
  "processinput 5 env_demo None (key_of CHR '':'')
     (prog_demo\<lparr>p_tui := tui_demo\<lparr>g_buffer := Some 1\<rparr>, p_gets := [Some ''kill'']\<rparr>) = Crash"
proof (rule kill_command_uses_freed)
  show "tui_wf (p_tui (prog_demo\<lparr>p_tui := tui_demo\<lparr>g_buffer := Some 1\<rparr>, p_gets := [Some ''kill'']\<rparr>))"
    by (auto simp: tui_wf_def list_ok_def tui_demo_def card_demo_def less_Suc_eq)
  show "g_heap (p_tui (prog_demo\<lparr>p_tui := tui_demo\<lparr>g_buffer := Some 1\<rparr>, p_gets := [Some ''kill'']\<rparr>)) 1 = Some card_demo"
    by (simp add: tui_demo_def)
  show "b_priv card_demo = Some ((bb_br dummy_buf)\<lparr>br_strbar := Some ''card''\<rparr>)"
    by (simp add: card_demo_def)
  show "0 \<le> vme_addr_int (br_region ((bb_br dummy_buf)\<lparr>br_strbar := Some ''card''\<rparr>))"
    by (simp add: dummy_buf_def dummy_region_def vme_addr_int_def s32_def)
qed (simp_all add: tui_demo_def prog_demo_def iskeyboard_def)

end
