(* ===== verification/Tui_Main.thy ===== *)
theory Tui_Main
  imports Tui_Input_Props
begin

text \<open>
  Start and end of the browser program (\<open>v120_tui/main.c\<close>, \<open>controlreg.c\<close>, \<open>quit.c\<close>): the search
  paths, the crates and the browsers of their registers, the buffer list, and the clean-up.
\<close>

section \<open>Search paths\<close>

definition pathadd2list :: "bool \<Rightarrow> string \<Rightarrow> string list \<Rightarrow> int \<times> string list" where
  "pathadd2list mem pathname g_path = (if mem then (0, pathname # g_path) else (-1, g_path))"

text \<open>
  \<open>mem\<close> says which allocations succeed: the home path, the copies of the first two paths, the list
  entries. \<open>None\<close> is the \<open>strlen\<close> of an unset \<open>HOME\<close>.
\<close>

record path_mem =
  pm_home :: bool
  pm_copy1 :: bool
  pm_add1 :: bool
  pm_copy2 :: bool
  pm_add2 :: bool
  pm_add3 :: bool

definition pathconfig :: "path_mem \<Rightarrow> (string \<Rightarrow> bool) \<Rightarrow> bool \<Rightarrow> string \<Rightarrow> string option \<Rightarrow> path_env option" where
  "pathconfig m access mem rcdatadir home =
     (case home of
        None \<Rightarrow> None
      | Some s \<Rightarrow>
          (let g_home = (if pm_home m then s else ''.'');
               g_path = (if pm_copy1 m then snd (pathadd2list (pm_add1 m) g_home []) else []);
               g_path = (if pm_copy2 m then snd (pathadd2list (pm_add2 m) rcdatadir g_path) else g_path);
               g = \<lparr>pe_home = g_home, pe_path = g_path, pe_access = access, pe_malloc = mem\<rparr>
           in Some (case getfullpath g ''~/.v120_tui.d'' of
                      None \<Rightarrow> g
                    | Some s \<Rightarrow> g\<lparr>pe_path := snd (pathadd2list (pm_add3 m) s g_path)\<rparr>)))"

section \<open>Crates\<close>

text \<open>\<open>size\<close> is the size of the configuration registers; \<open>reg\<close> the success of the region's allocation.\<close>

definition ctrlnew ::
  "bool \<Rightarrow> bool \<times> bool \<times> bool \<times> bool \<Rightarrow> int \<Rightarrow> int \<times> int \<Rightarrow> u64 \<Rightarrow> rnm option \<Rightarrow> v120_handle \<Rightarrow> int \<Rightarrow> tui \<Rightarrow> tui" where
  "ctrlnew reg mem rows junk size_config rnm h crateid t =
     (if \<not> reg then t
      else snd (browsernew mem rows junk (take 13 (''V120'' @ fmt_d crateid @ '' CONFIG''))
                  \<lparr>vr_base = Some (h_mapptr h + CONFIG_OFFS), vr_start_page = 0, vr_end_page = 0, vr_vme_addr = -1,
                   vr_len = size_config, vr_config = 0, vr_tag = None\<rparr> rnm crateid t))"

fun openallcrates ::
  "(int \<Rightarrow> v120_handle \<Rightarrow> tui \<Rightarrow> tui) \<Rightarrow> v120_env \<Rightarrow> int list \<Rightarrow> os \<Rightarrow> tui \<Rightarrow> v120_handle option list \<times> os \<times> tui" where
  "openallcrates ctrl ve [] s t = ([], s, t)"
| "openallcrates ctrl ve (i # is) s t =
     (case v120_open ve i s of
        (p, s) \<Rightarrow>
          (case openallcrates ctrl ve is s (case p of None \<Rightarrow> t | Some h \<Rightarrow> ctrl i h t) of
             (ps, r) \<Rightarrow> (p # ps, r)))"

section \<open>Clean-up\<close>

definition pathclean :: "string list \<Rightarrow> string list" where
  "pathclean g_path = g_path"

definition rnmclean :: "rnm list \<Rightarrow> block list" where
  "rnmclean g_rnms = concat (map rnmfree g_rnms)"

fun bufferclean_loop :: "nat list \<Rightarrow> tui \<Rightarrow> tui option" where
  "bufferclean_loop [] t = Some t"
| "bufferclean_loop (p # ps) t = Option.bind (m_quit p t) (bufferclean_loop ps)"

definition bufferclean :: "tui \<Rightarrow> tui option" where
  "bufferclean t =
     map_option (\<lambda>t. t\<lparr>g_list := [], g_lastbuf := None, g_buffer := None\<rparr>) (bufferclean_loop (g_list t) t)"

fun crateclean :: "v120_handle option list \<Rightarrow> os \<Rightarrow> os outcome" where
  "crateclean [] s = Done s"
| "crateclean (p # ps) s =
     (case p of None \<Rightarrow> crateclean ps s | Some h \<Rightarrow> obind (v120_close h s) (crateclean ps))"

text \<open>What \<open>quit\<close> frees, the buffers, and the crates it closes before \<open>exit(0)\<close>.\<close>

definition quit ::
  "string list \<Rightarrow> rnm list \<Rightarrow> tui \<Rightarrow> v120_handle option list \<Rightarrow> os \<Rightarrow>
    (string list \<times> block list \<times> tui \<times> os outcome) option" where
  "quit g_path g_rnms t ps s =
     (case bufferclean t of
        None \<Rightarrow> None
      | Some t' \<Rightarrow> Some (pathclean g_path, rnmclean g_rnms, t', crateclean ps s))"

section \<open>The whole program\<close>

text \<open>\<open>main\<close> up to the key loop: the list is started after the crates' browsers are in it.\<close>

definition main_start ::
  "bool \<times> bool \<Rightarrow> (int \<Rightarrow> v120_handle \<Rightarrow> tui \<Rightarrow> tui) \<Rightarrow> v120_env \<Rightarrow> os \<Rightarrow> tui option outcome \<times> v120_handle option list \<times> os" where
  "main_start mem ctrl ve s =
     (case openallcrates ctrl ve (map int [0..<16]) s tui_empty of
        (ps, s, t) \<Rightarrow>
          (let t = bufferlist_start mem t
           in (if g_buffer t = None then Exit 1 else Done (buffergoto (g_buffer t) t), ps, s)))"

section \<open>What the start and the end establish\<close>

lemma browsernew_boot:
  assumes "tui_boot t"
  shows "tui_boot (snd (browsernew mem rows junk name region metadata crateid t))"
proof -
  obtain m1 m2 m3 where mem: "mem = (m1, m2, m3)" by (cases mem) auto
  let ?ps = "titlemake m2 (case metadata of Some m \<Rightarrow> r_name m | None \<Rightarrow> ''(no name)'') (vme_addr_int region) crateid"
  let ?br = "browser_init rows junk ?ps region metadata crateid"
  have "br_strbar ?br = ?ps" by (simp add: browser_init_def Let_def brchmod_br_strbar)
  moreover have "g_fresh t \<notin> set (g_list t)" using assms by (auto simp: tui_boot_def)
  ultimately show ?thesis
    using assms
    by (auto simp: browsernew_def mem buffernew_def bufferadd2list_def Let_def tui_boot_def less_SucI)
qed

lemma openallcrates_boot:
  assumes "tui_boot t" "\<And>i h t. tui_boot t \<Longrightarrow> tui_boot (ctrl i h t)"
  shows "tui_boot (snd (snd (openallcrates ctrl ve is s t)))"
  using assms(1)
proof (induction "is" arbitrary: s t)
  case (Cons i "is")
  obtain p s1 where o: "v120_open ve i s = (p, s1)" by fastforce
  have "tui_boot (case p of None \<Rightarrow> t | Some h \<Rightarrow> ctrl i h t)"
    using Cons.prems assms(2) by (simp split: option.split)
  then have "tui_boot (snd (snd (openallcrates ctrl ve is s1 (case p of None \<Rightarrow> t | Some h \<Rightarrow> ctrl i h t))))"
    by (rule Cons.IH)
  then show ?case
    by (cases "openallcrates ctrl ve is s1 (case p of None \<Rightarrow> t | Some h \<Rightarrow> ctrl i h t)") (simp add: o)
qed simp

text \<open>Whatever crates there are, the program starts with an intact list.\<close>

lemma main_start_wf:
  assumes "fst mem"
  shows "\<exists>t. fst (main_start mem (\<lambda>i h. ctrlnew reg bm rows junk sz (rnm i) h i) ve s) = Done (Some t) \<and> tui_wf t"
proof -
  let ?ctrl = "\<lambda>i h. ctrlnew reg bm rows junk sz (rnm i) h i"
  obtain ps s1 t where o: "openallcrates ?ctrl ve (map int [0..<16]) s tui_empty = (ps, s1, t)"
    by (cases "openallcrates ?ctrl ve (map int [0..<16]) s tui_empty") auto
  have "tui_boot (snd (snd (openallcrates ?ctrl ve (map int [0..<16]) s tui_empty)))"
    by (rule openallcrates_boot [OF tui_empty_boot]) (simp add: ctrlnew_def browsernew_boot)
  then have "tui_boot t" unfolding o by simp
  then have wf: "tui_wf (bufferlist_start mem t)"
    using bufferlist_start_wf assms by blast
  then obtain c where c: "g_buffer (bufferlist_start mem t) = Some c" "c \<in> set (g_list (bufferlist_start mem t))"
    by (auto simp: tui_wf_def)
  show ?thesis
    using buffergoto_wf [OF wf c(2)] c(1) unfolding main_start_def o prod.case Let_def by auto
qed

lemma m_quit_head:
  assumes "g_list t = p # ps" "g_heap t p = Some x" "b_mode x = BRMODE \<Longrightarrow> b_priv x \<noteq> None"
  shows "\<exists>t'. m_quit p t = Some t' \<and> g_list t' = ps \<and> g_heap t' = (g_heap t)(p := None)"
  using assms
  by (cases "b_mode x") (auto simp: m_quit_def buquit_def brquit_def bufferkill_def bufferfree_def)

text \<open>At the end every buffer is freed, once.\<close>

lemma bufferclean_frees:
  assumes "tui_wf t"
  shows "\<exists>t'. bufferclean t = Some t' \<and> g_heap t' = (\<lambda>b. None) \<and> g_list t' = []"
proof -
  have loop: "\<exists>t'. bufferclean_loop bs t = Some t' \<and> (\<forall>b. g_heap t' b = None)"
    if "g_list t = bs" "distinct bs" "\<forall>b. g_heap t b \<noteq> None \<longleftrightarrow> b \<in> set bs"
      "\<forall>b \<in> set bs. \<forall>x. g_heap t b = Some x \<longrightarrow> b_mode x = BRMODE \<longrightarrow> b_priv x \<noteq> None" for bs t
    using that
  proof (induction bs arbitrary: t)
    case (Cons p ps)
    obtain x where x: "g_heap t p = Some x" using Cons.prems(3) by fastforce
    then obtain t1 where t1: "m_quit p t = Some t1" "g_list t1 = ps" "g_heap t1 = (g_heap t)(p := None)"
      using m_quit_head [OF Cons.prems(1) x] Cons.prems(4) by auto
    have "\<forall>b. g_heap t1 b \<noteq> None \<longleftrightarrow> b \<in> set ps"
      using Cons.prems(2,3) unfolding t1(3) by (metis distinct.simps(2) fun_upd_apply set_ConsD list.set_intros(2))
    then show ?case using Cons.IH [OF t1(2)] Cons.prems(2,4) t1 by (auto simp: t1(3))
  qed simp
  have ok: "list_ok (g_heap t) (g_list t)" using assms by (simp add: tui_wf_def)
  have "\<forall>b \<in> set (g_list t). \<forall>x. g_heap t b = Some x \<longrightarrow> b_mode x = BRMODE \<longrightarrow> b_priv x \<noteq> None"
  proof (intro ballI allI impI)
    fix b x assume b: "b \<in> set (g_list t)" "g_heap t b = Some x" "b_mode x = BRMODE"
    show "b_priv x \<noteq> None"
      using list_ok_split [OF ok b(1)] by cases (use ok b in \<open>force simp: list_ok_def\<close>)+
  qed
  then obtain t' where "bufferclean_loop (g_list t) t = Some t'" "\<forall>b. g_heap t' b = None"
    using loop [of t "g_list t"] assms by (auto simp: tui_wf_def list_ok_def)
  then show ?thesis by (auto simp: bufferclean_def)
qed

end
