(* ===== verification/Tui_Term.thy ===== *)
theory Tui_Term
  imports Tui_Main
begin

text \<open>
  The terminal (\<open>v120_tui/termios.c\<close>, and \<open>term_ncurses.c\<close> as calls of ncurses) and the lines drawn around a page
  (\<open>v120_tui/display.c\<close>): escape sequences written, keys decoded from the bytes read, and the wait for
  a key. What \<open>fflush(stdin)\<close> leaves of the input is a parameter, and so is what \<open>select\<close> returns.
\<close>

section \<open>Start and end of the terminal\<close>

text \<open>The flags have the values of the Linux ABI; \<open>ti_cc\<close> is the array of special characters.\<close>

record termios =
  ti_iflag :: u32
  ti_oflag :: u32
  ti_cflag :: u32
  ti_lflag :: u32
  ti_cc :: "nat \<Rightarrow> u8"

definition BRKINT :: u32 where "BRKINT = 0x2"
definition ICRNL :: u32 where "ICRNL = 0x100"
definition INPCK :: u32 where "INPCK = 0x10"
definition ISTRIP :: u32 where "ISTRIP = 0x20"
definition IXON :: u32 where "IXON = 0x400"
definition CS8 :: u32 where "CS8 = 0x30"
definition ECHO :: u32 where "ECHO = 0x8"
definition ICANON :: u32 where "ICANON = 0x2"
definition IEXTEN :: u32 where "IEXTEN = 0x8000"
definition ISIG :: u32 where "ISIG = 0x1"
definition VTIME :: nat where "VTIME = 5"
definition VMIN :: nat where "VMIN = 6"

text \<open>The settings of the terminal, the saved ones, and whether they are saved.\<close>

record tty =
  ty_attr :: termios
  ty_orig :: termios
  ty_have :: bool

definition raw_termios :: "termios \<Rightarrow> termios" where
  "raw_termios t =
     (let t = t\<lparr>ti_iflag := ti_iflag t AND NOT (BRKINT OR ICRNL OR INPCK OR ISTRIP OR IXON)\<rparr>;
          t = t\<lparr>ti_cflag := ti_cflag t OR CS8\<rparr>;
          t = t\<lparr>ti_lflag := ti_lflag t AND NOT (ECHO OR ICANON OR IEXTEN OR ISIG)\<rparr>;
          t = t\<lparr>ti_cc := (ti_cc t)(VMIN := 5, VTIME := 8)\<rparr>;
          t = t\<lparr>ti_cc := (ti_cc t)(VMIN := 0, VTIME := 0)\<rparr>;
          t = t\<lparr>ti_cc := (ti_cc t)(VMIN := 2, VTIME := 0)\<rparr>
      in t\<lparr>ti_cc := (ti_cc t)(VMIN := 0, VTIME := 8)\<rparr>)"

text \<open>\<open>isatty\<close>, and the success of \<open>tcgetattr\<close> and \<open>tcsetattr\<close>; \<open>term_err\<close> ends the program.\<close>

definition ttstart :: "bool \<Rightarrow> bool \<Rightarrow> bool \<Rightarrow> tty \<Rightarrow> tty outcome" where
  "ttstart isatty getok setok t =
     (if \<not> isatty then Exit EXIT_FAILURE
      else if \<not> getok then Exit EXIT_FAILURE
      else (let t = t\<lparr>ty_orig := ty_attr t, ty_have := True\<rparr> in
            if \<not> setok then Exit EXIT_FAILURE else Done (t\<lparr>ty_attr := raw_termios (ty_orig t)\<rparr>)))"

definition ttexit :: "bool \<Rightarrow> tty \<Rightarrow> tty outcome" where
  "ttexit setok t =
     (if ty_have t then (if setok then Done (t\<lparr>ty_attr := ty_orig t\<rparr>) else Exit EXIT_FAILURE) else Done t)"

text \<open>Leaving gives the terminal back as it was; without a saved setting nothing is changed.\<close>

lemma ttexit_restores:
  "ttstart isatty getok setok t = Done t' \<Longrightarrow> ttexit True t' = Done t'' \<Longrightarrow> ty_attr t'' = ty_attr t"
  "\<not> ty_have t \<Longrightarrow> ttexit setok t = Done t"
  by (auto simp: ttstart_def ttexit_def Let_def split: if_splits)

text \<open>Raw: no echo, no lines, no signals from the keyboard; reads wait at most eight tenths of a second.\<close>

lemma raw_termios_bits:
  "ti_lflag (raw_termios t) AND ECHO = 0" "ti_lflag (raw_termios t) AND ICANON = 0"
  "ti_lflag (raw_termios t) AND ISIG = 0" "ti_oflag (raw_termios t) = ti_oflag t"
  "ti_cc (raw_termios t) VMIN = 0" "ti_cc (raw_termios t) VTIME = 8"
  by (simp_all add: raw_termios_def ECHO_def ICANON_def IEXTEN_def ISIG_def VMIN_def VTIME_def Let_def
      and.assoc)

section \<open>Output\<close>

abbreviation ESC :: char where "ESC \<equiv> char_of (27 :: nat)"

definition print_special :: "int \<Rightarrow> char \<Rightarrow> string" where
  "print_special v t = [ESC, CHR ''['' ] @ fmt_d v @ [t]"

definition COLOR_DEFAULT :: int where "COLOR_DEFAULT = 9"

definition ttcolor :: "int \<Rightarrow> char \<Rightarrow> string" where
  "ttcolor color t = print_special (30 + (if color \<noteq> COLOR_DEFAULT then color AND 7 else color)) t"

definition ttsetfg :: "int \<Rightarrow> string" where "ttsetfg color = ttcolor color (CHR ''d'')"
definition ttsetbg :: "int \<Rightarrow> string" where "ttsetbg color = ttcolor color (CHR ''m'')"
definition ttcursset :: "bool \<Rightarrow> string" where "ttcursset on = [ESC] @ ''[?25'' @ (if on then ''h'' else ''l'')"
definition ttmove :: "int \<Rightarrow> int \<Rightarrow> string" where
  "ttmove row col = [ESC, CHR ''['' ] @ fmt_d (row + 1) @ '';'' @ fmt_d col @ ''H''"
definition ttbold :: "bool \<Rightarrow> string" where "ttbold isbold = print_special (if isbold then 1 else 22) (CHR ''m'')"
definition ttplain :: string where "ttplain = print_special 0 (CHR ''m'')"
definition tteeop :: string where "tteeop = ttplain @ ttmove 0 0 @ print_special 2 (CHR ''J'')"
definition ttrev :: "bool \<Rightarrow> string" where "ttrev isrev = [ESC, CHR ''['' ] @ fmt_d (if isrev then 7 else 27) @ ''m''"
definition ttputc :: "char \<Rightarrow> string" where "ttputc c = (if c = LF then [CR, c] else [c])"

definition tt_string :: "tt \<Rightarrow> string" where
  "tt_string x = (case x of TTBold b \<Rightarrow> ttbold b | TTRev b \<Rightarrow> ttrev b | TTPlain \<Rightarrow> ttplain | TTMove r c \<Rightarrow> ttmove r c | TTPut c \<Rightarrow> ttputc c)"

text \<open>The size asked of the terminal, or a guess.\<close>

definition ttsize :: "(int \<times> int) option \<Rightarrow> int \<times> int" where
  "ttsize w = (case w of Some rc \<Rightarrow> rc | None \<Rightarrow> (20, 73))"

section \<open>Title, mode line and minibuffer\<close>

definition puts :: "string \<Rightarrow> tt list" where
  "puts s = map TTPut s"

definition modename :: "tbuffer \<Rightarrow> string" where
  "modename b = (case b_mode b of BRMODE \<Rightarrow> ''browse'' | BUMODE \<Rightarrow> ''buffer list'')"

definition mode_text :: "tbuffer \<Rightarrow> string" where
  "mode_text b = ''- '' @ modename b @ '' -- '' @ ''Type `:q'' @ [SQUOTE] @ '' to quit ''"

definition modeline :: "int \<Rightarrow> int \<Rightarrow> tbuffer \<Rightarrow> tt list" where
  "modeline rows cols b =
     [TTMove (rows - 2) 0, TTRev True] @ puts (take 199 (mode_text b)) @
     puts (replicate (nat (cols - int (length (mode_text b)))) (CHR ''-'')) @ [TTRev False]"

definition titleprint :: "int \<Rightarrow> string \<Rightarrow> tt list" where
  "titleprint cols title =
     (let len = int (length title) in
      [TTMove 0 0, TTRev True] @ puts (replicate (nat ((cols - len) sdiv 2)) (CHR '' '')) @ puts title @
      puts (replicate (nat (cols - len sdiv 2)) (CHR '' '')) @ [TTRev False])"

definition brepos :: "int \<Rightarrow> int \<Rightarrow> tt list" where
  "brepos rows col = [TTMove (rows - 1) col]"

definition mbclear :: "int \<Rightarrow> int \<Rightarrow> tt list" where
  "mbclear rows cols = brepos rows 0 @ spaceprint (rows - 1) 0 (cols - 1)"

definition mbwarn :: "int \<Rightarrow> int \<Rightarrow> string \<Rightarrow> tt list" where
  "mbwarn rows cols s = mbclear rows cols @ brepos rows 0 @ puts s"

text \<open>The number of characters a drawing writes.\<close>

definition written :: "tt list \<Rightarrow> nat" where
  "written xs = length (filter (\<lambda>x. case x of TTPut c \<Rightarrow> True | _ \<Rightarrow> False) xs)"

lemma written_simps [simp]:
  "written [] = 0" "written (xs @ ys) = written xs + written ys" "written (puts s) = length s"
  "written (TTMove r c # xs) = written xs" "written (TTRev b # xs) = written xs"
  by (simp_all add: written_def puts_def o_def)

text \<open>
  The mode line fills its row exactly; the title line overshoots it: with a title that fits it
  writes more than one and a half rows less the title.
\<close>

lemma modeline_width: "int (length (mode_text b)) \<le> cols \<Longrightarrow> int (written (modeline rows cols b)) = cols"
  by (cases "b_mode b") (simp_all add: modeline_def mode_text_def modename_def)

lemma titleprint_width:
  assumes "int (length title) \<le> cols"
  shows "int (written (titleprint cols title)) =
    (cols - int (length title)) div 2 + int (length title) + cols - int (length title) div 2"
proof -
  have "int (length title) div 2 \<le> cols" using assms by linarith
  then show ?thesis using assms by (simp add: titleprint_def Let_def sdiv_nonneg)
qed

section \<open>Keys\<close>

text \<open>\<open>getchar\<close> on the bytes that are there; \<open>EOF\<close> when there is none.\<close>

definition c_getchar :: "int list \<Rightarrow> int \<times> int list" where
  "c_getchar inp = (case inp of [] \<Rightarrow> (-1, []) | c # cs \<Rightarrow> (c, cs))"

text \<open>A sequence that is not known is discarded and read as ESC.\<close>

definition tilde_key :: "(int list \<Rightarrow> int list) \<Rightarrow> int \<Rightarrow> int list \<Rightarrow> int \<times> int list" where
  "tilde_key flush key inp =
     (case c_getchar inp of (c, inp) \<Rightarrow> if c = key_of (CHR ''~'') then (key, inp) else (27, flush inp))"

definition process_escape :: "(int list \<Rightarrow> int list) \<Rightarrow> int list \<Rightarrow> int \<times> int list" where
  "process_escape flush inp =
     (case c_getchar inp of (c, inp) \<Rightarrow>
        if c = 27 then (c, flush inp)
        else if c = key_of (CHR ''['') then
          (case c_getchar inp of (c, inp) \<Rightarrow>
             if c = key_of (CHR ''A'') then (KEY_UP, inp)
             else if c = key_of (CHR ''B'') then (KEY_DOWN, inp)
             else if c = key_of (CHR ''C'') then (KEY_RIGHT, inp)
             else if c = key_of (CHR ''D'') then (KEY_LEFT, inp)
             else if c = key_of (CHR ''H'') then (KEY_HOME, inp)
             else if c = key_of (CHR ''F'') then (KEY_END, inp)
             else if c = key_of (CHR ''1'') \<or> c = key_of (CHR ''7'') then tilde_key flush KEY_HOME inp
             else if c = key_of (CHR ''3'') then tilde_key flush KEY_DC inp
             else if c = key_of (CHR ''4'') \<or> c = key_of (CHR ''8'') then tilde_key flush KEY_END inp
             else if c = key_of (CHR ''5'') then tilde_key flush KEY_PPAGE inp
             else if c = key_of (CHR ''6'') then tilde_key flush KEY_NPAGE inp
             else (27, flush inp))
        else if c = key_of (CHR ''0'') then
          (case c_getchar inp of (c, inp) \<Rightarrow>
             if c = (key_of (CHR ''A'') OR 128) then (KEY_UP, inp)
             else if c = (key_of (CHR ''B'') OR 128) then (KEY_DOWN, inp)
             else if c = (key_of (CHR ''C'') OR 128) then (KEY_RIGHT, inp)
             else if c = (key_of (CHR ''D'') OR 128) then (KEY_LEFT, inp)
             else if c = (key_of (CHR ''H'') OR 128) then (KEY_HOME, inp)
             else if c = (key_of (CHR ''F'') OR 128) then (KEY_END, inp)
             else (27, flush inp))
        else (27, flush inp))"

text \<open>\<open>mswait\<close> is unsigned: the test for a negative one is never true.\<close>

definition MSWAIT_MIN :: int where "MSWAIT_MIN = 150"

definition ttto :: "int \<Rightarrow> u32" where
  "ttto ms = of_int (if 0 \<le> ms \<and> ms < MSWAIT_MIN then MSWAIT_MIN else ms)"

text \<open>\<open>sel\<close> answers \<open>select\<close> for a number of microseconds.\<close>

definition ttgetc :: "(int list \<Rightarrow> int list) \<Rightarrow> (u32 \<Rightarrow> int) \<Rightarrow> u32 \<Rightarrow> int list \<Rightarrow> int \<times> int list" where
  "ttgetc flush sel mswait inp =
     (let inp = flush inp; retval = sel (mswait * 1000) in
      if retval = -1 then (-1, inp)
      else if retval \<noteq> 0 then
        (case c_getchar inp of (c, inp) \<Rightarrow>
           if c = 13 then (10, inp)
           else if c = 27 then process_escape flush inp
           else if c = TO_CTRL (key_of (CHR ''H'')) then (KEY_BACKSPACE, inp)
           else (c, inp))
      else (-1, inp))"

section \<open>The ncurses terminal\<close>

text \<open>\<open>v120_tui/term_ncurses.c\<close>: each function as the calls it makes; \<open>getch\<close> answers with a key.\<close>

datatype curses =
    Initscr | Nl | Timeout int | Noecho | Keypad bool | CursSet bool | Endwin | Cmove int int
  | Attron string | Attroff string | Cclear | Printw string | Refresh | Addch int | Stdout string

definition nc_ttsize :: "int \<Rightarrow> int \<Rightarrow> int \<times> int" where "nc_ttsize LINES COLS = (LINES, COLS)"

definition nc_ttstart :: "curses list" where
  "nc_ttstart = [Initscr, Nl, Timeout (- 1), Noecho, Keypad True, CursSet False]"

definition nc_ttexit :: "curses list" where "nc_ttexit = [Endwin]"

definition nc_ttsetfg :: "int \<Rightarrow> curses list" where
  "nc_ttsetfg color = [Stdout ([ESC, CHR ''['' , CHR ''3''] @ fmt_d (color AND 7) @ ''m'')]"

definition nc_ttsetbg :: "int \<Rightarrow> curses list" where
  "nc_ttsetbg color = [Stdout ([ESC, CHR ''['' , CHR ''4''] @ fmt_d (color AND 7) @ ''m'')]"

definition nc_ttto :: "int \<Rightarrow> curses list" where
  "nc_ttto ms = [Timeout (if 0 \<le> ms \<and> ms < MSWAIT_MIN then MSWAIT_MIN else ms)]"

definition nc_ttcursset :: "bool \<Rightarrow> curses list" where "nc_ttcursset on = [CursSet on]"

definition nc_ttmove :: "int \<Rightarrow> int \<Rightarrow> curses list" where "nc_ttmove row col = [Cmove row col]"

definition nc_ttbold :: "bool \<Rightarrow> curses list" where
  "nc_ttbold isbold = [if isbold then Attron ''bold'' else Attroff ''bold'']"

definition nc_ttplain :: "curses list" where "nc_ttplain = [Attroff ''all'']"

definition nc_tteeop :: "curses list" where "nc_tteeop = [Cclear]"

definition nc_ttprintf :: "string \<Rightarrow> curses list" where "nc_ttprintf s = [Printw s]"

definition nc_ttrev :: "bool \<Rightarrow> curses list" where
  "nc_ttrev isrev = [if isrev then Attron ''reverse'' else Attroff ''reverse'']"

definition nc_ttflush :: "curses list" where "nc_ttflush = [Refresh]"

definition nc_ttgetc :: "int \<Rightarrow> int" where "nc_ttgetc getch = getch"

definition nc_ttputc :: "int \<Rightarrow> curses list" where "nc_ttputc c = [Addch (c AND 0xFF)]"

text \<open>The two terminals wait alike for times that are not negative; only here does -1 wait for ever.\<close>

lemma ttto_same: "0 \<le> ms \<Longrightarrow> ms < 2 ^ 32 \<Longrightarrow> nc_ttto ms = [Timeout (uint (ttto ms))]"
  by (simp add: nc_ttto_def ttto_def MSWAIT_MIN_def uint_word_of_int)

section \<open>What the keys mean\<close>

text \<open>The sequences of the cursor and editing keys are read as the keys, and nothing behind them is taken.\<close>

lemma process_escape_keys:
  "process_escape flush (map key_of ''[A'' @ rest) = (KEY_UP, rest)"
  "process_escape flush (map key_of ''[B'' @ rest) = (KEY_DOWN, rest)"
  "process_escape flush (map key_of ''[C'' @ rest) = (KEY_RIGHT, rest)"
  "process_escape flush (map key_of ''[D'' @ rest) = (KEY_LEFT, rest)"
  "process_escape flush (map key_of ''[3~'' @ rest) = (KEY_DC, rest)"
  "process_escape flush (map key_of ''[5~'' @ rest) = (KEY_PPAGE, rest)"
  "process_escape flush (map key_of ''[6~'' @ rest) = (KEY_NPAGE, rest)"
  by (simp_all add: process_escape_def c_getchar_def tilde_key_def key_of_def)

text \<open>Waiting without a limit (-1) is not what happens: the wait is 2^32 - 1000 microseconds.\<close>

lemma ttto_forever: "ttto (-1) * 1000 = - 1000"
  by (simp add: ttto_def MSWAIT_MIN_def)

end
