(* ===== verification/Tui_Splash.thy ===== *)
theory Tui_Splash
  imports Tui_Term
begin

text \<open>
  The pages of the browser program: the table of registers (\<open>brsplash\<close> of \<open>v120_tui/browser.c\<close>) and
  the buffer list (\<open>busplash\<close> of \<open>v120_tui/buffer.c\<close>). A page is the sequence of what it draws; the
  table also records every read of the mapped memory. The value of a read is a parameter that may
  depend on the reads before it, since registers change by themselves. \<open>None\<close> is an access outside
  the array of names, or through a NULL title.
\<close>

section \<open>Text\<close>

definition btmove :: "int \<Rightarrow> int \<Rightarrow> tt list" where
  "btmove r c = [TTMove (r + 1) c]"

text \<open>
  \<open>%.8f\<close> of the \<open>float\<close> with the given bits: the significand times a power of two, rounded to the
  nearest multiple of 10^-8, ties to even.
\<close>

definition f32_scaled :: "u32 \<Rightarrow> int" where
  "f32_scaled w =
     (let e = uint (take_bit 8 (drop_bit 23 w)); m = uint (take_bit 23 w);
          n = (if e = 0 then m else m + 2 ^ 23) * 10 ^ 8;
          s = (if e = 0 then 1 else e) - 150
      in if 0 \<le> s then n * 2 ^ nat s
         else (let d = 2 ^ nat (- s); q = n div d; r = n mod d in
               if d < 2 * r \<or> 2 * r = d \<and> odd q then q + 1 else q))"

definition fmt_float8 :: "u32 \<Rightarrow> string" where
  "fmt_float8 w =
     (if bit w 31 then ''-'' else '''') @
     (if take_bit 8 (drop_bit 23 w) = 255 then (if take_bit 23 w = 0 then ''inf'' else ''nan'')
      else fmt_d (f32_scaled w div 10 ^ 8) @ ''.'' @ pad_left (CHR ''0'') 8 (fmt_d (f32_scaled w mod 10 ^ 8)))"

lemma f32_scaled_examples:
  "f32_scaled 0x3FC00000 = 150000000" "f32_scaled 0xBDCCCCCD = 10000000" "f32_scaled 0x33000000 = 3"
  by (simp_all add: f32_scaled_def)

section \<open>The table of registers\<close>

definition DUMP_COL :: int where "DUMP_COL = 6"
definition TAG_STRLEN :: int where "TAG_STRLEN = 10"

definition TO_TAGS :: "browser \<Rightarrow> int" where
  "TO_TAGS br = DUMP_COL + TAG_STRLEN + br_printlen br * br_ncols br"

record splash =
  sp_draw :: "tt list"
  sp_reads :: "(int \<times> int) list"
  sp_v :: u32
  sp_fv :: u32

text \<open>Number of earlier reads, byte offset and width of a read.\<close>

type_synonym reg_reader = "nat \<Rightarrow> int \<Rightarrow> int \<Rightarrow> u32"

definition draw :: "tt list \<Rightarrow> splash \<Rightarrow> splash" where
  "draw xs s = s\<lparr>sp_draw := sp_draw s @ xs\<rparr>"

definition read_reg :: "reg_reader \<Rightarrow> int \<Rightarrow> int \<Rightarrow> splash \<Rightarrow> u32 \<times> splash" where
  "read_reg rd off width s = (rd (length (sp_reads s)) off width, s\<lparr>sp_reads := sp_reads s @ [(off, width)]\<rparr>)"

text \<open>The name of a register: \<open>Some None\<close> where there is none.\<close>

definition name_at :: "browser \<Rightarrow> int \<Rightarrow> int \<Rightarrow> string option option" where
  "name_at br i len =
     (case br_mdata br of
        None \<Rightarrow> Some None
      | Some m \<Rightarrow>
          (if len \<le> i then Some None
           else if 0 \<le> i \<and> nat i < length (r_mdata m) then Some (Some (md_name (r_mdata m ! nat i)))
           else None))"

definition mdata_len :: "browser \<Rightarrow> int" where
  "mdata_len br = (case br_mdata br of None \<Rightarrow> 0 | Some m \<Rightarrow> r_len m)"

definition splash_cell :: "reg_reader \<Rightarrow> browser \<Rightarrow> int \<Rightarrow> int \<Rightarrow> splash \<Rightarrow> splash option" where
  "splash_cell rd br drawno input s =
     (let s = (if drawno = br_sel br then
                 (let s = draw [TTRev True] s in
                  if br_dwidth br = 2 then (case read_reg rd input 2 s of (v, s) \<Rightarrow> s\<lparr>sp_v := v\<rparr>)
                  else
                    (case read_reg rd input 4 s of (v, s) \<Rightarrow>
                       case read_reg rd input 4 (s\<lparr>sp_v := v\<rparr>) of (fv, s) \<Rightarrow> s\<lparr>sp_fv := fv\<rparr>))
               else if drawno - 1 = br_sel br then draw [TTRev False] s
               else s) in
      case name_at br (idxchk br (drawno + br_offs br)) (mdata_len br) of
        None \<Rightarrow> None
      | Some nm \<Rightarrow>
          (let s = draw [TTBold (case nm of None \<Rightarrow> False | Some name \<Rightarrow> name \<noteq> '''')] s;
               s = draw [TTPut (CHR '' '')] s;
               s = (if br_dwidth br = 2 then
                      (case read_reg rd input 2 s of (v, s) \<Rightarrow> draw (puts (fmt_X 4 (unat (take_bit 16 v)))) s)
                    else if br_dwidth br = 4 then
                      (case read_reg rd input 4 s of (v, s) \<Rightarrow> draw (puts (fmt_X 8 (unat v))) s)
                    else s)
           in Some (draw [TTPut (CHR '' '')] s)))"

fun splash_cols :: "reg_reader \<Rightarrow> browser \<Rightarrow> nat \<Rightarrow> int \<Rightarrow> int \<Rightarrow> splash \<Rightarrow> splash option" where
  "splash_cols rd br 0 drawno input s = Some s"
| "splash_cols rd br (Suc n) drawno input s =
     Option.bind (splash_cell rd br drawno input s) (splash_cols rd br n (drawno + 1) (input + br_dwidth br))"

definition hex32 :: "int \<Rightarrow> nat" where
  "hex32 i = unat (of_int i :: u32)"

fun splash_rows :: "reg_reader \<Rightarrow> browser \<Rightarrow> nat \<Rightarrow> int \<Rightarrow> int \<Rightarrow> int \<Rightarrow> splash \<Rightarrow> splash option" where
  "splash_rows rd br 0 row drawno input s = Some s"
| "splash_rows rd br (Suc n) row drawno input s =
     (let n' = nat (br_ncols br);
          s = draw ([TTRev False, TTBold False] @ btmove (row + 2) 0 @
            puts ('' '' @ fmt_X 4 (hex32 ((br_offs br + br_ncols br * row) * br_dwidth br)) @ '' '')) s
      in Option.bind (splash_cols rd br n' drawno input s)
           (splash_rows rd br n (row + 1) (drawno + int n') (input + int n' * br_dwidth br)))"

definition brtags :: "string list" where
  "brtags = [''Name:'', ''Offset:'', ''UNS16 L:'', ''UNS16 H:'', ''INT16 L:'', ''INT16 H:'', ''UNS32:'', ''INT32:'',
     ''Hex:'', ''Float:'']"

definition overlay :: "int \<Rightarrow> string" where
  "overlay dwidth =
     (if dwidth = 2 then ''  00    02    04    06    08    0A    0C    0E  ''
      else ''    00        04        08        0C      '')"

text \<open>The byte offset shown for a register; the index is unsigned, the offset is an \<open>int\<close>.\<close>

definition splash_byteoff :: "browser \<Rightarrow> int \<Rightarrow> int" where
  "splash_byteoff br idx =
     (let b = s32 (idx * br_dwidth br) in
      if br_dwshift br < 0 then drop_bit (nat (- br_dwshift br)) b
      else if 0 < br_dwshift br then s32 (push_bit (nat (br_dwshift br)) b)
      else b)"

text \<open>The values of the register under the cursor, beside the table.\<close>

definition splash_values :: "u32 \<Rightarrow> u32 \<Rightarrow> string list" where
  "splash_values v fv =
     (let lo = v AND 0xFFFF; hi = drop_bit 16 (v AND 0xFFFF0000) in
      [pad_right 6 (fmt_u (unat lo)), pad_right 6 (fmt_u (unat hi)),
       pad_right 6 (fmt_d (sint (ucast lo :: u16))), pad_right 6 (fmt_d (sint (ucast hi :: u16))),
       pad_right 11 (fmt_u (unat v)), pad_right 11 (fmt_d (sint v)), fmt_X 8 (unat v), fmt_float8 fv])"

definition splash_lines :: "int \<Rightarrow> int \<Rightarrow> string list \<Rightarrow> tt list" where
  "splash_lines row col ss =
     concat (map (\<lambda>(i, s). btmove (row + int i) col @ puts s) (zip [0..<length ss] ss))"

definition brsplash :: "reg_reader \<Rightarrow> int \<Rightarrow> browser \<Rightarrow> splash option" where
  "brsplash rd rows br =
     (let dwidth = br_dwidth br;
          s = \<lparr>sp_draw = btmove 0 0 @ puts [LF] @ btmove 1 DUMP_COL @ puts (overlay dwidth), sp_reads = [],
               sp_v = 0, sp_fv = 0\<rparr> in
      Option.bind (splash_rows rd br (nat (btnrows rows - 2)) 0 0 (br_offs br * dwidth) s) (\<lambda>s.
        let s = draw [TTPlain] s;
            s = draw (splash_lines ROW_TAG (TO_TAGS br) brtags) s;
            column = TO_TAGS br + TAG_STRLEN;
            idx = uint (of_int (idxchk br (br_sel br + br_offs br)) :: u32) in
        case name_at br idx (uint (of_int (mdata_len br) :: u32)) of
          None \<Rightarrow> None
        | Some nm \<Rightarrow>
            Some (draw (btmove ROW_TAG column @
                (case nm of None \<Rightarrow> [] | Some name \<Rightarrow> [TTBold True] @ puts (pad_right 12 name) @ [TTBold False]) @
                btmove (ROW_TAG + 1) column @ puts (fmt_X 4 (hex32 (splash_byteoff br idx))) @
                splash_lines (ROW_TAG + 2) column (splash_values (sp_v s) (sp_fv s)) @
                (if br_dwshift br \<noteq> 0 then btmove (ROW_TAG + 10) column @ puts ''Modified data width'' else [])) s)))"

section \<open>The buffer list\<close>

definition printabuffer :: "int \<Rightarrow> string \<Rightarrow> tt list" where
  "printabuffer cols s =
     puts (take (nat cols) s) @ [TTRev False] @ puts (replicate (nat (cols - int (length s))) (CHR '' ''))"

definition bufferemptyline :: "int \<Rightarrow> tt list" where
  "bufferemptyline cols = puts (replicate (nat cols) (CHR '' ''))"

text \<open>The lines \<open>i\<close> to \<open>m - 1\<close>, and the buffers that are left.\<close>

fun busplash_lines ::
  "int \<Rightarrow> nat \<Rightarrow> int \<Rightarrow> string option list \<Rightarrow> (tt list \<times> string option list) option" where
  "busplash_lines cols 0 i ps = Some ([], ps)"
| "busplash_lines cols (Suc n) i ps =
     (case ps of
        [] \<Rightarrow> map_option (map_prod ((@) (bufferemptyline cols)) id) (busplash_lines cols n (i + 1) [])
      | None # ps \<Rightarrow> None
      | Some s # ps \<Rightarrow>
          map_option (map_prod ((@) (btmove i 0 @ printabuffer cols s)) id) (busplash_lines cols n (i + 1) ps))"

definition busplash :: "int \<Rightarrow> int \<Rightarrow> int \<Rightarrow> string option list \<Rightarrow> tt list option" where
  "busplash rows cols cpos titles =
     (let nr = btnrows rows;
          tpos = (if nr sdiv 2 < cpos then nr sdiv 2 else cpos);
          p = drop (nat (cpos - tpos)) titles;
          i = max 0 tpos in
      Option.bind (busplash_lines cols (nat tpos) 0 p) (\<lambda>(above, p).
        Option.bind
          (case p of
             [] \<Rightarrow> Some (bufferemptyline cols, [])
           | None # p \<Rightarrow> None
           | Some s # p \<Rightarrow> Some ([TTRev True] @ printabuffer cols s @ [TTRev False], p)) (\<lambda>(here, p).
          map_option (\<lambda>(below, _). above @ btmove i 0 @ here @ below)
            (busplash_lines cols (nat (nr - (i + 1))) (i + 1) p))))"

end
