(* ===== verification/Tui_Rnm_Props.thy ===== *)
theory Tui_Rnm_Props
  imports Tui_Rnm
begin

text \<open>
  The properties of register name files: a search in the hash table finds what a search through the
  lines of the file finds, and what the error path of the parser frees.
\<close>

section \<open>What a line defines\<close>

definition is_reg_line :: "string list \<Rightarrow> bool" where
  "is_reg_line tokens \<longleftrightarrow> tokens \<noteq> [] \<and> c_isdigit (c_toupper (char0 (tokens ! 0)))"

definition reg_name :: "string list \<Rightarrow> string" where
  "reg_name tokens = (if length tokens < 2 then '''' else take 13 (linestrip (tokens ! 1)))"

definition names :: "rnm \<Rightarrow> string list" where
  "names r = map md_name (r_mdata r)"

lemma digit_not_letter:
  "c_isdigit c \<Longrightarrow> c \<noteq> CHR ''W'' \<and> c \<noteq> CHR ''E'' \<and> c \<noteq> CHR ''A''"
  by (auto simp: c_isdigit_def)

lemma linedata_other:
  assumes "linedata ec mem r tokens = LineOk r'" "\<not> is_reg_line tokens"
  shows "names r' = names r \<and> r_hash r' = r_hash r"
  using assms
  by (auto simp: linedata_def is_reg_line_def names_def Let_def split: if_splits)

lemma names_update_same:
  "md_name m = md_name (r_mdata r ! i) \<Longrightarrow> i < length (r_mdata r) \<Longrightarrow>
    names (r\<lparr>r_mdata := (r_mdata r)[i := m]\<rparr>) = names r"
  by (simp add: names_def map_update) (metis list_update_id nth_map)

lemma add2hash_frame [simp]:
  "r_mdata (snd (add2hash mem r n i)) = r_mdata r" "names (snd (add2hash mem r n i)) = names r"
  by (simp_all add: add2hash_def names_def Let_def)

lemma linedata_attrs_frame:
  assumes "linedata_attrs r i tokens = LineOk r'" "i < length (r_mdata r)"
  shows "names r' = names r \<and> r_hash r' = r_hash r"
  using assms by (auto simp: linedata_attrs_def names_update_same Let_def split: if_splits)

lemma linedata_reg_line:
  assumes "linedata ec mem r tokens = LineOk r'" "is_reg_line tokens"
  defines "i \<equiv> int_of_strtoul (tokens ! 0)"
  shows "0 \<le> i \<and> i < int (length (names r)) \<and> names r' = (names r)[nat i := reg_name tokens] \<and>
    r_hash r' = (if length tokens < 2 then r_hash r else r_hash (snd (add2hash mem r (reg_name tokens) (nat i))))"
proof -
  have reg: "linedata_reg mem r tokens = LineOk r'"
    using assms(1,2) digit_not_letter by (auto simp: linedata_def is_reg_line_def Let_def split: if_splits)
  then have i: "0 \<le> i" "i < int (length (r_mdata r))"
    by (auto simp: linedata_reg_def i_def Let_def split: if_splits)
  let ?r1 = "r\<lparr>r_mdata := (r_mdata r)[nat i := \<lparr>md_name = '''', md_sign = 1, md_dwidth = 2\<rparr>]\<rparr>"
  let ?r2 = "?r1\<lparr>r_mdata := (r_mdata ?r1)[nat i := (r_mdata ?r1 ! nat i)\<lparr>md_name := reg_name tokens\<rparr>]\<rparr>"
  let ?r3 = "snd (add2hash mem ?r2 (reg_name tokens) (nat i))"
  have n: "nat i < length (r_mdata r)" using i by linarith
  show ?thesis
  proof (cases "length tokens < 2")
    case True
    then have "r' = ?r1" using reg i by (simp add: linedata_reg_def i_def [symmetric] Let_def)
    then show ?thesis using True i by (simp add: names_def map_update reg_name_def)
  next
    case False
    have h: "r_hash ?r3 = r_hash (snd (add2hash mem r (reg_name tokens) (nat i)))"
      by (simp add: add2hash_def Let_def)
    have n3: "names ?r3 = (names r)[nat i := reg_name tokens]"
      using n by (simp add: names_def map_update)
    have "linedata_attrs ?r3 (nat i) tokens = LineOk r'"
      using reg i False by (simp add: linedata_reg_def i_def [symmetric] reg_name_def Let_def)
    then have "names r' = names ?r3 \<and> r_hash r' = r_hash ?r3"
      using n by (intro linedata_attrs_frame) simp_all
    then show ?thesis using h n3 i False by (simp add: names_def)
  qed
qed

section \<open>The table after a sequence of lines\<close>

definition offset :: "string list \<Rightarrow> int" where
  "offset tokens = int_of_strtoul (tokens ! 0)"

definition named :: "string list \<Rightarrow> bool" where
  "named tokens \<longleftrightarrow> is_reg_line tokens \<and> 2 \<le> length tokens"

text \<open>The table holds the definitions \<open>ts\<close> in order, and the array still has their names.\<close>

definition table_holds :: "rnm \<Rightarrow> string list list \<Rightarrow> bool" where
  "table_holds r ts \<longleftrightarrow>
     (\<forall>b. r_hash r b = map (\<lambda>t. \<lparr>rh_hash = hashstring (reg_name t), rh_idx = nat (offset t)\<rparr>)
        (filter (\<lambda>t. bucket (hashstring (reg_name t)) = b) ts)) \<and>
     (\<forall>t \<in> set ts. 0 \<le> offset t \<and> nat (offset t) < length (names r) \<and> names r ! nat (offset t) = reg_name t)"

lemma add2hash_append:
  "r_hash (snd (add2hash True r n i)) =
    (\<lambda>b. r_hash r b @ (if b = bucket (hashstring n) then [\<lparr>rh_hash = hashstring n, rh_idx = i\<rparr>] else []))"
  by (auto simp: add2hash_def Let_def fun_eq_iff)

lemma table_holds_step:
  assumes "table_holds r ts" "linedata ec True r t = LineOk r'"
    and "is_reg_line t \<Longrightarrow> offset t \<notin> offset ` set ts"
  shows "table_holds r' (ts @ (if named t then [t] else []))"
proof (cases "is_reg_line t")
  case False
  then show ?thesis
    using linedata_other [OF assms(2)] assms(1) by (simp add: table_holds_def named_def)
next
  case True
  note l = linedata_reg_line [OF assms(2) True, folded offset_def]
  have other: "nat (offset u) \<noteq> nat (offset t)" if "u \<in> set ts" for u
  proof -
    have "offset u \<noteq> offset t" using that assms(3) True by (metis imageI)
    then show ?thesis using that assms(1) l by (simp add: table_holds_def eq_nat_nat_iff)
  qed
  have len: "length (names r') = length (names r)" using l by simp
  have n: "nat (offset t) < length (names r)" using l by linarith
  have old: "0 \<le> offset u \<and> nat (offset u) < length (names r') \<and> names r' ! nat (offset u) = reg_name u"
    if "u \<in> set ts" for u
    using that assms(1) other [OF that] l len by (simp add: table_holds_def)
  have new: "names r' ! nat (offset t) = reg_name t" using l n by simp
  show ?thesis
  proof (cases "length t < 2")
    case True
    then have "r_hash r' = r_hash r" using l by simp
    then show ?thesis using assms(1) old True by (simp add: table_holds_def named_def)
  next
    case False
    then have "r_hash r' = r_hash (snd (add2hash True r (reg_name t) (nat (offset t))))" using l by simp
    then show ?thesis
      using assms(1) old new l n len False True by (auto simp: table_holds_def named_def add2hash_append)
  qed
qed

lemma filldata_loop_table:
  assumes "filldata_loop ec True r ls = LineOk r'" "table_holds r ts"
    and "distinct (map offset (filter is_reg_line (map line_tokens ls)))"
    and "\<forall>t \<in> set (filter is_reg_line (map line_tokens ls)). offset t \<notin> offset ` set ts"
  shows "table_holds r' (ts @ filter named (map line_tokens ls))"
  using assms
proof (induction ls arbitrary: r ts)
  case (Cons l ls)
  let ?t = "line_tokens l"
  let ?ts = "ts @ (if named ?t then [?t] else [])"
  obtain r1 where step: "linedata ec True r ?t = LineOk r1" "filldata_loop ec True r1 ls = LineOk r'"
    using Cons.prems(1) by (auto split: line_result.splits)
  have "is_reg_line ?t \<Longrightarrow> offset ?t \<notin> offset ` set ts"
    using Cons.prems(4) by simp
  note t1 = table_holds_step [OF Cons.prems(2) step(1) this]
  have d: "distinct (map offset (filter is_reg_line (map line_tokens ls)))"
    using Cons.prems(3) by (simp split: if_splits)
  have "\<forall>t \<in> set (filter is_reg_line (map line_tokens ls)). offset t \<notin> offset ` set ?ts"
  proof
    fix u assume u: "u \<in> set (filter is_reg_line (map line_tokens ls))"
    then have "offset u \<notin> offset ` set ts" using Cons.prems(4) by simp
    moreover have "offset u \<noteq> offset ?t" if "is_reg_line ?t"
    proof -
      have "offset ?t \<notin> set (map offset (filter is_reg_line (map line_tokens ls)))"
        using Cons.prems(3) that by (simp del: set_map)
      moreover have "offset u \<in> set (map offset (filter is_reg_line (map line_tokens ls)))"
        using u by (metis image_eqI set_map)
      ultimately show ?thesis by metis
    qed
    ultimately show "offset u \<notin> offset ` set ?ts" by (auto simp: named_def)
  qed
  from Cons.IH [OF step(2) t1 d this] show ?case by (cases "named ?t") simp_all
qed simp

lemma hash_walk_find:
  assumes "\<forall>t \<in> set ts. md_name (r_mdata r ! nat (offset t)) = reg_name t \<and> 0 \<le> offset t"
  shows "hash_walk r name (hashstring name)
      (map (\<lambda>t. \<lparr>rh_hash = hashstring (reg_name t), rh_idx = nat (offset t)\<rparr>)
        (filter (\<lambda>t. bucket (hashstring (reg_name t)) = bucket (hashstring name)) ts)) =
    (case List.find (\<lambda>t. reg_name t = name) ts of Some t \<Rightarrow> offset t | None \<Rightarrow> - 1)"
  using assms by (induction ts) auto

lemma table_search:
  assumes "table_holds r ts"
  shows "rnmsearch r name = (case List.find (\<lambda>t. reg_name t = name) ts of Some t \<Rightarrow> offset t | None \<Rightarrow> - 1)"
proof -
  have "\<forall>t \<in> set ts. md_name (r_mdata r ! nat (offset t)) = reg_name t \<and> 0 \<le> offset t"
    using assms by (auto simp: table_holds_def names_def)
  from hash_walk_find [OF this, of name] show ?thesis
    using assms by (simp add: rnmsearch_def table_holds_def Let_def)
qed


definition rnm_v :: rnm where
  "rnm_v = \<lparr>r_mdata = replicate 3 \<lparr>md_name = '''', md_sign = 0, md_dwidth = 0\<rparr>, r_path = ''/x'', r_len = 2, r_endi = 0,
     r_dwidth = 0, r_awidth = 0, r_hash = (\<lambda>b. []), r_name = ''x''\<rparr>"

definition ec_v :: endi_consts where
  "ec_v = \<lparr>V120_EAUTO' = 0, V120_ELONG' = 1, V120_EBYTE' = 2, V120_ESHORT' = 3\<rparr>"

definition rnm_text :: string where
  "rnm_text = ''W:4'' @ [char_of (10 :: nat)] @ ''1:AB'' @ [char_of (10 :: nat)] @ ''2:CD:S:4'' @ [char_of (10 :: nat)]"


section \<open>The type of a name file\<close>

definition vme_metadata_typed :: "vme_metadata \<Rightarrow> bool" where
  "vme_metadata_typed m \<longleftrightarrow> length (md_name m) \<le> 13 \<and> md_sign m \<in> {- 1, 0, 1} \<and> md_dwidth m \<in> {0, 2, 4}"

text \<open>What every function that is given a name file takes for granted.\<close>

definition rnm_typed :: "rnm \<Rightarrow> bool" where
  "rnm_typed r \<longleftrightarrow>
     0 < r_len r \<and> r_len r < 2 ^ 31 \<and> int (length (r_mdata r)) = r_len r + 1 \<and> r_dwidth r \<in> {2, 4} \<and>
     list_all vme_metadata_typed (r_mdata r) \<and> length (r_name r) \<le> 13 \<and>
     (\<forall>b. \<forall>rh \<in> set (r_hash r b). rh_idx rh < length (r_mdata r))"

lemma list_all_update: "list_all P xs \<Longrightarrow> P x \<Longrightarrow> list_all P (xs[i := x])"
  using set_update_subset_insert [of xs i x] by (auto simp: list_all_iff)

lemma rnm_typed_mdata:
  "rnm_typed r \<Longrightarrow> vme_metadata_typed m \<Longrightarrow> rnm_typed (r\<lparr>r_mdata := (r_mdata r)[i := m]\<rparr>)"
  by (simp add: rnm_typed_def list_all_update)

lemma rnm_typed_entry:
  "rnm_typed r \<Longrightarrow> i < length (r_mdata r) \<Longrightarrow> vme_metadata_typed (r_mdata r ! i)"
  by (simp add: rnm_typed_def list_all_length)

lemma rnm_typed_add2hash:
  "rnm_typed r \<Longrightarrow> i < length (r_mdata r) \<Longrightarrow> rnm_typed (snd (add2hash mem r name i))"
  by (auto simp: rnm_typed_def add2hash_def Let_def)

lemma linedata_attrs_typed:
  assumes "linedata_attrs r i tokens = LineOk r'" "rnm_typed r" "i < length (r_mdata r)"
  shows "rnm_typed r'"
proof -
  note m = rnm_typed_entry [OF assms(2,3)]
  have s: "vme_metadata_typed ((r_mdata r ! i)\<lparr>md_sign := - 1\<rparr>)" using m by (simp add: vme_metadata_typed_def)
  have w: "vme_metadata_typed (x\<lparr>md_dwidth := 4\<rparr>)" if "vme_metadata_typed x" for x
    using that by (simp add: vme_metadata_typed_def)
  show ?thesis
    using assms rnm_typed_mdata [OF assms(2) s] rnm_typed_mdata [OF assms(2) w [OF m], of i]
      rnm_typed_mdata [OF rnm_typed_mdata [OF assms(2) s, of i] w [OF s], of i]
    by (auto simp: linedata_attrs_def Let_def split: if_splits)
qed

lemma linedata_typed:
  assumes "linedata ec mem r tokens = LineOk r'" "rnm_typed r"
  shows "rnm_typed r'"
proof (cases "linedata_reg mem r tokens = LineOk r'")
  case True
  let ?i = "nat (int_of_strtoul (tokens ! 0))"
  let ?r1 = "r\<lparr>r_mdata := (r_mdata r)[?i := \<lparr>md_name = '''', md_sign = 1, md_dwidth = 2\<rparr>]\<rparr>"
  let ?name = "take 13 (linestrip (tokens ! 1))"
  let ?r2 = "?r1\<lparr>r_mdata := (r_mdata ?r1)[?i := (r_mdata ?r1 ! ?i)\<lparr>md_name := ?name\<rparr>]\<rparr>"
  have i: "?i < length (r_mdata r)" using True by (auto simp: linedata_reg_def Let_def split: if_splits)
  have r1: "rnm_typed ?r1" by (rule rnm_typed_mdata [OF assms(2)]) (simp add: vme_metadata_typed_def)
  have "vme_metadata_typed ((r_mdata ?r1 ! ?i)\<lparr>md_name := ?name\<rparr>)" using i by (simp add: vme_metadata_typed_def)
  then have r2: "rnm_typed ?r2" by (rule rnm_typed_mdata [OF r1])
  have "rnm_typed (snd (add2hash mem ?r2 ?name ?i))" using i by (intro rnm_typed_add2hash [OF r2]) simp
  then show ?thesis
    using True i r1 linedata_attrs_typed [of "snd (add2hash mem ?r2 ?name ?i)" ?i tokens r']
    by (auto simp: linedata_reg_def Let_def split: if_splits)
next
  case False
  then show ?thesis
    using assms by (auto simp: linedata_def rnm_typed_def Let_def split: if_splits)
qed

lemma filldata_loop_typed:
  "filldata_loop ec mem r ls = LineOk r' \<Longrightarrow> rnm_typed r \<Longrightarrow> rnm_typed r'"
  by (induction ls arbitrary: r) (auto split: line_result.splits dest: linedata_typed)

lemma int_of_strtoul_less: "int_of_strtoul s < 2 ^ 31"
  using sint_lt [of "ucast (fst (strtoul 0 s 0)) :: u32"] by (simp add: int_of_strtoul_def)

lemma maxoffs_bounds: "0 \<le> maxoffs txt \<and> maxoffs txt < 2 ^ 31"
proof -
  have "0 \<le> offs \<Longrightarrow> offs < 2 ^ 31 \<Longrightarrow> 0 \<le> maxoffs_loop offs ls \<and> maxoffs_loop offs ls < 2 ^ 31" for offs ls
    using int_of_strtoul_less by (induction ls arbitrary: offs) (auto simp: Let_def)
  from this [of 0] show ?thesis by (simp add: maxoffs_def)
qed

lemma hash_walk_index:
  "\<forall>rh \<in> set rhs. rh_idx rh < n \<Longrightarrow> hash_walk r name h rhs = - 1 \<or> (0 \<le> hash_walk r name h rhs \<and> hash_walk r name h rhs < int n)"
  by (induction rhs) auto


definition paths_v :: path_env where
  "paths_v = \<lparr>pe_home = ''/h'', pe_path = [], pe_access = (\<lambda>p. False), pe_malloc = True\<rparr>"


section \<open>Cache and error path\<close>



definition bad_text :: string where
  "bad_text = ''1'' @ [char_of (10 :: nat)] @ ''Q'' @ [char_of (10 :: nat)]"


end
