(* ===== verification/Tui_Splash_Props.thy ===== *)
theory Tui_Splash_Props
  imports Tui_Splash Tui_Buffer_Props Tui_Rnm_Props
begin

text \<open>
  What is drawn: the table of registers reads exactly the registers of the page, all in the region, and
  shows the one under the cursor in reverse; the buffer list shows a window of the list with the buffer
  under the cursor in it.
\<close>

section \<open>The cells of the table\<close>

definition names_ok :: "browser \<Rightarrow> bool" where
  "names_ok br \<longleftrightarrow>
     (\<forall>m. br_mdata br = Some m \<longrightarrow> 0 \<le> r_len m \<and> r_len m < 2 ^ 31 \<and> r_len m \<le> int (length (r_mdata m)))"

text \<open>The name files that \<open>rnmparse\<close> returns are of this kind.\<close>

lemma rnm_typed_names_ok: "(\<And>m. br_mdata br = Some m \<Longrightarrow> rnm_typed m) \<Longrightarrow> names_ok br"
  by (force simp: names_ok_def rnm_typed_def)

definition cell_text :: "bool \<Rightarrow> int \<Rightarrow> u32 \<Rightarrow> tt list" where
  "cell_text b width v =
     [TTBold b, TTPut (CHR '' '')] @ puts (if width = 2 then fmt_X 4 (unat (take_bit 16 v)) else fmt_X 8 (unat v)) @
     [TTPut (CHR '' '')]"

text \<open>Nothing is in reverse so far, or exactly the cell with the value of the register at \<open>off\<close> is.\<close>

definition dark :: "splash \<Rightarrow> bool" where
  "dark s \<longleftrightarrow> TTRev True \<notin> set (sp_draw s)"

definition lit :: "reg_reader \<Rightarrow> int \<Rightarrow> int \<Rightarrow> splash \<Rightarrow> bool" where
  "lit rd off width s \<longleftrightarrow>
     (\<exists>pre b k post. sp_draw s = pre @ TTRev True # cell_text b width (rd k off width) @ post \<and>
        TTRev True \<notin> set pre \<and> TTRev True \<notin> set post)"

definition cells_drawn :: "reg_reader \<Rightarrow> browser \<Rightarrow> int \<Rightarrow> nat \<Rightarrow> splash \<Rightarrow> bool" where
  "cells_drawn rd br base n s \<longleftrightarrow>
     set (sp_reads s) = (\<lambda>k. (base + int k * br_dwidth br, br_dwidth br)) ` {..<n} \<and>
     (if br_sel br < int n then lit rd (base + br_sel br * br_dwidth br) (br_dwidth br) s else dark s)"

lemma no_rev_puts [simp]: "TTRev b \<notin> set (puts s)" "TTRev b \<notin> set (btmove r c)" "TTRev b \<notin> set (cell_text b' w v)"
  by (auto simp: puts_def btmove_def cell_text_def)

lemma cells_drawn_draw:
  assumes "cells_drawn rd br base n s" "TTRev True \<notin> set xs"
  shows "cells_drawn rd br base n (draw xs s)"
proof -
  have "dark (draw xs s)" if "dark s" using that assms(2) by (simp add: dark_def draw_def)
  moreover have "lit rd off w (draw xs s)" if "lit rd off w s" for off w
  proof -
    obtain pre b k post where "sp_draw s = pre @ TTRev True # cell_text b w (rd k off w) @ post"
      "TTRev True \<notin> set pre" "TTRev True \<notin> set post"
      using \<open>lit rd off w s\<close> unfolding lit_def by blast
    then show ?thesis
      unfolding lit_def draw_def using assms(2)
      by (intro exI [of _ pre] exI [of _ b] exI [of _ k] exI [of _ "post @ xs"]) simp
  qed
  ultimately show ?thesis using assms(1) by (simp add: cells_drawn_def draw_def)
qed

lemma idxchk_nonneg: "0 \<le> i \<Longrightarrow> 0 \<le> idxchk br i"
  by (simp add: idxchk_def)

lemma name_at_ok:
  assumes "names_ok br" "0 \<le> i"
  shows "\<exists>nm. name_at br i (mdata_len br) = Some nm"
  using assms by (auto simp: names_ok_def name_at_def mdata_len_def split: option.split)

lemma splash_cell_draws:
  assumes "br_dwidth br = 2 \<or> br_dwidth br = 4" "names_ok br" "0 \<le> br_offs br"
    and "cells_drawn rd br base n s"
  shows "\<exists>s'. splash_cell rd br (int n) (base + int n * br_dwidth br) s = Some s' \<and> cells_drawn rd br base (Suc n) s'"
proof -
  let ?w = "br_dwidth br" and ?in = "base + int n * br_dwidth br"
  obtain nm where nm: "name_at br (idxchk br (int n + br_offs br)) (mdata_len br) = Some nm"
    using name_at_ok [OF assms(2)] idxchk_nonneg [of "int n + br_offs br" br] assms(3) by fastforce
  define b where "b = (case nm of None \<Rightarrow> False | Some name \<Rightarrow> name \<noteq> '''')"
  define pre where "pre = (if int n = br_sel br then [TTRev True] else if int n - 1 = br_sel br then [TTRev False] else [])"
  obtain s' k where s': "splash_cell rd br (int n) ?in s = Some s'"
    "sp_draw s' = sp_draw s @ pre @ cell_text b ?w (rd k ?in ?w)"
    "set (sp_reads s') = insert (?in, ?w) (set (sp_reads s))"
    using assms(1) nm
    by (cases "int n = br_sel br"; cases "int n - 1 = br_sel br")
      (auto simp: splash_cell_def b_def [symmetric] read_reg_def draw_def cell_text_def pre_def Let_def)
  have img: "(\<lambda>k. (base + int k * ?w, ?w)) ` {..<Suc n} = insert (?in, ?w) ((\<lambda>k. (base + int k * ?w, ?w)) ` {..<n})"
    by (simp add: lessThan_Suc)
  have reads: "set (sp_reads s') = (\<lambda>k. (base + int k * ?w, ?w)) ` {..<Suc n}"
    using assms(4) s'(3) unfolding img cells_drawn_def by simp
  let ?d = "draw (pre @ cell_text b ?w (rd k ?in ?w)) s"
  have d: "lit rd off w s' = lit rd off w ?d" "dark s' = dark ?d" for off w
    by (simp_all add: lit_def dark_def draw_def s'(2))
  show ?thesis
  proof (cases "int n = br_sel br")
    case True
    then have "dark s" using assms(4) by (simp add: cells_drawn_def)
    then have "lit rd ?in ?w s'"
      unfolding lit_def dark_def s'(2) pre_def using True
      by (intro exI [of _ "sp_draw s"] exI [of _ b] exI [of _ k] exI [of _ "[]"]) simp
    then show ?thesis using s'(1) reads True by (simp add: cells_drawn_def)
  next
    case False
    then have "cells_drawn rd br base n ?d"
      by (intro cells_drawn_draw [OF assms(4)]) (simp add: pre_def)
    moreover have "br_sel br < int (Suc n) \<longleftrightarrow> br_sel br < int n" using False by linarith
    ultimately have "cells_drawn rd br base (Suc n) s'"
      using reads unfolding cells_drawn_def d by simp
    then show ?thesis using s'(1) by blast
  qed
qed

lemma splash_cols_draws:
  assumes "br_dwidth br = 2 \<or> br_dwidth br = 4" "names_ok br" "0 \<le> br_offs br"
    and "cells_drawn rd br base n s"
  shows "\<exists>s'. splash_cols rd br m (int n) (base + int n * br_dwidth br) s = Some s' \<and> cells_drawn rd br base (n + m) s'"
  using assms(4)
proof (induction m arbitrary: n s)
  case (Suc m)
  obtain s1 where s1: "splash_cell rd br (int n) (base + int n * br_dwidth br) s = Some s1" "cells_drawn rd br base (Suc n) s1"
    using splash_cell_draws [OF assms(1-3) Suc.prems] by blast
  show ?case using Suc.IH [OF s1(2)] s1(1) by (simp add: algebra_simps)
qed simp

lemma splash_rows_draws:
  assumes "br_dwidth br = 2 \<or> br_dwidth br = 4" "names_ok br" "0 \<le> br_offs br"
    and "cells_drawn rd br base n s"
  shows "\<exists>s'. splash_rows rd br m row (int n) (base + int n * br_dwidth br) s = Some s' \<and>
    cells_drawn rd br base (n + m * nat (br_ncols br)) s'"
  using assms(4)
proof (induction m arbitrary: n row s)
  case (Suc m)
  let ?hd = "[TTRev False, TTBold False] @ btmove (row + 2) 0 @
      puts ('' '' @ fmt_X 4 (hex32 ((br_offs br + br_ncols br * row) * br_dwidth br)) @ '' '')"
  have "cells_drawn rd br base n (draw ?hd s)" using Suc.prems by (rule cells_drawn_draw) simp
  from splash_cols_draws [OF assms(1-3) this, of "nat (br_ncols br)"] obtain s1 where
    s1: "splash_cols rd br (nat (br_ncols br)) (int n) (base + int n * br_dwidth br) (draw ?hd s) = Some s1"
      "cells_drawn rd br base (n + nat (br_ncols br)) s1"
    by blast
  show ?case
    using Suc.IH [OF s1(2), of "row + 1"] s1(1) by (simp add: algebra_simps)
qed simp

section \<open>The page\<close>

lemma pad_no_rev [simp]:
  "TTRev True \<notin> set (splash_lines row col ss)"
  by (auto simp: splash_lines_def btmove_def puts_def)

lemma lit_draw:
  assumes "lit rd off w s" "TTRev True \<notin> set xs"
  shows "lit rd off w (draw xs s)"
proof -
  obtain pre b k post where "sp_draw s = pre @ TTRev True # cell_text b w (rd k off w) @ post"
    "TTRev True \<notin> set pre" "TTRev True \<notin> set post"
    using assms(1) unfolding lit_def by blast
  then show ?thesis
    unfolding lit_def draw_def using assms(2)
    by (intro exI [of _ pre] exI [of _ b] exI [of _ k] exI [of _ "post @ xs"]) simp
qed

lemma draw_frame [simp]: "sp_reads (draw xs s) = sp_reads s" "sp_v (draw xs s) = sp_v s"
  by (simp_all add: draw_def)



section \<open>The window of the buffer list\<close>

lemma busplash_lines_shown:
  "busplash_lines cols n i (map Some ts) =
     Some (concat (map (\<lambda>k. if k < length ts then btmove (i + int k) 0 @ printabuffer cols (ts ! k) else bufferemptyline cols)
            [0..<n]), map Some (drop n ts))"
proof (induction n arbitrary: i ts)
  case (Suc n)
  have up: "[0..<Suc n] = 0 # map Suc [0..<n]" by (simp add: map_Suc_upt upt_conv_Cons)
  show ?case
  proof (cases ts)
    case Nil
    then show ?thesis using Suc.IH [of "i + 1" "[]"] unfolding up by (simp add: o_def map_prod_def)
  next
    case (Cons t us)
    then show ?thesis
      using Suc.IH [of "i + 1" us] unfolding up by (simp add: o_def map_prod_def algebra_simps cong: if_cong)
  qed
qed simp

definition buffer_titles :: "tui \<Rightarrow> string option list" where
  "buffer_titles t = map (\<lambda>b. Option.bind (g_heap t b) m_title) (g_list t)"

lemma titles_shown:
  assumes "tui_wf t"
  shows "buffer_titles t = map Some (map the (buffer_titles t))"
proof -
  have "\<exists>s. Option.bind (g_heap t b) m_title = Some s" if "b \<in> set (g_list t)" for b
    using list_ok_shown [of "g_heap t" "g_list t" b] assms that by (auto simp: tui_wf_def)
  then show ?thesis by (force simp: buffer_titles_def)
qed

text \<open>C25: from every state of the buffers the program can reach, the buffer list is drawn without following
  NULL: the rows of the page show consecutive buffers, one per row in the order of the list, starting so
  that the row under the cursor is the lower middle of the page or above, and exactly that row, which is
  the buffer under the cursor, is in reverse; the rows behind the last buffer are blank.\<close>

theorem busplash_shows_window:
  assumes "tui_wf t" "4 \<le> rows"
    and "titles = map the (buffer_titles t)" "cur = nat (g_cpos t)" "nr = nat (btnrows rows)" "fst_row = cur - min cur (nr div 2)"
  shows "length titles = length (g_list t) \<and> cur - fst_row < nr \<and>
    busplash rows cols (g_cpos t) (buffer_titles t) =
    Some (concat (map (\<lambda>i.
      if fst_row + i = cur then btmove (int i) 0 @ [TTRev True] @ printabuffer cols (titles ! cur) @ [TTRev False]
      else if fst_row + i < length titles then btmove (int i) 0 @ printabuffer cols (titles ! (fst_row + i))
      else bufferemptyline cols) [0..<nr]))"
proof -
  let ?a = "min cur (nr div 2)"
  have cur: "g_cpos t = int cur" "cur < length titles"
    using assms(1,3,4) by (auto simp: tui_wf_def buffer_titles_def)
  have nr: "btnrows rows = int nr" "0 < nr" using assms(2,5) by (auto simp: btnrows_def)
  have "nr div 2 < nr" using nr(2) by simp
  then have a: "?a < nr" by linarith
  have half: "int nr sdiv 2 = int (nr div 2)" by (simp add: sdiv_nonneg zdiv_int)
  have tpos: "(if btnrows rows sdiv 2 < g_cpos t then btnrows rows sdiv 2 else g_cpos t) = int ?a"
    by (simp add: nr(1) half cur(1) min_def)
  have fst_row: "nat (int cur - int ?a) = fst_row" "fst_row + ?a = cur" using assms(6) by (simp_all add: min_def)
  have titles: "buffer_titles t = map Some titles" using titles_shown [OF assms(1)] assms(3) by simp
  have at_cur: "drop ?a (drop fst_row titles) = titles ! cur # drop (Suc cur) titles"
    using cur(2) fst_row(2) by (simp add: Cons_nth_drop_Suc add.commute)
  let ?row = "\<lambda>i. if fst_row + i = cur then btmove (int i) 0 @ [TTRev True] @ printabuffer cols (titles ! cur) @ [TTRev False]
      else if fst_row + i < length titles then btmove (int i) 0 @ printabuffer cols (titles ! (fst_row + i))
      else bufferemptyline cols"
  have split: "[0..<nr] = [0..<?a] @ [?a] @ map (\<lambda>k. k + Suc ?a) [0..<nr - Suc ?a]"
  proof -
    have "[0..<nr] = [0..<?a] @ [?a..<nr]" using upt_add_eq_append [of 0 ?a "nr - ?a"] a by simp
    also have "[?a..<nr] = ?a # [Suc ?a..<nr]" using a by (rule upt_conv_Cons)
    also have "[Suc ?a..<nr] = map (\<lambda>k. k + Suc ?a) [0..<nr - Suc ?a]" using a unfolding map_add_upt by simp
    finally show ?thesis by simp
  qed
  have above: "map (\<lambda>k. if k < length (drop fst_row titles) then btmove (0 + int k) 0 @ printabuffer cols (drop fst_row titles ! k)
      else bufferemptyline cols) [0..<?a] = map ?row [0..<?a]"
    using fst_row(2) cur(2) by (intro map_cong) auto
  have below: "map (\<lambda>k. if k < length (drop (Suc cur) titles)
        then btmove (int ?a + 1 + int k) 0 @ printabuffer cols (drop (Suc cur) titles ! k) else bufferemptyline cols)
      [0..<nr - Suc ?a] = map ?row (map (\<lambda>k. k + Suc ?a) [0..<nr - Suc ?a])"
    unfolding map_map o_def using fst_row(2) by (intro map_cong) (auto simp: algebra_simps)
  have rest: "nat (int nr - (int ?a + 1)) = nr - Suc ?a" by linarith
  have l1: "busplash_lines cols ?a 0 (map Some (drop fst_row titles)) =
      Some (concat (map ?row [0..<?a]), Some (titles ! cur) # map Some (drop (Suc cur) titles))"
    unfolding busplash_lines_shown above at_cur by simp
  have l2: "busplash_lines cols (nat (int nr - (max 0 (int ?a) + 1))) (max 0 (int ?a) + 1) (map Some (drop (Suc cur) titles)) =
      Some (concat (map ?row (map (\<lambda>k. k + Suc ?a) [0..<nr - Suc ?a])), map Some (drop (nr - Suc ?a) (drop (Suc cur) titles)))"
    unfolding max_def using rest below by (simp only: busplash_lines_shown of_nat_0_le_iff if_True)
  have here: "?row ?a = btmove (int ?a) 0 @ [TTRev True] @ printabuffer cols (titles ! cur) @ [TTRev False]"
    using fst_row(2) by simp
  have "busplash rows cols (g_cpos t) (buffer_titles t) = Some (concat (map ?row [0..<nr]))"
    unfolding busplash_def Let_def tpos unfolding titles cur(1) fst_row(1) drop_map nat_int nr(1) l1
      bind.bind_lunit prod.case list.case option.case l2 option.map split map_append concat_append list.map here
    by simp
  moreover have "length titles = length (g_list t)" using assms(3) by (simp add: buffer_titles_def)
  ultimately show ?thesis using a fst_row(2) by simp
qed

theorem busplash_shows_window_witness:
  "buffer_titles (bufferlist_start (True, True) tui_empty) = [Some ''Buffer list''] \<and>
   (\<exists>ds. busplash 24 80 (g_cpos (bufferlist_start (True, True) tui_empty))
      (buffer_titles (bufferlist_start (True, True) tui_empty)) = Some ds)"
proof -
  let ?t = "bufferlist_start (True, True) tui_empty"
  have t: "tui_wf ?t" by (rule bufferlist_start_wf [OF tui_empty_boot]) simp
  have "buffer_titles ?t = [Some ''Buffer list'']" by code_simp
  then show ?thesis using busplash_shows_window [OF t _ refl refl refl refl, of 24 80] by simp
qed

end
