(* ===== verification/Tui_Session.thy ===== *)
theory Tui_Session
  imports Tui_Main
begin

text \<open>
  The invariant of a session of the browser program and the steps that keep it: the commands of a
  browser, new browsers, prompts and words of a command file, whole command files, and keys. The
  commands \<open>kill\<close> and \<open>write-reg\<close> are left out, as is \<open>load-file\<close> inside a command file.
\<close>

section \<open>What a command of the browser leaves alone\<close>

text \<open>A command only adds to the stores, and what it does does not depend on them.\<close>

definition add_writes :: "reg_write list \<Rightarrow> brbuf \<Rightarrow> brbuf" where
  "add_writes ws b = b\<lparr>bb_writes := ws @ bb_writes b\<rparr>"

lemma add_writes_sel [simp]:
  "bb_br (add_writes ws b) = bb_br b" "bb_rnms (add_writes ws b) = bb_rnms b" "bb_to (add_writes ws b) = bb_to b"
  "brsetto (add_writes ws b) = add_writes ws (brsetto b)" "brwrite1 v (add_writes ws b) = add_writes ws (brwrite1 v b)"
  "add_writes ws b\<lparr>bb_br := br\<rparr> = add_writes ws (b\<lparr>bb_br := br\<rparr>)"
  "add_writes ws b\<lparr>bb_rnms := r, bb_br := br\<rparr> = add_writes ws (b\<lparr>bb_rnms := r, bb_br := br\<rparr>)"
  "set_br (add_writes ws b) mbr = map_option (add_writes ws) (set_br b mbr)"
  by (cases mbr; simp add: add_writes_def brsetto_def brwrite1_def put_reg_def set_br_def Let_def)+

lemma cmd_add_writes:
  assumes "c \<in> set browser_cmds"
  shows "c e (add_writes ws b) = map_option (add_writes ws) (c e b)"
proof -
  have "c \<in> {brditto, brgoto, brgotoname, brzero, brwrite, brchmod, brapp, braddrnm, brrefreshoff, brchrefresh} \<union> set br_moves"
    using assms by (auto simp: browser_cmds_def brklu_def brslu_def)
  moreover have "br_move f e (add_writes ws b) = map_option (add_writes ws) (br_move f e b)" for f
    by (simp add: br_move_def)
  ultimately show ?thesis
    by (auto simp: br_moves_def brditto_def brgoto_def brgotoname_def brzero_def brwrite_def brchmod_def brapp_def
        braddrnm_def brrefreshoff_def brchrefresh_def Let_def split: option.split list.split)
qed

text \<open>The title is replaced by a new name file only; the copy of the new title may fail.\<close>

lemma br_moved_strbar: "br_moved br br' \<Longrightarrow> br_strbar br' = br_strbar br"
  by (cases br; cases br') (simp add: br_moved_def)

lemma brjump_strbar:
  assumes "br_inv rows region b" "0 \<le> v" "v < uint (vr_len region)" "brjump rows v (bb_br b) = Some br'"
  shows "br_strbar br' = br_strbar (bb_br b)"
  using brjump_pos [of rows "bb_br b" v] assms br_moved_strbar by (fastforce simp: br_inv_def)

lemma titlemake_mem [simp]: "\<exists>s. titlemake True name vmeaddr crateid = Some s"
  by (simp add: titlemake_def Let_def)

lemma cmd_strbar:
  assumes "br_inv rows region b" "env_ok rows region e" "c \<in> set browser_cmds" "be_mem e" "c e b = Some b'"
    "br_strbar (bb_br b) \<noteq> None"
  shows "br_strbar (bb_br b') \<noteq> None"
proof -
  have store: "br_strbar (bb_br (brwrite1 v b)) = br_strbar (bb_br b)" for v b
    by (simp add: brwrite1_def put_reg_def Let_def)
  have set_to: "br_strbar (bb_br (brsetto b)) = br_strbar (bb_br b)" for b
    by (simp add: brsetto_def)
  have shape: "br_shape rows (bb_br b)" "br_pos rows (bb_br b)" using assms(1) by (auto simp: br_inv_def)
  have "c \<in> {brditto, brgoto, brgotoname, brzero, brwrite, brchmod, brapp, braddrnm, brrefreshoff, brchrefresh} \<union> set br_moves"
    using assms(3) by (auto simp: browser_cmds_def brklu_def brslu_def)
  then consider "c \<in> {brditto, brzero, brwrite, brchmod, brapp, braddrnm, brrefreshoff, brchrefresh}"
    | "c = brgoto" | "c = brgotoname" | "c \<in> set br_moves" by auto
  then show ?thesis
  proof cases
    case 1
    then show ?thesis
      using assms(4,5,6)
      by (auto simp: brditto_def brzero_def brwrite_def brchmod_def brapp_def braddrnm_def brrefreshoff_def brchrefresh_def
          Let_def store set_to brchmod_br_strbar split: if_splits option.splits list.splits)
  next
    case 2
    have "br_topoffs (bb_br b) \<le> uint (vr_len region)" using assms(1) by (simp add: br_inv_def)
    then show ?thesis
      using 2 assms(2,5,6) brjump_strbar [of rows region "brsetto b"] assms(1)
      by (auto simp: brgoto_def env_ok_def set_br_def set_to Let_def brsetto_def split: if_splits option.splits)
  next
    case 4
    then obtain f where f: "c = br_move f" "f \<in> {brleft, brright, brup, brdn, brpgdn, brpgup, brend, \<lambda>rows. brhome}"
      by (auto simp: br_moves_def)
    then show ?thesis
      using br_move_pos [OF shape f(2)] br_moved_strbar assms(2,5,6) by (auto simp: br_move_def env_ok_def)
  next
    case 3
    show ?thesis
    proof (cases "be_keyboard e"; cases "bb_rnms b"; cases "be_gets e")
      fix rnm w
      assume k: "be_keyboard e" "bb_rnms b = Some rnm" "be_gets e = Some w"
      let ?v = "rnmsearch rnm w * br_dwidth (bb_br b)"
      have "rnmsearch rnm w * 4 < uint (vr_len region)" "br_dwidth (bb_br b) = 2 \<or> br_dwidth (bb_br b) = 4"
        using assms(1) k(2) by (auto simp: br_inv_def rnm_fits_def br_shape_def)
      then have "0 \<le> rnmsearch rnm w \<Longrightarrow> 0 \<le> ?v \<and> ?v < uint (vr_len region)" by auto
      then show ?thesis
        using 3 k assms(1,2,5,6) brjump_strbar [of rows region "brsetto b" ?v]
        by (auto simp: brgotoname_def env_ok_def set_br_def set_to Let_def brsetto_def split: if_splits)
    qed (use 3 assms(5,6) in \<open>auto simp: brgotoname_def set_to Let_def\<close>)
  qed
qed

section \<open>The invariant of a session\<close>

text \<open>
  \<open>L\<close> is a length that every region has and that every name file fits. A browser whose buffer is
  allocated is at rest: its cursor is on the page and the page in the region.
\<close>

definition name_file_ok :: "int \<Rightarrow> rnm \<Rightarrow> bool" where
  "name_file_ok L m \<longleftrightarrow>
     (r_dwidth m = 2 \<or> r_dwidth m = 4) \<and> r_len m * r_dwidth m \<le> L \<and> (\<forall>name. rnmsearch m name * 4 < L)"

definition browser_of :: "tbuffer \<Rightarrow> browser \<Rightarrow> brbuf" where
  "browser_of x br = \<lparr>bb_rnms = b_rnms x, bb_br = br, bb_writes = [], bb_to = 0\<rparr>"

definition browsers_ok :: "int \<Rightarrow> int \<Rightarrow> (nat \<Rightarrow> tbuffer option) \<Rightarrow> bool" where
  "browsers_ok rows L h \<longleftrightarrow>
     (\<forall>b x br. h b = Some x \<longrightarrow> b_priv x = Some br \<longrightarrow>
        L \<le> uint (vr_len (br_region br)) \<and> br_inv rows (br_region br) (browser_of x br))"

definition ui_ok :: "int \<Rightarrow> int \<Rightarrow> tui \<Rightarrow> bool" where
  "ui_ok rows L t \<longleftrightarrow>
     tui_wf t \<and> (\<exists>l \<in> set (g_list t). g_lastbuf t = Some l) \<and> browsers_ok rows L (g_heap t)"

definition session_env :: "int \<Rightarrow> int \<Rightarrow> inp_env \<Rightarrow> bool" where
  "session_env rows L e \<longleftrightarrow>
     ie_rows e = rows \<and> 9 \<le> rows \<and> 16 * (rows - 5) \<le> 32768 \<and> L \<le> 32768 \<and> fst (snd (ie_mem e)) \<and>
     (\<forall>s m. ie_rnmparse e s = Some m \<longrightarrow> name_file_ok L m) \<and>
     (\<forall>crate addr len region. ie_map e crate addr len = Some region \<longrightarrow> vr_len region = of_int len)"

lemma name_file_fits:
  "name_file_ok L m \<Longrightarrow> L \<le> uint (vr_len region) \<Longrightarrow>
    rnm_fits region m \<and> r_len m * r_dwidth m \<le> uint (vr_len region) \<and> (r_dwidth m = 2 \<or> r_dwidth m = 4)"
  unfolding name_file_ok_def rnm_fits_def by (meson less_le_trans order_trans)

text \<open>A step that returns, keeps the invariant and frees no buffer.\<close>

definition ui_step :: "int \<Rightarrow> int \<Rightarrow> tui \<Rightarrow> tui option \<Rightarrow> bool" where
  "ui_step rows L t r \<longleftrightarrow> (\<exists>t'. r = Some t' \<and> ui_ok rows L t' \<and> set (g_list t) \<subseteq> set (g_list t'))"

lemma buffergoto_frame:
  "buffergoto p t = Some t' \<Longrightarrow> g_heap t' = g_heap t \<and> g_lastbuf t' = g_buffer t \<and> g_list t' = g_list t"
  by (auto simp: buffergoto_def Let_def split: option.splits)

lemma ui_goto:
  assumes "ui_ok rows L t" "buffergoto p t = Some t'" "tui_wf t'"
  shows "ui_step rows L t (Some t')"
  using assms buffergoto_frame [OF assms(2)] by (auto simp: ui_step_def ui_ok_def tui_wf_def)

lemma ui_goto_in:
  assumes "ui_ok rows L t" "b \<in> set (g_list t)"
  shows "ui_step rows L t (buffergoto (Some b) t)"
  using buffergoto_wf [of t b] assms ui_goto by (fastforce simp: ui_ok_def)

lemma ui_switch:
  assumes "ui_ok rows L t"
  shows "ui_step rows L t (buffernext t)" "ui_step rows L t (bufferback t)" "ui_step rows L t (buffergoto (g_headbuf t) t)"
    "ui_step rows L t (bugoto t)"
proof -
  have wf: "tui_wf t" using assms by (simp add: ui_ok_def)
  obtain i where "g_buffer t = Some (g_list t ! i)" "i < length (g_list t)" by (rule tui_wf_current [OF wf])
  then obtain t' where t': "buffernext t = Some t'" "tui_wf t'" using buffernext_wf [OF wf] by blast
  then obtain p where "buffergoto p t = Some t'"
    by (auto simp: buffernext_def Let_def split: option.splits if_splits)
  then show "ui_step rows L t (buffernext t)" using t' ui_goto [OF assms] by simp
  show "ui_step rows L t (bufferback t)"
    using assms ui_goto_in [OF assms] unfolding bufferback_def by (auto simp: ui_ok_def)
  have "\<exists>h. g_headbuf t = Some h \<and> h \<in> set (g_list t)"
    using wf by (cases "g_list t") (auto simp: g_headbuf_def tui_wf_def list_ok_def)
  then show "ui_step rows L t (buffergoto (g_headbuf t) t)" using ui_goto_in [OF assms] by auto
  have c: "0 \<le> g_cpos t" "g_cpos t < int (length (g_list t))" using wf by (auto simp: tui_wf_def)
  then have "g_list t ! nat (g_cpos t) \<in> set (g_list t)" by (intro nth_mem) simp
  then show "ui_step rows L t (bugoto t)" using pos2buf_in [OF c] ui_goto_in [OF assms] by (simp add: bugoto_def)
qed

lemma ui_cpos: "ui_ok rows L t \<Longrightarrow> tui_wf (t\<lparr>g_cpos := c\<rparr>) \<Longrightarrow> ui_step rows L t (Some (t\<lparr>g_cpos := c\<rparr>))"
  by (simp add: ui_step_def ui_ok_def)

lemma cursor_frame:
  "\<exists>c. buup t = t\<lparr>g_cpos := c\<rparr>" "budn t = Some t' \<Longrightarrow> \<exists>c. t' = t\<lparr>g_cpos := c\<rparr>" "\<exists>c. bupgup rows t = t\<lparr>g_cpos := c\<rparr>"
  "bupgdn rows t = Some t' \<Longrightarrow> \<exists>c. t' = t\<lparr>g_cpos := c\<rparr>"
proof -
  have same: "\<exists>c. t = t\<lparr>g_cpos := c\<rparr>" for t :: tui by (rule exI [of _ "g_cpos t"]) simp
  show "\<exists>c. buup t = t\<lparr>g_cpos := c\<rparr>" unfolding buup_def using same by auto
  show "budn t = Some t' \<Longrightarrow> \<exists>c. t' = t\<lparr>g_cpos := c\<rparr>"
    unfolding budn_def using same by (auto split: option.splits if_splits)
  show "\<exists>c. bupgup rows t = t\<lparr>g_cpos := c\<rparr>" unfolding bupgup_def by blast
  show "bupgdn rows t = Some t' \<Longrightarrow> \<exists>c. t' = t\<lparr>g_cpos := c\<rparr>"
    unfolding bupgdn_def using same by (auto split: option.splits)
qed

lemma ui_cursor:
  assumes "ui_ok rows L t" "9 \<le> rows"
  shows "ui_step rows L t (Some (buup t))" "ui_step rows L t (budn t)" "ui_step rows L t (Some (bupgup rows t))"
    "ui_step rows L t (bupgdn rows t)"
proof -
  have wf: "tui_wf t" using assms(1) by (simp add: ui_ok_def)
  have "3 \<le> rows" using assms(2) by simp
  note c = cursor_wf [OF wf this]
  show "ui_step rows L t (Some (buup t))"
    using c(1) cursor_frame(1) [of t] ui_cpos [OF assms(1)] by metis
  show "ui_step rows L t (Some (bupgup rows t))"
    using c(3) cursor_frame(3) [of rows t] ui_cpos [OF assms(1)] by metis
  show "ui_step rows L t (budn t)"
    using c(2) cursor_frame(2) [of t] ui_cpos [OF assms(1)] by metis
  show "ui_step rows L t (bupgdn rows t)"
    using c(4) cursor_frame(4) [of rows t] ui_cpos [OF assms(1)] by metis
qed

section \<open>Commands of a browser\<close>

definition prog_ok :: "int \<Rightarrow> int \<Rightarrow> prog \<Rightarrow> bool" where
  "prog_ok rows L p \<longleftrightarrow>
     ui_ok rows L (p_tui p) \<and> length (ts_bufs (p_tok p)) = NTOKENS \<and> ts_ptok (p_tok p) < NTOKENS"

text \<open>
  A call ends the program, has not come to its end, or returns: then the invariant holds, no buffer was
  freed, and the program reads its input where it read it before.
\<close>

definition prog_step :: "int \<Rightarrow> int \<Rightarrow> prog \<Rightarrow> prog res \<Rightarrow> bool" where
  "prog_step rows L p r \<longleftrightarrow>
     r = Quit \<or> r = NoEnd \<or>
     (\<exists>q. r = Ret q \<and> prog_ok rows L q \<and> same_level p q \<and> set (g_list (p_tui p)) \<subseteq> set (g_list (p_tui q)))"

lemma prog_step_simps [simp]:
  "prog_step rows L p (Ret p) = prog_ok rows L p" "prog_step rows L p Quit" "prog_step rows L p NoEnd"
  by (auto simp: prog_step_def)

lemma prog_step_tui:
  "prog_ok rows L p \<Longrightarrow> ui_ok rows L t \<Longrightarrow> set (g_list (p_tui p)) \<subseteq> set (g_list t) \<Longrightarrow>
    prog_step rows L p (Ret (p\<lparr>p_tui := t\<rparr>))"
  by (simp add: prog_step_def prog_ok_def same_level_def)

lemma prog_step_lift:
  assumes "prog_ok rows L p" "ui_step rows L (p_tui p) (f (p_tui p))"
  shows "prog_step rows L p (lift_tui f p)"
  using assms prog_step_tui [OF assms(1)] by (auto simp: ui_step_def lift_tui_def)

lemma ui_browser:
  assumes "ui_ok rows L t" "g_heap t b = Some x" "b_mode x = BRMODE"
  obtains br where "b_priv x = Some br" "br_strbar br \<noteq> None" "b \<in> set (g_list t)"
    "L \<le> uint (vr_len (br_region br))" "br_inv rows (br_region br) (browser_of x br)"
proof -
  have ok: "list_ok (g_heap t) (g_list t)" and b: "b \<in> set (g_list t)"
    using assms(1,2) by (auto simp: ui_ok_def tui_wf_def)
  have "b \<noteq> hd (g_list t)" using ok assms(2,3) by (auto simp: list_ok_def)
  then have "b \<in> set (tl (g_list t))" using list_ok_split [OF ok b] by blast
  then obtain br where "b_priv x = Some br" "br_strbar br \<noteq> None" using ok assms(2) by (auto simp: list_ok_def)
  then show ?thesis using that b assms(1,2) by (auto simp: ui_ok_def browsers_ok_def)
qed

lemma ui_update:
  assumes "ui_ok rows L t" "g_heap t b = Some x" "b_mode x = BRMODE" "br_strbar br' \<noteq> None"
    "L \<le> uint (vr_len (br_region br'))" "br_inv rows (br_region br') (browser_of (x\<lparr>b_rnms := r\<rparr>) br')"
  shows "ui_ok rows L (t\<lparr>g_heap := (g_heap t)(b \<mapsto> x\<lparr>b_rnms := r, b_priv := Some br'\<rparr>), g_writes := ws, g_to := to\<rparr>)"
proof -
  have "list_ok ((g_heap t)(b \<mapsto> x\<lparr>b_rnms := r, b_priv := Some br'\<rparr>)) (g_list t)"
    using assms(1-4) by (auto simp: ui_ok_def tui_wf_def list_ok_def)
  moreover have "b \<in> set (g_list t)" using assms(1,2) by (auto simp: ui_ok_def tui_wf_def)
  moreover have "browsers_ok rows L ((g_heap t)(b \<mapsto> x\<lparr>b_rnms := r, b_priv := Some br'\<rparr>))"
    using assms(1,5,6) by (auto simp: ui_ok_def browsers_ok_def browser_of_def)
  ultimately show ?thesis using assms(1) by (auto simp: ui_ok_def tui_wf_def)
qed

lemma prog_step_run_br:
  assumes "session_env rows L e" "prog_ok rows L p" "g_heap (p_tui p) b = Some x" "b_mode x = BRMODE"
    "c \<in> set browser_cmds"
  shows "prog_step rows L p (run_br e c b p)"
proof -
  let ?t = "p_tui p"
  have ui: "ui_ok rows L ?t" using assms(2) by (simp add: prog_ok_def)
  obtain br where br: "b_priv x = Some br" "br_strbar br \<noteq> None" "L \<le> uint (vr_len (br_region br))"
    "br_inv rows (br_region br) (browser_of x br)"
    by (rule ui_browser [OF ui assms(3,4)])
  define be where "be = \<lparr>be_rows = ie_rows e, be_keyboard = iskeyboard p, be_gets = fst (ask_str p), be_val = fst (ask_val p),
    be_tokens = next_n NARGS (ptok (p_tok p)), be_rnmparse = ie_rnmparse e, be_mem = fst (snd (ie_mem e))\<rparr>"
  have "rnm_fits (br_region br) m" if "ie_rnmparse e s = Some m" for s m
    using that assms(1) name_file_fits [OF _ br(3)] unfolding session_env_def by blast
  then have env: "env_ok rows (br_region br) be" "be_mem be"
    using assms(1) by (auto simp: be_def env_ok_def session_env_def)
  let ?b0 = "(browser_of x br)\<lparr>bb_to := g_to ?t\<rparr>"
  have b0: "br_inv rows (br_region br) ?b0" "br_strbar (bb_br ?b0) \<noteq> None"
    using br(4) by simp (use br(2) in \<open>simp add: browser_of_def\<close>)
  obtain b' where b': "c be ?b0 = Some b'" "br_inv rows (br_region br) b'"
    using cmd_inv [OF b0(1) env(1) assms(5)] by (auto simp: keeps_inv_def)
  have "\<lparr>bb_rnms = b_rnms x, bb_br = br, bb_writes = g_writes ?t, bb_to = g_to ?t\<rparr> = add_writes (g_writes ?t) ?b0"
    by (simp add: add_writes_def browser_of_def)
  then have "run_br e c b p = Ret (p\<lparr>p_tui := ?t\<lparr>g_heap := (g_heap ?t)(b \<mapsto> x\<lparr>b_rnms := bb_rnms b', b_priv := Some (bb_br b')\<rparr>),
      g_writes := g_writes ?t @ bb_writes b', g_to := bb_to b'\<rparr>\<rparr>)"
    using cmd_add_writes [OF assms(5), of be "g_writes ?t" ?b0] b'(1) assms(3) br(1)
    unfolding run_br_def be_def [symmetric] Let_def by (simp add: add_writes_def)
  moreover have "ui_ok rows L (?t\<lparr>g_heap := (g_heap ?t)(b \<mapsto> x\<lparr>b_rnms := bb_rnms b', b_priv := Some (bb_br b')\<rparr>),
      g_writes := g_writes ?t @ bb_writes b', g_to := bb_to b'\<rparr>)"
  proof (rule ui_update [OF ui assms(3,4)])
    show "br_strbar (bb_br b') \<noteq> None" by (rule cmd_strbar [OF b0(1) env(1) assms(5) env(2) b'(1) b0(2)])
    have "br_region (bb_br b') = br_region br" using b'(2) by (simp add: br_inv_def)
    then show "L \<le> uint (vr_len (br_region (bb_br b')))"
      "br_inv rows (br_region (bb_br b')) (browser_of (x\<lparr>b_rnms := bb_rnms b'\<rparr>) (bb_br b'))"
      using br(3) b'(2) by (auto simp: br_inv_def browser_of_def)
  qed
  ultimately show ?thesis using prog_step_tui [OF assms(2)] by simp
qed

section \<open>New browsers\<close>

lemma browsernew_cases:
  obtains (failed) "browsernew mem rows junk name region metadata crateid t = (None, t)"
  | (made) t' ps x where "browsernew mem rows junk name region metadata crateid t = (Some (g_fresh t), t')"
      "g_heap t' = (g_heap t)(g_fresh t \<mapsto> x)" "b_rnms x = metadata"
      "b_priv x = Some (browser_init rows junk ps region metadata crateid)"
      "g_list t' = g_fresh t # g_list t" "g_lastbuf t' = g_lastbuf t"
proof -
  obtain m1 m2 m3 where mem: "mem = (m1, m2, m3)" by (cases mem) auto
  define ps where "ps = titlemake m2 (case metadata of Some m \<Rightarrow> r_name m | None \<Rightarrow> ''(no name)'') (vme_addr_int region) crateid"
  define br where "br = browser_init rows junk ps region metadata crateid"
  note eq = browsernew_def [of mem rows junk name region metadata crateid t, unfolded mem prod.case Let_def,
    folded ps_def br_def, folded mem]
  show ?thesis
  proof (cases "m1 \<and> ps \<noteq> None \<and> fst m3")
    case True
    then show ?thesis using eq made by (simp add: buffernew_def bufferadd2list_def br_def Let_def)
  next
    case False
    then show ?thesis using eq failed by (auto simp: buffernew_def)
  qed
qed

lemma new_browser_ok:
  assumes "region_ok rows region" "L \<le> uint (vr_len region)" "\<And>m. metadata = Some m \<Longrightarrow> name_file_ok L m"
    "browsers_ok rows L h" "b_rnms x = metadata" "b_priv x = Some (browser_init rows junk ps region metadata crateid)"
  shows "browsers_ok rows L (h(b \<mapsto> x))"
proof -
  let ?br = "browser_init rows junk ps region metadata crateid"
  have "br_inv rows region \<lparr>bb_rnms = metadata, bb_br = ?br, bb_writes = [], bb_to = 0\<rparr>"
    using name_file_fits [OF _ assms(2)] assms(3) by (intro browser_init_inv [OF assms(1)]) blast+
  then have "br_inv rows (br_region ?br) (browser_of x ?br)" "br_region ?br = region"
    using assms(5) by (simp_all add: br_inv_def browser_of_def)
  then show ?thesis using assms(2,4,6) by (auto simp: browsers_ok_def)
qed

lemma prog_step_new_browser:
  assumes "session_env rows L e" "prog_ok rows L p" "region_ok rows region" "L \<le> uint (vr_len region)"
    "\<And>m. rnm = Some m \<Longrightarrow> name_file_ok L m"
  shows "prog_step rows L p (new_browser e name region rnm crateid p)"
proof -
  let ?t = "p_tui p"
  have ui: "ui_ok rows L ?t" and rows: "ie_rows e = rows"
    using assms(1,2) by (auto simp: prog_ok_def session_env_def)
  show ?thesis
  proof (cases rule: browsernew_cases [of "ie_mem e" rows "ie_junk e" name region rnm crateid ?t])
    case failed
    then show ?thesis using assms(2) rows by (simp add: new_browser_def)
  next
    case (made t' ps x)
    have wf: "tui_wf (buffershuffle t')"
      using browsernew_wf [of ?t "ie_mem e" rows "ie_junk e" name region rnm crateid] ui made(1) by (simp add: ui_ok_def)
    have "browsers_ok rows L (g_heap t')"
      unfolding made(2) using ui by (intro new_browser_ok [OF assms(3-5) _ made(3,4)]) (auto simp: ui_ok_def)
    moreover have "g_heap (buffershuffle t') = g_heap t'" "g_lastbuf (buffershuffle t') = g_lastbuf ?t"
      "set (g_list (buffershuffle t')) = insert (g_fresh ?t) (set (g_list ?t))"
      using made(5,6) by (auto simp: buffershuffle_def split: list.splits)
    ultimately have "ui_ok rows L (buffershuffle t')" "set (g_list ?t) \<subseteq> set (g_list (buffershuffle t'))"
      using wf ui by (auto simp: ui_ok_def)
    then show ?thesis
      using made(1) rows prog_step_tui [OF assms(2)] by (simp add: new_browser_def)
  qed
qed

lemma session_region:
  assumes "session_env rows L e" "vr_len region = 32768 \<or> vr_len region = 65536"
  shows "region_ok rows region" "L \<le> uint (vr_len region)"
  using assms by (auto simp: session_env_def region_ok_def)

lemma prog_step_add_dummy:
  assumes "session_env rows L e" "prog_ok rows L p"
  shows "prog_step rows L p (add_dummy e base b p)"
  unfolding add_dummy_def
  using assms by (cases "base = None") (auto intro!: prog_step_new_browser session_region)

lemma prog_step_add_vme:
  assumes "session_env rows L e" "prog_ok rows L p"
  shows "prog_step rows L p (add_vme_checked e crateid vmeaddr rnmfile p)"
proof (cases "ie_map e crateid vmeaddr 65536")
  case (Some region)
  then have "vr_len region = 65536" using assms(1) by (auto simp: session_env_def)
  then have "prog_step rows L p (new_browser e ''loaded VME'' region (Option.bind rnmfile (ie_rnmparse e)) 1 p)"
    using session_region [OF assms(1)] assms(1)
    by (intro prog_step_new_browser [OF assms]) (auto simp: session_env_def bind_eq_Some_conv)
  then show ?thesis using assms(2) Some by (simp add: add_vme_checked_def add_vme_def)
qed (use assms(2) in \<open>simp add: add_vme_checked_def add_vme_def\<close>)
section \<open>Prompts and commands\<close>

lemma prog_ok_current:
  assumes "prog_ok rows L p"
  obtains b x where "g_buffer (p_tui p) = Some b" "g_heap (p_tui p) b = Some x" "b \<in> set (g_list (p_tui p))"
proof -
  have wf: "tui_wf (p_tui p)" using assms by (simp add: prog_ok_def ui_ok_def)
  then obtain b where b: "g_buffer (p_tui p) = Some b" "b \<in> set (g_list (p_tui p))" by (auto simp: tui_wf_def)
  then obtain x where "g_heap (p_tui p) b = Some x" using wf unfolding tui_wf_def by blast
  then show ?thesis using that b by blast
qed

lemma lookup_in:
  "keylookupbytable klu c = Some fn \<Longrightarrow> (c, fn) \<in> set klu"
  "stringlookupbytable slu s = Some fn \<Longrightarrow> (s, fn) \<in> set slu"
  by (induction klu c rule: keylookupbytable.induct; simp split: if_splits)
    (induction slu s rule: stringlookupbytable.induct; simp split: if_splits)

lemma ui_ok_to [simp]: "ui_ok rows L (t\<lparr>g_to := n\<rparr>) = ui_ok rows L t"
  by (simp add: ui_ok_def tui_wf_def)

text \<open>An answer or a word has been taken from the input.\<close>

definition asked :: "prog \<Rightarrow> prog \<Rightarrow> bool" where
  "asked p q \<longleftrightarrow> p_tui q = p_tui p \<and> same_input p q"

lemma asked_input:
  "ask_str p = (r, q) \<Longrightarrow> asked p q" "ask_val p = (v, q) \<Longrightarrow> asked p q" "next_token p = (r, q) \<Longrightarrow> asked p q"
  using same_input_ask [of p]
  by (auto simp: asked_def ask_str_def ask_val_def next_token_def split: list.splits prod.splits)

lemma asked_trans: "asked p q \<Longrightarrow> asked q r \<Longrightarrow> asked p r"
  by (auto simp: asked_def intro: same_input_trans)

lemma prog_ok_same:
  "same_level p q \<Longrightarrow> ui_ok rows L (p_tui q) = ui_ok rows L (p_tui p) \<Longrightarrow> prog_ok rows L q = prog_ok rows L p"
  by (auto simp: prog_ok_def same_level_def)

lemma prog_ok_asked: "asked p q \<Longrightarrow> prog_ok rows L q = prog_ok rows L p"
  by (rule prog_ok_same) (simp_all add: asked_def same_input_level)

lemma prog_step_same:
  assumes "same_level p q" "set (g_list (p_tui p)) \<subseteq> set (g_list (p_tui q))" "prog_step rows L q r"
  shows "prog_step rows L p r"
  using assms(3) same_level_trans [OF assms(1)] order_trans [OF assms(2)] unfolding prog_step_def by blast

lemma prog_step_from: "asked p q \<Longrightarrow> prog_step rows L q r \<Longrightarrow> prog_step rows L p r"
  by (rule prog_step_same) (simp_all add: asked_def same_input_level)

lemma prog_step_asked: "asked p q \<Longrightarrow> prog_ok rows L p \<Longrightarrow> prog_step rows L p (Ret q)"
  using prog_ok_asked by (intro prog_step_from [of p q]) simp_all

lemma prog_step_addvme:
  assumes "session_env rows L e" "prog_ok rows L p"
  shows "prog_step rows L p (inpaddvme e b p)"
proof -
  have add: "prog_step rows L p (add_vme_checked e c a f q)" if "asked p q" for c a f q
    using that assms by (intro prog_step_from [OF that] prog_step_add_vme) (simp_all add: prog_ok_asked)
  note stop = prog_step_asked [OF _ assms(2)]
  show ?thesis
  proof (cases "iskeyboard p")
    case True
    obtain v1 p1 where 1: "ask_val p = (v1, p1)" by fastforce
    obtain v2 p2 where 2: "ask_val p1 = (v2, p2)" by fastforce
    obtain s p3 where 3: "ask_str p2 = (s, p3)" by fastforce
    have "asked p p1" "asked p p2" "asked p p3"
      using asked_input(2) [OF 1] asked_input(2) [OF 2] asked_input(1) [OF 3] asked_trans by blast+
    then show ?thesis
      using add stop True unfolding inpaddvme_def by (auto simp: 1 2 3 split: option.split)
  next
    case False
    obtain s p1 where 1: "next_token p = (s, p1)" by fastforce
    obtain a p2 where 2: "next_token p1 = (a, p2)" by fastforce
    obtain f p3 where 3: "next_token p2 = (f, p3)" by fastforce
    have "asked p p1" "asked p p2" "asked p p3"
      using asked_input(3) [OF 1] asked_input(3) [OF 2] asked_input(3) [OF 3] asked_trans by blast+
    then show ?thesis
      using add stop False unfolding inpaddvme_def by (auto simp: 1 2 3 split: option.split)
  qed
qed

lemma prog_step_setto:
  assumes "prog_ok rows L p" "b \<in> set (g_list (p_tui p))"
  shows "prog_step rows L p (setto b p)"
proof -
  obtain x where "g_heap (p_tui p) b = Some x" using assms by (auto simp: prog_ok_def ui_ok_def tui_wf_def)
  then show ?thesis
    using assms(1) unfolding setto_def
    by (intro prog_step_lift) (simp_all add: ui_step_def m_setto_def prog_ok_def)
qed

definition safe_word :: "string \<Rightarrow> bool" where
  "safe_word w \<longleftrightarrow> w \<notin> {''kill'', ''load-file'', ''write-reg''}"

lemma prog_step_inpslu:
  assumes "session_env rows L e" "prog_ok rows L p"
    "safe_word w \<or> w = ''load-file'' \<and> (\<forall>b. prog_step rows L p (load b p))"
    "stringlookupbytable (inpslu e base load) w = Some fn"
  shows "prog_step rows L p (fn b p)"
proof -
  have ui: "ui_ok rows L (p_tui p)" using assms(2) by (simp add: prog_ok_def)
  have "fn \<in> {inphome, inpquit, inpnext, inptoggle, inpaddvme e, add_dummy e base} \<or>
      fn = load \<and> (\<forall>b. prog_step rows L p (load b p))"
    using lookup_in(2) [OF assms(4)] assms(3) by (auto simp: inpslu_def safe_word_def)
  then show ?thesis
    using ui_switch(1-3) [OF ui] prog_step_lift [OF assms(2)] prog_step_addvme [OF assms(1,2)]
      prog_step_add_dummy [OF assms(1,2)] assms(2)
    by (auto simp: inphome_def inpquit_def inpnext_def inptoggle_def)
qed

lemma prog_step_b_slu:
  assumes "session_env rows L e" "prog_ok rows L p" "w \<noteq> ''write-reg''" "g_heap (p_tui p) b = Some x"
    "stringlookupbytable (b_slu e (b_mode x)) w = Some fn"
  shows "prog_step rows L p (fn b p)"
proof (cases "b_mode x")
  case BRMODE
  then obtain c where "fn = run_br e c" "c \<in> set (map snd (filter (\<lambda>(n, c). n \<noteq> ''write-reg'') brslu))"
    using lookup_in(2) [OF assms(5)] assms(3) by (force simp: b_slu_def)
  then show ?thesis
    using prog_step_run_br [OF assms(1,2,4) BRMODE, of c] by (simp add: browser_cmds_def)
qed (use assms(5) in \<open>simp add: b_slu_def\<close>)

lemma prog_step_bind:
  assumes "prog_step rows L p r"
    "\<And>q. r = Ret q \<Longrightarrow> prog_ok rows L q \<Longrightarrow> same_level p q \<Longrightarrow> set (g_list (p_tui p)) \<subseteq> set (g_list (p_tui q)) \<Longrightarrow>
      prog_step rows L q (f q)"
  shows "prog_step rows L p (rbind r f)"
proof (cases r)
  case (Ret q)
  then have q: "prog_ok rows L q" "same_level p q" "set (g_list (p_tui p)) \<subseteq> set (g_list (p_tui q))"
    using assms(1) by (auto simp: prog_step_def)
  have "prog_step rows L q (f q)" by (rule assms(2) [OF Ret q])
  then show ?thesis using Ret prog_step_same [OF q(2,3)] by simp
qed (use assms(1) in \<open>auto simp: prog_step_def\<close>)

text \<open>A command, typed or read: the word decides whether it is safe.\<close>

lemma prog_step_command:
  assumes "session_env rows L e" "prog_ok rows L p" "pbuf \<in> set (g_list (p_tui p))"
    "\<And>w q. ask_command p = (Some w, q) \<Longrightarrow> prog_ok rows L q \<Longrightarrow> g_list (p_tui q) = g_list (p_tui p) \<Longrightarrow>
      safe_word w \<or> w = ''load-file'' \<and> (\<forall>b \<in> set (g_list (p_tui q)). prog_step rows L q (load b q))"
  shows "prog_step rows L p (inpcommand_with e base load pbuf p)"
proof -
  obtain s q where q: "ask_command p = (s, q)" by fastforce
  let ?p = "p\<lparr>p_tui := (p_tui p)\<lparr>g_to := -1\<rparr>\<rparr>"
  have "asked (if iskeyboard p then ?p else p) q"
    using q asked_input(1) [of ?p s q] asked_input(3) [of p s q] by (auto simp: ask_command_def split: if_splits)
  then have t: "p_tui q = p_tui p \<or> p_tui q = (p_tui p)\<lparr>g_to := -1\<rparr>"
    by (auto simp: asked_def split: if_splits)
  then have list: "g_list (p_tui q) = g_list (p_tui p)" and ui: "ui_ok rows L (p_tui q) = ui_ok rows L (p_tui p)" by auto
  have same: "same_level p q" by (rule same_input_level [OF same_input_ask_command [OF q]])
  have ok: "prog_ok rows L q" using prog_ok_same [OF same ui] assms(2) by simp
  note from_q = prog_step_same [OF same eq_refl [OF arg_cong [OF list [symmetric]]]]
  obtain b x where b: "g_buffer (p_tui q) = Some b" "g_heap (p_tui q) b = Some x" "b \<in> set (g_list (p_tui q))"
    by (rule prog_ok_current [OF ok])
  show ?thesis
  proof (cases s)
    case None
    then show ?thesis
      using inpcommand_with_cases(1) [OF q] prog_step_setto [OF ok] assms(3) list by (simp add: from_q)
  next
    case (Some w)
    note w = assms(4) [OF q [unfolded Some] ok list]
    let ?b = "the (g_buffer (p_tui q))"
    have "prog_step rows L q (case stringlookupbytable (inpslu e base load) w of
            Some fn \<Rightarrow> fn ?b q
          | None \<Rightarrow> (case stringlookupbytable (b_slu e (b_mode x)) w of Some fn \<Rightarrow> fn ?b q | None \<Rightarrow> Ret q))"
    proof (cases "w = ''load-file''")
      case True
      then show ?thesis
        using w b(1,3) by (simp add: inpslu_lookup [of e base load] safe_word_def)
    next
      case False
      then have "w \<noteq> ''write-reg''" "safe_word w" using w by (auto simp: safe_word_def)
      then show ?thesis
        using prog_step_inpslu [OF assms(1) ok, of w load base] prog_step_b_slu [OF assms(1) ok _ b(2), of w] ok b(1)
        by (simp split: option.split)
    qed
    then show ?thesis
      using inpcommand_with_cases(3) [OF q Some, of x e base load pbuf] b assms(3) list
      by (auto intro!: from_q prog_step_bind prog_step_setto)
  qed
qed

section \<open>Command files\<close>

text \<open>Every line of the text can be scanned, and its command word is safe.\<close>

function safe_script :: "string \<Rightarrow> bool" where
  "safe_script inp =
     (if inp = [] then True
      else (case token_read inp of
              None \<Rightarrow> False
            | Some (tb, rest) \<Rightarrow>
                (case fst (token_next tb) of None \<Rightarrow> True | Some w \<Rightarrow> safe_word w) \<and> safe_script rest))"
  by pat_completeness auto
termination
  by (relation "measure length") (auto dest: token_read_shorter)

declare safe_script.simps [simp del]

lemma ptok_set_ptok [simp]: "ts_ptok ts < length (ts_bufs ts) \<Longrightarrow> ptok (set_ptok tb ts) = tb"
  by (simp add: ptok_def set_ptok_def)

lemma start_tokens_safe:
  assumes "g_instream p = Some fp" "safe_script (p_files p fp)" "prog_ok rows L p"
  obtains q where "start_tokens p = Ret q" "p_tui q = p_tui p" "same_level p q" "safe_script (p_files q fp)"
    "case fst (token_next (ptok (p_tok q))) of None \<Rightarrow> True | Some w \<Rightarrow> safe_word w"
proof -
  have stack: "ts_ptok (p_tok p) < length (ts_bufs (p_tok p))" using assms(3) by (simp add: prog_ok_def)
  obtain tb rest where r: "token_read (p_files p fp) = Some (tb, rest)" "safe_script rest"
    "case fst (token_next tb) of None \<Rightarrow> True | Some w \<Rightarrow> safe_word w"
  proof (cases "p_files p fp = []")
    case True
    then show ?thesis
      using that by (simp add: token_read.simps token_next_def tk_argc_def safe_script.simps)
  next
    case False
    then show ?thesis
      using assms(2) that by (subst (asm) safe_script.simps) (auto split: option.splits)
  qed
  define q where "q = p\<lparr>p_tok := set_ptok tb (p_tok p), p_files := (p_files p)(fp := rest),
    p_eof := (p_eof p)(fp := token_eof (p_files p fp))\<rparr>"
  have q: "start_tokens p = Ret q" using assms(1) r(1) by (simp add: start_tokens_def token_start_def q_def)
  show ?thesis
  proof (rule that [OF q])
    show "same_level p q" using keeps_start_tokens [of p] q by simp
    show "case fst (token_next (ptok (p_tok q))) of None \<Rightarrow> True | Some w \<Rightarrow> safe_word w"
      using r(3) stack by (simp add: q_def)
  qed (simp_all add: q_def r(2))
qed

lemma prog_step_load_loop:
  assumes "session_env rows L e"
  shows "prog_ok rows L p \<Longrightarrow> pbuf \<in> set (g_list (p_tui p)) \<Longrightarrow> g_instream p = Some fp \<Longrightarrow> safe_script (p_files p fp) \<Longrightarrow>
    prog_step rows L p (load_loop n e base fp pbuf p)"
proof (induction n arbitrary: p)
  case (Suc n)
  show ?case
  proof (cases "p_eof p fp")
    case False
    obtain q where q: "start_tokens p = Ret q" "p_tui q = p_tui p" "same_level p q" "safe_script (p_files q fp)"
      "case fst (token_next (ptok (p_tok q))) of None \<Rightarrow> True | Some w \<Rightarrow> safe_word w"
      by (rule start_tokens_safe [OF Suc.prems(3,4,1)])
    have ok: "prog_ok rows L q" and at: "g_instream q = Some fp"
      using prog_ok_same [OF q(3)] q(2,3) Suc.prems(1,3) by (simp_all add: same_level_def)
    let ?cmd = "inpcommand_with e base (inpfileload n e base) pbuf q"
    have "prog_step rows L q (rbind ?cmd (load_loop n e base fp pbuf))"
    proof (rule prog_step_bind)
      have "safe_word w" if "ask_command q = (Some w, r)" for w r
        using q(5) at that by (auto simp: ask_command_def iskeyboard_def next_token_def split: prod.splits)
      then show "prog_step rows L q ?cmd"
        using Suc.prems(2) q(2) by (intro prog_step_command [OF assms ok]) auto
    next
      fix r assume r: "?cmd = Ret r" "prog_ok rows L r" "set (g_list (p_tui q)) \<subseteq> set (g_list (p_tui r))"
      have "same_input q r" using keeps_script_command [of q e base n pbuf] at r(1) by simp
      then have "g_instream r = Some fp" "p_files r fp = p_files q fp" using at by (simp_all add: same_input_def same_level_def)
      then show "prog_step rows L r (load_loop n e base fp pbuf r)"
        using Suc.prems(2) q(2,4) r(2,3) by (intro Suc.IH) auto
    qed
    then have "prog_step rows L p (rbind ?cmd (load_loop n e base fp pbuf))"
      using prog_step_same [OF q(3)] q(2) by simp
    then show ?thesis using q(1) False by simp
  qed (use Suc.prems in simp)
qed simp

text \<open>A whole file, when the stack of token buffers has room for it.\<close>

definition safe_file :: "inp_env \<Rightarrow> string \<Rightarrow> bool" where
  "safe_file e fname \<longleftrightarrow>
     (case Option.bind (getfullpath (ie_paths e) fname) (ie_fs e) of None \<Rightarrow> True | Some content \<Rightarrow> safe_script content)"

lemma prog_step_load_file:
  assumes "session_env rows L e" "prog_ok rows L p" "pbuf \<in> set (g_list (p_tui p))" "safe_file e fname"
    "ts_ptok (p_tok p) < NTOKENS - 1"
  shows "prog_step rows L p (rbind (load_file n e base fname pbuf p) (\<lambda>(res, p). Ret p))"
proof (cases n)
  case (Suc m)
  show ?thesis
  proof (cases "Option.bind (getfullpath (ie_paths e) fname) (ie_fs e)")
    case None
    then show ?thesis using assms(2) Suc by simp
  next
    case (Some content)
    define q where "q = (open_file content p)\<lparr>p_tok := (p_tok p)\<lparr>ts_ptok := ts_ptok (p_tok p) + 1\<rparr>\<rparr>"
    have run: "load_file n e base fname pbuf p = rbind (load_loop m e base (p_nfiles p) pbuf q)
        (\<lambda>r. Ret (0, r\<lparr>p_tok := tokenpop (p_tok r), g_instream := g_instream p\<rparr>))"
      using Suc Some assms(5) by (simp add: open_file_def tokenpush_def q_def Let_def)
    have q: "prog_ok rows L q" "p_tui q = p_tui p" "g_instream q = Some (p_nfiles p)" "p_files q (p_nfiles p) = content"
      using assms(2,5) by (simp_all add: q_def open_file_def prog_ok_def)
    have "safe_script content" using assms(4) Some by (simp add: safe_file_def)
    then have step: "prog_step rows L q (load_loop m e base (p_nfiles p) pbuf q)"
      using q assms(3) by (intro prog_step_load_loop [OF assms(1)]) simp_all
    show ?thesis
    proof (cases "load_loop m e base (p_nfiles p) pbuf q")
      case (Ret r)
      then have r: "prog_ok rows L r" "same_level q r" "set (g_list (p_tui p)) \<subseteq> set (g_list (p_tui r))"
        using step q(2) by (auto simp: prog_step_def)
      let ?r = "r\<lparr>p_tok := tokenpop (p_tok r), g_instream := g_instream p\<rparr>"
      have "same_level p ?r"
        using r(2) by (simp add: same_level_def q_def open_file_def tokenpop_def) (metis min.absorb1 le_SucI order_refl take_take)
      then have "prog_ok rows L ?r"
        using r(1) assms(2) by (auto simp: prog_ok_def same_level_def)
      then show ?thesis using \<open>same_level p ?r\<close> r(3) Ret run by (simp add: prog_step_def)
    qed (use step run in \<open>auto simp: prog_step_def\<close>)
  qed
qed simp

text \<open>The command \<open>load-file\<close> typed at the keyboard.\<close>

lemma prog_step_inpfileload:
  assumes "session_env rows L e" "prog_ok rows L p" "b \<in> set (g_list (p_tui p))" "iskeyboard p"
    "\<And>fname. fst (ask_str p) = Some fname \<Longrightarrow> safe_file e fname" "ts_ptok (p_tok p) < NTOKENS - 1"
  shows "prog_step rows L p (inpfileload n e base b p)"
proof (cases n)
  case (Suc m)
  obtain s q where ask: "ask_str p = (s, q)" by fastforce
  note q = asked_input(1) [OF ask]
  show ?thesis
  proof (cases s)
    case None
    then show ?thesis using Suc assms(2,4) ask prog_step_asked [OF q] by simp
  next
    case (Some fname)
    have "prog_step rows L q (rbind (load_file m e base fname b q) (\<lambda>(res, p). Ret p))"
      using assms q ask Some prog_ok_asked [OF q]
      by (intro prog_step_load_file) (auto simp: asked_def same_input_def same_level_def)
    moreover have "iskeyboard q" using iskeyboard_same [of p q] q assms(4) by (simp add: asked_def)
    ultimately show ?thesis using Suc assms(4) ask Some prog_step_from [OF q] by (simp add: Let_def)
  qed
qed simp

section \<open>Keys\<close>

text \<open>
  A key with the answers given to its prompts is safe unless it is the command key and the word is one
  of the commands left out; the file named after \<open>load-file\<close> must be safe.
\<close>

definition safe_key :: "inp_env \<Rightarrow> int \<times> string option list \<times> int option list \<Rightarrow> bool" where
  "safe_key e k \<longleftrightarrow>
     (case k of (c, gets, vals) \<Rightarrow>
        c = key_of CHR '':'' \<longrightarrow>
          (case gets of
             Some w # as \<Rightarrow>
               safe_word w \<or> w = ''load-file'' \<and> (case as of Some fname # _ \<Rightarrow> safe_file e fname | _ \<Rightarrow> True)
           | _ \<Rightarrow> True))"

definition at_prompt :: "prog \<Rightarrow> bool" where
  "at_prompt p \<longleftrightarrow> iskeyboard p \<and> ts_ptok (p_tok p) < NTOKENS - 1"

lemma at_prompt_same: "same_level p q \<Longrightarrow> at_prompt q = at_prompt p"
  by (simp add: at_prompt_def same_level_def iskeyboard_def)

lemma prog_step_curs:
  assumes "session_env rows L e" "prog_ok rows L p" "br_move f \<in> set br_moves"
    "ui_step rows L (p_tui p) (g (p_tui p))"
  shows "prog_step rows L p (curs e f g p)"
proof -
  obtain b x where b: "g_buffer (p_tui p) = Some b" "g_heap (p_tui p) b = Some x"
    by (rule prog_ok_current [OF assms(2)])
  have "br_move f \<in> set browser_cmds" using assms(3) by (simp add: browser_cmds_def)
  then show ?thesis
    using prog_step_run_br [OF assms(1,2) b(2)] prog_step_lift [OF assms(2), of g] assms(4) b
    by (simp add: curs_def split: tui_mode.split)
qed

lemma prog_step_inpcommand:
  assumes "session_env rows L e" "prog_ok rows L p" "b \<in> set (g_list (p_tui p))" "at_prompt p"
    "safe_key e (key_of CHR '':'', p_gets p, vals)"
  shows "prog_step rows L p (inpcommand n e base b p)"
  unfolding inpcommand_def
proof (rule prog_step_command [OF assms(1-3)])
  fix w q assume q: "ask_command p = (Some w, q)" "prog_ok rows L q" "g_list (p_tui q) = g_list (p_tui p)"
  have kb: "iskeyboard p" and room: "ts_ptok (p_tok p) < NTOKENS - 1" using assms(4) by (auto simp: at_prompt_def)
  obtain as where gets: "p_gets p = Some w # as" "p_gets q = as"
    using q(1) kb by (auto simp: ask_command_def ask_str_def split: list.splits)
  have "same_level p q" by (rule same_input_level [OF same_input_ask_command [OF q(1)]])
  then have "at_prompt q" using assms(4) by (simp add: at_prompt_same)
  then have "\<forall>b \<in> set (g_list (p_tui q)). prog_step rows L q (inpfileload n e base b q)"
    if "case as of Some fname # _ \<Rightarrow> safe_file e fname | _ \<Rightarrow> True"
    using that gets(2)
    by (intro ballI prog_step_inpfileload [OF assms(1) q(2)]) (auto simp: at_prompt_def ask_str_def split: list.splits)
  then show "safe_word w \<or> w = ''load-file'' \<and> (\<forall>b \<in> set (g_list (p_tui q)). prog_step rows L q (inpfileload n e base b q))"
    using assms(5) gets(1) by (auto simp: safe_key_def)
qed

lemma prog_step_key:
  assumes "session_env rows L e" "prog_ok rows L p" "b \<in> set (g_list (p_tui p))" "at_prompt p"
    "safe_key e (c, p_gets p, vals)" "keylookupbytable (inpklu n e base) c = Some fn"
  shows "prog_step rows L p (fn b p)"
proof -
  have ui: "ui_ok rows L (p_tui p)" and rows: "9 \<le> rows" "ie_rows e = rows"
    using assms(1,2) by (auto simp: prog_ok_def session_env_def)
  have stay: "ui_step rows L (p_tui p) (Some (p_tui p))" using ui by (simp add: ui_step_def)
  have curs: "prog_step rows L p (inpup e b p)" "prog_step rows L p (inpdn e b p)" "prog_step rows L p (inpleft e b p)"
    "prog_step rows L p (inpright e b p)" "prog_step rows L p (inppgup e b p)" "prog_step rows L p (inppgdn e b p)"
    unfolding inpup_def inpdn_def inpleft_def inpright_def inppgup_def inppgdn_def rows(2)
    by (rule prog_step_curs [OF assms(1,2)]; simp add: br_moves_def ui_cursor [OF ui rows(1)] stay)+
  have "fn \<in> {inpup e, inpdn e, inpleft e, inpright e, inppgup e, inppgdn e, inphome, inpnext, inptoggle} \<or>
      c = key_of CHR '':'' \<and> fn = inpcommand n e base"
    using lookup_in(1) [OF assms(6)] by (auto simp: inpklu_def)
  then show ?thesis
    using curs ui_switch(1-3) [OF ui] prog_step_lift [OF assms(2)] prog_step_inpcommand [OF assms(1-4)] assms(5)
    by (auto simp: inphome_def inpnext_def inptoggle_def)
qed

lemma prog_step_b_klu:
  assumes "session_env rows L e" "prog_ok rows L p" "g_heap (p_tui p) b = Some x"
    "keylookupbytable (b_klu e (b_mode x)) c = Some fn"
  shows "prog_step rows L p (fn b p)"
proof (cases "b_mode x")
  case BRMODE
  then obtain cmd where "fn = run_br e cmd" "cmd \<in> set (map snd brklu)"
    using lookup_in(1) [OF assms(4)] by (force simp: b_klu_def)
  then show ?thesis using prog_step_run_br [OF assms(1-3) BRMODE, of cmd] by (simp add: browser_cmds_def)
next
  case BUMODE
  then have "fn = (\<lambda>b. lift_tui bugoto)" using lookup_in(1) [OF assms(4)] by (simp add: b_klu_def)
  then show ?thesis
    using prog_step_lift [OF assms(2), of bugoto] ui_switch(4) [of rows L "p_tui p"] assms(2) by (simp add: prog_ok_def)
qed

lemma prog_step_processinput:
  assumes "session_env rows L e" "prog_ok rows L p" "at_prompt p" "safe_key e (c, p_gets p, vals)"
  shows "prog_step rows L p (processinput n e base c p)"
proof -
  obtain b x where b: "g_buffer (p_tui p) = Some b" "g_heap (p_tui p) b = Some x" "b \<in> set (g_list (p_tui p))"
    by (rule prog_ok_current [OF assms(2)])
  then show ?thesis
    using prog_step_key [OF assms(1,2) b(3) assms(3,4), of n base] prog_step_b_klu [OF assms(1,2) b(2), of c] assms(2) b
    by (auto simp: processinput_def split: option.split)
qed

lemma show_page_ok:
  assumes "prog_ok rows L p"
  shows "show_page p = Ret p"
proof -
  obtain b x where b: "g_buffer (p_tui p) = Some b" "g_heap (p_tui p) b = Some x" "b \<in> set (g_list (p_tui p))"
    by (rule prog_ok_current [OF assms])
  then obtain s where "m_title x = Some s"
    using list_ok_shown [of "g_heap (p_tui p)" "g_list (p_tui p)" b] assms by (auto simp: prog_ok_def ui_ok_def tui_wf_def)
  then show ?thesis using b by (simp add: show_page_def)
qed

lemma prog_step_tty_main:
  assumes "session_env rows L e"
  shows "prog_ok rows L p \<Longrightarrow> at_prompt p \<Longrightarrow> list_all (safe_key e) keys \<Longrightarrow>
    prog_step rows L p (tty_main n e base keys p)"
proof (induction keys arbitrary: p)
  case (Cons k keys)
  obtain c gets vals where k: "k = (c, gets, vals)" by (cases k)
  let ?p = "p\<lparr>p_gets := gets, p_vals := vals\<rparr>"
  have same: "same_level p ?p" by (simp add: same_level_def)
  have ok: "prog_ok rows L ?p" "at_prompt ?p"
    using prog_ok_same [OF same] at_prompt_same [OF same] Cons.prems(1,2) by simp_all
  have "prog_step rows L ?p (rbind (processinput n e base c ?p) (tty_main n e base keys))"
  proof (rule prog_step_bind)
    show "prog_step rows L ?p (processinput n e base c ?p)"
      using Cons.prems(3) k by (intro prog_step_processinput [OF assms ok, where vals = vals]) simp
    show "prog_step rows L q (tty_main n e base keys q)" if "prog_ok rows L q" "same_level ?p q" for q
      using that ok(2) Cons.prems(3) by (intro Cons.IH) (simp_all add: at_prompt_same)
  qed
  then show ?case using show_page_ok [OF Cons.prems(1)] k prog_step_same [OF same] by simp
qed simp

section \<open>A session comes to its end\<close>

lemma inpklu_lookup:
  "keylookupbytable (inpklu n e base) c =
     (if c = key_of CHR '':'' then Some (inpcommand n e base) else keylookupbytable (inpklu 0 e base) c)"
  by (auto simp: inpklu_def key_eval)

lemma settled_inpcommand: "settled (\<lambda>n. inpcommand n e base b p)"
  unfolding inpcommand_def by (intro settled_inpcommand_with settled_inpfileload settled_load_file)

lemma settled_processinput: "settled (\<lambda>n. processinput n e base c p)"
proof (cases "Option.bind (g_buffer (p_tui p)) (g_heap (p_tui p))")
  case (Some x)
  let ?b = "the (g_buffer (p_tui p))"
  show ?thesis
  proof (cases "c = key_of CHR '':''")
    case True
    have "c \<noteq> -1" using True by (simp add: key_of_def)
    then have "processinput n e base c p = inpcommand n e base ?b p" for n
      using Some True by (simp add: processinput_def inpklu_lookup [of n])
    then show ?thesis using settled_inpcommand by simp
  next
    case False
    have "(\<lambda>n. processinput n e base c p) = (\<lambda>n. processinput 0 e base c p)"
    proof
      fix n
      have klu: "keylookupbytable (inpklu n e base) c = keylookupbytable (inpklu 0 e base) c"
        using False by (subst inpklu_lookup) simp
      show "processinput n e base c p = processinput 0 e base c p" unfolding processinput_def klu ..
    qed
    note eq = this
    have "fn b p \<noteq> NoEnd" if "keylookupbytable (inpklu 0 e base) c = Some fn" for fn b
      using lookup_in(1) [OF that] False
      by (auto simp: inpklu_def inpup_def inpdn_def inpleft_def inpright_def inppgup_def inppgdn_def curs_def
          inphome_def inpnext_def inptoggle_def split: option.splits tui_mode.splits)
    moreover have "fn b p \<noteq> NoEnd" if "keylookupbytable (b_klu e (b_mode x)) c = Some fn" for fn b
      using lookup_in(1) [OF that] by (auto simp: b_klu_def split: tui_mode.splits)
    ultimately have "processinput 0 e base c p \<noteq> NoEnd"
      using Some by (auto simp: processinput_def Let_def split: option.split)
    then show ?thesis unfolding eq by (rule settled_const)
  qed
next
  case None
  have "processinput n e base c p = (if c = -1 then Ret p else Crash)" for n
    unfolding processinput_def None by simp
  then show ?thesis by (simp add: settled_const)
qed

lemma settled_tty_main: "settled (\<lambda>n. tty_main n e base keys p)"
proof (induction keys arbitrary: p)
  case (Cons k keys)
  obtain c gets vals where k: "k = (c, gets, vals)" by (cases k)
  have "settled (\<lambda>n. rbind (show_page p) (\<lambda>p. rbind (processinput n e base c (p\<lparr>p_gets := gets, p_vals := vals\<rparr>))
      (tty_main n e base keys)))"
    by (intro settled_bind settled_processinput Cons.IH settled_const)
      (simp add: show_page_def split: option.split)
  then show ?case using k by simp
qed (simp add: settled_const)

end
