(* ===== verification/Tui_Program.thy ===== *)
theory Tui_Program
  imports Tui_Term
begin

text \<open>
  The whole browser program: \<open>main\<close> of \<open>v120_tui/main.c\<close>, from the environment of the process to the key
  loop, and the stub of a graphical interface (\<open>v120_tui/gui.c\<close>).
\<close>

section \<open>The stub\<close>

text \<open>
  The flag \<open>g_isgui\<close> and the value returned. \<open>notagui\<close> ends the program through \<open>quit\<close>, before there are
  paths, name files, buffers or open crates.
\<close>

definition vmebr_start_application :: "bool \<times> int" where
  "vmebr_start_application = (False, 0)"

definition notagui :: "os \<Rightarrow> prog res outcome" where
  "notagui s =
     (case quit [] [] tui_empty (replicate 16 None) s of
        None \<Rightarrow> Done Crash
      | Some (g_path, freed, t, closed) \<Rightarrow> obind closed (\<lambda>s. Exit 0))"

lemma crateclean_none: "crateclean (replicate n None) s = Done s"
  by (induction n) simp_all

lemma notagui_exits: "notagui s = Exit 0"
  by (simp add: notagui_def quit_def bufferclean_def crateclean_none tui_empty_def)

definition gui_main :: "prog res outcome" where
  "gui_main = (case vmebr_start_application of (isgui, res) \<Rightarrow> Exit EXIT_FAILURE)"

section \<open>\<open>main\<close>\<close>

text \<open>
  What the process finds: \<open>TERM\<close>, \<open>HOME\<close>, whether standard input is a terminal and its settings can be read
  and set, which allocations succeed, \<open>RCDATADIR\<close>, the size of the configuration registers and the crates.
\<close>

record tui_host =
  th_term :: "string option"
  th_tty :: bool
  th_tcget :: bool
  th_tcset :: bool
  th_attr :: tty
  th_home :: "string option"
  th_datadir :: string
  th_pathmem :: path_mem
  th_access :: "string \<Rightarrow> bool"
  th_malloc :: bool
  th_listmem :: "bool \<times> bool"
  th_regmem :: bool
  th_config :: u64
  th_crates :: v120_env
  th_os :: os

definition SETUP_FILENAME :: string where "SETUP_FILENAME = ''.v120_tui''"
definition HOME_SETUP_FILENAME :: string where "HOME_SETUP_FILENAME = ''~/'' @ SETUP_FILENAME"
definition V120_RNM :: "string \<Rightarrow> string" where "V120_RNM rcdatadir = rcdatadir @ ''/V120.RNM''"

text \<open>The globals before the first command: the keyboard is the input, the token buffers are empty.\<close>

definition prog_init :: "tui \<Rightarrow> prog" where
  "prog_init t =
     \<lparr>p_tui = t, g_instream = None, p_files = (\<lambda>f. ''''), p_eof = (\<lambda>f. False), p_nfiles = 0,
      p_tok = \<lparr>ts_bufs = replicate NTOKENS \<lparr>tk_argv = [], tk_argi = 0, tk_line = replicate LINE_MAX NUL\<rparr>, ts_ptok = 0\<rparr>,
      p_gets = [], p_vals = []\<rparr>"

definition has_terminal :: "tui_host \<Rightarrow> bool" where
  "has_terminal host \<longleftrightarrow> th_term host \<noteq> None \<and> th_term host \<noteq> Some '''' \<and> th_tty host"

definition host_paths :: "tui_host \<Rightarrow> path_env option" where
  "host_paths host = pathconfig (th_pathmem host) (th_access host) (th_malloc host) (th_datadir host) (th_home host)"

text \<open>The crates are opened and their browsers made, then the buffer list is started.\<close>

definition host_start :: "tui_host \<Rightarrow> inp_env \<Rightarrow> tui option outcome \<times> v120_handle option list \<times> os" where
  "host_start host e =
     main_start (th_listmem host)
       (\<lambda>i h. ctrlnew (th_regmem host) (ie_mem e) (ie_rows e) (ie_junk e) (th_config host)
                (ie_rnmparse e (V120_RNM (th_datadir host))) h i)
       (th_crates host) (th_os host)"

text \<open>
  Without a terminal \<open>notagui\<close> ends the program; the flag it tests at the end is never set there. The
  set-up file in the home directory is run before the first key.
\<close>

definition v120_tui_main ::
  "nat \<Rightarrow> tui_host \<Rightarrow> inp_env \<Rightarrow> nat option \<Rightarrow> (int \<times> string option list \<times> int option list) list \<Rightarrow> prog res outcome" where
  "v120_tui_main n host e base keys =
     (if \<not> has_terminal host then notagui (th_os host)
      else case host_paths host of
        None \<Rightarrow> Done Crash
      | Some paths \<Rightarrow>
          obind (ttstart (th_tty host) (th_tcget host) (th_tcset host) (th_attr host)) (\<lambda>attr.
            case host_start host e of
              (start, crates, os) \<Rightarrow>
                obind start (\<lambda>t.
                  case t of
                    None \<Rightarrow> Done Crash
                  | Some t \<Rightarrow>
                      (let e = e\<lparr>ie_paths := paths, ie_crate := (\<lambda>i. 0 \<le> i \<and> i < 16 \<and> crates ! nat i \<noteq> None)\<rparr> in
                       Done (rbind (load_file n e base HOME_SETUP_FILENAME (the (g_headbuf t)) (prog_init t))
                               (\<lambda>(res, p). tty_main n e base keys p))))))"

end
