(* ===== verification/Tui_Session_Props.thy ===== *)
theory Tui_Session_Props
  imports Tui_Session Tui_Program
begin

text \<open>
  What holds of the whole browser program: from the environment of the process over the crates, the
  buffer list and the set-up file in the home directory to any number of keys.
\<close>

section \<open>The start\<close>

lemma ctrlnew_browsers_ok:
  assumes "\<And>region :: vme_region. vr_len region = sz \<Longrightarrow> region_ok rows region \<and> L \<le> uint (vr_len region)"
    "\<And>m. rnm = Some m \<Longrightarrow> name_file_ok L m" "browsers_ok rows L (g_heap t)"
  shows "browsers_ok rows L (g_heap (ctrlnew reg mem rows junk sz rnm h i t))"
proof (cases reg)
  case True
  let ?name = "take 13 (''V120'' @ fmt_d i @ '' CONFIG'')"
  let ?region = "\<lparr>vr_base = Some (h_mapptr h + CONFIG_OFFS), vr_start_page = 0, vr_end_page = 0, vr_vme_addr = -1,
    vr_len = sz, vr_config = 0, vr_tag = None\<rparr>"
  have region: "region_ok rows ?region" "L \<le> uint (vr_len ?region)" using assms(1) [of ?region] by auto
  have eq: "ctrlnew reg mem rows junk sz rnm h i t = snd (browsernew mem rows junk ?name ?region rnm i t)"
    using True by (simp add: ctrlnew_def)
  show ?thesis
  proof (cases rule: browsernew_cases [of mem rows junk ?name ?region rnm i t])
    case (made t' ps x)
    show ?thesis
      unfolding eq made(1) snd_conv made(2)
      by (rule new_browser_ok [OF region assms(2,3) made(3,4)])
  qed (use assms(3) eq in simp)
qed (use assms(3) in \<open>simp add: ctrlnew_def\<close>)

lemma openallcrates_browsers_ok:
  assumes "\<And>i h t. browsers_ok rows L (g_heap t) \<Longrightarrow> browsers_ok rows L (g_heap (ctrl i h t))"
  shows "browsers_ok rows L (g_heap t) \<Longrightarrow> browsers_ok rows L (g_heap (snd (snd (openallcrates ctrl ve is s t))))"
proof (induction "is" arbitrary: s t)
  case (Cons i "is")
  obtain p s1 where o: "v120_open ve i s = (p, s1)" by fastforce
  have "browsers_ok rows L (g_heap (case p of None \<Rightarrow> t | Some h \<Rightarrow> ctrl i h t))"
    using Cons.prems assms by (simp split: option.split)
  then have "browsers_ok rows L (g_heap (snd (snd (openallcrates ctrl ve is s1 (case p of None \<Rightarrow> t | Some h \<Rightarrow> ctrl i h t)))))"
    by (rule Cons.IH)
  then show ?case
    by (cases "openallcrates ctrl ve is s1 (case p of None \<Rightarrow> t | Some h \<Rightarrow> ctrl i h t)") (simp add: o)
qed simp

lemma main_start_ui_ok:
  assumes "\<And>region :: vme_region. vr_len region = sz \<Longrightarrow> region_ok rows region \<and> L \<le> uint (vr_len region)"
    "\<forall>i m. rnm i = Some m \<longrightarrow> name_file_ok L m"
    "main_start (True, m2) (\<lambda>i h. ctrlnew reg mem rows junk sz (rnm i) h i) ve s = (Done (Some t), ps, s')"
  shows "ui_ok rows L t"
proof -
  let ?ctrl = "\<lambda>i h. ctrlnew reg mem rows junk sz (rnm i) h i"
  obtain ps1 s1 t0 where o: "openallcrates ?ctrl ve (map int [0..<16]) s tui_empty = (ps1, s1, t0)"
    by (cases "openallcrates ?ctrl ve (map int [0..<16]) s tui_empty") auto
  have none: "browsers_ok rows L (g_heap tui_empty)" by (simp add: browsers_ok_def tui_empty_def)
  have "browsers_ok rows L (g_heap (ctrlnew reg mem rows junk sz (rnm i) h i t))"
    if "browsers_ok rows L (g_heap t)" for i h t
    using assms(1,2) that by (intro ctrlnew_browsers_ok) auto
  then have "browsers_ok rows L (g_heap t0)"
    using openallcrates_browsers_ok [of rows L ?ctrl, OF _ none, of ve "map int [0..<16]" s] unfolding o by simp
  then have b: "browsers_ok rows L (g_heap (bufferlist_start (True, m2) t0))"
    by (auto simp: bufferlist_start_def buffernew_def bufferadd2list_def browsers_ok_def Let_def)
  let ?t = "bufferlist_start (True, m2) t0"
  have wf: "tui_wf t"
    using main_start_wf [of "(True, m2)" reg mem rows junk sz rnm ve s] assms(3) by auto
  have go: "buffergoto (g_buffer ?t) ?t = Some t"
    using assms(3) unfolding main_start_def o prod.case Let_def by (auto split: if_splits)
  note f = buffergoto_frame [OF go]
  have "g_buffer ?t = g_headbuf t" "g_list t \<noteq> []"
    using f wf by (auto simp: bufferlist_start_def g_headbuf_def tui_wf_def list_ok_def Let_def)
  then have "\<exists>l \<in> set (g_list t). g_lastbuf t = Some l"
    using f by (cases "g_list ?t") (auto simp: g_headbuf_def)
  then show ?thesis using wf b f by (simp add: ui_ok_def)
qed

text \<open>The paths and the table of crates matter to commands, not to the invariant of a session.\<close>

lemma session_env_paths [simp]: "session_env rows L (e\<lparr>ie_paths := paths, ie_crate := cr\<rparr>) = session_env rows L e"
  by (simp add: session_env_def)

lemma safe_file_crate [simp]: "safe_file (e\<lparr>ie_paths := paths, ie_crate := cr\<rparr>) = safe_file (e\<lparr>ie_paths := paths\<rparr>)"
  by (simp add: safe_file_def fun_eq_iff)

lemma safe_key_crate [simp]: "safe_key (e\<lparr>ie_paths := paths, ie_crate := cr\<rparr>) = safe_key (e\<lparr>ie_paths := paths\<rparr>)"
  unfolding safe_key_def safe_file_crate ..

text \<open>The registers that every crate shows are a region of the right size.\<close>

definition host_fits :: "int \<Rightarrow> int \<Rightarrow> tui_host \<Rightarrow> bool" where
  "host_fits rows L host \<longleftrightarrow>
     (let len = uint (th_config host) in
      128 \<le> len \<and> 16 * (rows - 5) \<le> len \<and> 16 dvd len \<and> len < 2 ^ 31 \<and> L \<le> len)"

lemma host_start_ok:
  assumes "session_env rows L e" "fst (th_listmem host)" "host_fits rows L host"
  obtains t crates os where "host_start host e = (Done (Some t), crates, os)" "ui_ok rows L t"
proof -
  let ?rnm = "\<lambda>i. ie_rnmparse e (V120_RNM (th_datadir host))"
  let ?ctrl = "\<lambda>i h. ctrlnew (th_regmem host) (ie_mem e) rows (ie_junk e) (th_config host) (?rnm i) h i"
  obtain m2 where m2: "th_listmem host = (True, m2)" using assms(2) by (cases "th_listmem host") auto
  have rows: "ie_rows e = rows" and names: "\<forall>i m. ?rnm i = Some m \<longrightarrow> name_file_ok L m"
    using assms(1) by (auto simp: session_env_def)
  obtain t where "fst (main_start (True, m2) ?ctrl (th_crates host) (th_os host)) = Done (Some t)"
    using main_start_wf [of "(True, m2)" "th_regmem host" "ie_mem e" rows "ie_junk e" "th_config host" ?rnm
        "th_crates host" "th_os host"] by auto
  then obtain crates os where s: "main_start (True, m2) ?ctrl (th_crates host) (th_os host) = (Done (Some t), crates, os)"
    by (cases "main_start (True, m2) ?ctrl (th_crates host) (th_os host)") auto
  have "region_ok rows region \<and> L \<le> uint (vr_len region)" if "vr_len region = th_config host" for region :: vme_region
    using assms(1,3) that by (simp add: region_ok_def session_env_def host_fits_def Let_def)
  then have "ui_ok rows L t" by (rule main_start_ui_ok [OF _ names s])
  moreover have "host_start host e = (Done (Some t), crates, os)" using s by (simp add: host_start_def m2 rows)
  ultimately show ?thesis using that by blast
qed

lemma prog_init_ok: "ui_ok rows L t \<Longrightarrow> prog_ok rows L (prog_init t) \<and> at_prompt (prog_init t)"
  by (simp add: prog_init_def prog_ok_def at_prompt_def iskeyboard_def NTOKENS_def)

section \<open>The whole program\<close>

lemma load_then_keys:
  "rbind (load_file n e base f b p) (\<lambda>(res, p). g p) = rbind (rbind (load_file n e base f b p) (\<lambda>(res, p). Ret p)) g"
  by (cases "load_file n e base f b p") auto

lemma settled_program: "settled (\<lambda>n. rbind (load_file n e base f b p) (\<lambda>(res, p). tty_main n e base keys p))"
  by (rule settled_bind [OF settled_load_file]) (auto intro: settled_tty_main)

lemma program_step:
  assumes "session_env rows L e" "ui_ok rows L t" "safe_file e HOME_SETUP_FILENAME" "list_all (safe_key e) keys"
  shows "prog_step rows L (prog_init t)
    (rbind (load_file n e base HOME_SETUP_FILENAME (the (g_headbuf t)) (prog_init t)) (\<lambda>(res, p). tty_main n e base keys p))"
proof -
  note init = prog_init_ok [OF assms(2)]
  have "g_list t \<noteq> []" using assms(2) by (simp add: ui_ok_def tui_wf_def list_ok_def)
  then have "the (g_headbuf t) \<in> set (g_list (p_tui (prog_init t)))"
    by (cases "g_list t") (simp_all add: g_headbuf_def prog_init_def)
  moreover have "ts_ptok (p_tok (prog_init t)) < NTOKENS - 1" using init by (simp add: at_prompt_def)
  ultimately have "prog_step rows L (prog_init t)
      (rbind (load_file n e base HOME_SETUP_FILENAME (the (g_headbuf t)) (prog_init t)) (\<lambda>(res, p). Ret p))"
    using init by (intro prog_step_load_file [OF assms(1) _ _ assms(3)]) simp_all
  then show ?thesis
    by (subst load_then_keys, rule prog_step_bind)
      (use init assms at_prompt_same in \<open>auto intro: prog_step_tty_main\<close>)
qed

lemma host_main:
  assumes "has_terminal host" "th_tcget host" "th_tcset host" "host_paths host = Some paths"
    "host_start host e = (Done (Some t), crates, os)"
  shows "v120_tui_main n host e base keys =
    (let e = e\<lparr>ie_paths := paths, ie_crate := (\<lambda>i. 0 \<le> i \<and> i < 16 \<and> crates ! nat i \<noteq> None)\<rparr> in
     Done (rbind (load_file n e base HOME_SETUP_FILENAME (the (g_headbuf t)) (prog_init t))
             (\<lambda>(res, p). tty_main n e base keys p)))"
  using assms by (simp add: v120_tui_main_def ttstart_def has_terminal_def Let_def)

lemma ui_ok_page:
  assumes "ui_ok rows L t" "g_heap t b = Some x" "b_priv x = Some br"
  shows "0 \<le> br_sel br \<and> br_sel br < brarraylen rows br \<and> 0 \<le> br_offs br \<and>
    br_dwidth br * (br_offs br + brarraylen rows br) \<le> uint (vr_len (br_region br))"
proof -
  have "br_inv rows (br_region br) (browser_of x br)" using assms by (auto simp: ui_ok_def browsers_ok_def)
  then have "br_shape rows br" "br_pos rows br" by (auto simp: br_inv_def browser_of_def)
  then show ?thesis by (cases rule: br_shape_cases) (auto simp: br_pos_def)
qed

lemma ui_ok_safe:
  assumes "ui_ok rows L t"
  shows "distinct (g_list t) \<and> (\<forall>b. g_heap t b \<noteq> None \<longleftrightarrow> b \<in> set (g_list t)) \<and>
    (\<exists>c \<in> set (g_list t). g_buffer t = Some c) \<and>
    (\<forall>b x br. g_heap t b = Some x \<and> b_priv x = Some br \<longrightarrow>
       0 \<le> br_sel br \<and> br_sel br < brarraylen rows br \<and> 0 \<le> br_offs br \<and>
       br_dwidth br * (br_offs br + brarraylen rows br) \<le> uint (vr_len (br_region br)))"
proof -
  have "distinct (g_list t)" "\<forall>b. g_heap t b \<noteq> None \<longleftrightarrow> b \<in> set (g_list t)" "\<exists>c \<in> set (g_list t). g_buffer t = Some c"
    using assms unfolding ui_ok_def tui_wf_def list_ok_def by blast+
  then show ?thesis using ui_ok_page [OF assms] by (intro conjI allI impI) auto
qed


section \<open>A run\<close>

text \<open>
  A host with any crates and any terminal settings: the set-up file makes a dummy card and goes home; then a
  card, a dummy card, moves, a store, a refresh, a command file and the way back.
\<close>

definition script_demo :: string where
  "script_demo = ''add-dummy'' @ [LF] @ ''home'' @ [LF]"

definition paths_demo :: path_env where
  "paths_demo =
     \<lparr>pe_home = ''/root'', pe_path = [''/root/.v120_tui.d'', ''/usr/share/v120_tui'', ''/root''],
      pe_access = (\<lambda>f. f = ''/root/.v120_tui''), pe_malloc = True\<rparr>"

definition session_demo :: inp_env where
  "session_demo = \<lparr>ie_rows = 24, ie_paths = paths_demo,
     ie_fs = (\<lambda>f. if f = ''/root/.v120_tui'' then Some script_demo else None), ie_rnmparse = (\<lambda>f. None),
     ie_crate = (\<lambda>i. i = 0),
     ie_map = (\<lambda>crate addr len. Some \<lparr>vr_base = Some 0, vr_start_page = 0, vr_end_page = 3, vr_vme_addr = of_int addr,
       vr_len = of_int len, vr_config = 0, vr_tag = None\<rparr>), ie_mem = (True, True, True, True), ie_junk = (0, 0)\<rparr>"

definition keys_demo :: "(int \<times> string option list \<times> int option list) list" where
  "keys_demo =
     [(key_of CHR '':'', [Some ''add-vme'', None], [Some 0, Some 4096]), (key_of CHR '':'', [Some ''add-dummy''], []),
      (key_of CHR ''n'', [], []), (KEY_NPAGE, [], []), (key_of CHR ''w'', [], [Some 7]), (key_of CHR ''c'', [], []),
      (key_of CHR '':'', [Some ''load-file'', Some ''~/.v120_tui''], []),
      (key_of CHR '':'', [Some ''refresh-on''], [Some 5]), (key_of CHR ''b'', [], []), (KEY_DOWN, [], []), (10, [], [])]"

definition host_demo :: "v120_env \<Rightarrow> os \<Rightarrow> tty \<Rightarrow> tui_host" where
  "host_demo ve s attr =
     \<lparr>th_term = Some ''xterm'', th_tty = True, th_tcget = True, th_tcset = True, th_attr = attr,
      th_home = Some ''/root'', th_datadir = ''/usr/share/v120_tui'',
      th_pathmem = \<lparr>pm_home = True, pm_copy1 = True, pm_add1 = True, pm_copy2 = True, pm_add2 = True, pm_add3 = True\<rparr>,
      th_access = (\<lambda>f. f = ''/root/.v120_tui''), th_malloc = True, th_listmem = (True, True), th_regmem = True,
      th_config = 4096, th_crates = ve, th_os = s\<rparr>"

lemma host_paths_demo: "host_paths (host_demo ve s attr) = Some paths_demo"
  by (simp add: host_paths_def host_demo_def pathconfig_def paths_demo_def pathadd2list_def getfullpath_def home2root_def
      strdup_opt_def snprintf_text_def Let_def)

lemma script_demo_safe: "safe_file session_demo HOME_SETUP_FILENAME" "safe_file session_demo ''~/.v120_tui''"
  by code_simp+


end
