(* ===== verification/Ex_Irq.thy ===== *)
theory Ex_Irq
  imports Irq_Daemon_Props
begin

text \<open>
  The example clients of the dispatch service (\<open>examples/client.c\<close>, \<open>fakeirq.c\<close>, \<open>server_status.c\<close>) over
  the client calls and the kernel of \<open>Irq_Client\<close>. What \<open>argp\<close> delivers is the list of options and
  arguments in their order; the buffers the library calls find on the stack are the parameter
  \<open>junk\<close>. Messages on standard error and the progress lines are left out.
\<close>

section \<open>Options\<close>

datatype argp_key = KEY_ARG string | KEY_OPT char string | KEY_END

text \<open>\<open>argp_failure\<close> with status 1, and \<open>argp_usage\<close> with its status 64.\<close>

definition argp_failure :: "'a outcome" where "argp_failure = Exit 1"
definition argp_usage :: "'a outcome" where "argp_usage = Exit 64"

section \<open>\<open>fakeirq.c\<close>\<close>

definition set_crate :: "u32 \<Rightarrow> selector \<Rightarrow> selector outcome" where
  "set_crate crate info =
     (if s_crate info \<noteq> 0 then argp_failure
      else if 16 \<le> crate then argp_failure
      else Done (info\<lparr>s_crate := push_bit (unat crate) 1\<rparr>))"

definition set_irq :: "u32 \<Rightarrow> selector \<Rightarrow> selector outcome" where
  "set_irq irq info =
     (if s_irq info \<noteq> 0 then argp_failure
      else if irq < 1 \<or> 7 < irq then argp_failure
      else Done (info\<lparr>s_irq := push_bit (unat irq) 1\<rparr>))"

definition set_vector :: "u32 \<Rightarrow> selector \<Rightarrow> selector outcome" where
  "set_vector vector info =
     (if s_vector info \<noteq> 0 then argp_failure else Done (info\<lparr>s_vector := vector\<rparr>))"

text \<open>
  \<open>%u\<close> and \<open>%x\<close> of \<open>sscanf\<close>: the subject sequence of \<open>strtoul\<close>, stored in an \<open>unsigned int\<close>, and the
  text behind it. A prefix \<open>0x\<close> without a digit is not a number.
\<close>

definition bare_prefix :: "string \<Rightarrow> bool" where
  "bare_prefix s =
     (case s of
        z # x # r \<Rightarrow> z = CHR ''0'' \<and> (x = CHR ''x'' \<or> x = CHR ''X'') \<and> (r = [] \<or> 16 \<le> digit_value (hd r))
      | _ \<Rightarrow> False)"

definition scan_num :: "nat \<Rightarrow> string \<Rightarrow> (u32 \<times> string) option" where
  "scan_num base s =
     (let (v, n, _) = strtoul base s 0 in
      if n = 0 \<or> (base = 16 \<and> bare_prefix (snd (strip_sign (dropWhile c_isspace s)))) then None
      else Some (ucast v, drop n s))"

definition scan_colon :: "string \<Rightarrow> string option" where
  "scan_colon s = (case s of c # cs \<Rightarrow> if c = CHR '':'' then Some cs else None | [] \<Rightarrow> None)"

definition scan_triple :: "string \<Rightarrow> (u32 \<times> u32 \<times> u32) option" where
  "scan_triple arg =
     Option.bind (scan_num 10 arg) (\<lambda>(crate, s).
     Option.bind (scan_colon s) (\<lambda>s.
     Option.bind (scan_num 10 s) (\<lambda>(irq, s).
     Option.bind (scan_colon s) (\<lambda>s.
     Option.bind (scan_num 16 s) (\<lambda>(vector, s). Some (crate, irq, vector))))))"

text \<open>A leading 0 is taken for a decimal digit.\<close>

definition opt_num :: "nat \<Rightarrow> string \<Rightarrow> u32 outcome" where
  "opt_num base arg =
     (let (v, n, _) = strtoul base arg 0 in if n \<noteq> length arg then argp_failure else Done (ucast v))"

definition dec_base :: "string \<Rightarrow> nat" where
  "dec_base arg = (if arg \<noteq> [] \<and> hd arg = CHR ''0'' then 10 else 0)"

definition fakeirq_parse_opt :: "argp_key \<Rightarrow> selector \<Rightarrow> selector outcome" where
  "fakeirq_parse_opt key info =
     (case key of
        KEY_ARG arg \<Rightarrow>
          (case scan_triple arg of
             None \<Rightarrow> argp_failure
           | Some (crate, irq, vector) \<Rightarrow> obind (set_crate crate info) (\<lambda>info. obind (set_irq irq info) (set_vector vector)))
      | KEY_OPT c arg \<Rightarrow>
          (if c = CHR ''c'' then obind (opt_num (dec_base arg) arg) (\<lambda>crate. set_crate crate info)
           else if c = CHR ''i'' then obind (opt_num (dec_base arg) arg) (\<lambda>irq. set_irq irq info)
           else if c = CHR ''v'' then obind (opt_num 16 arg) (\<lambda>vector. set_vector vector info)
           else Done info)
      | KEY_END \<Rightarrow> if s_crate info = 0 \<or> s_irq info = 0 then argp_usage else Done info)"

definition fakeirq_args :: "argp_key list \<Rightarrow> selector outcome" where
  "fakeirq_args keys =
     fold (\<lambda>key m. obind m (fakeirq_parse_opt key)) (keys @ [KEY_END])
       (Done \<lparr>s_crate = 0, s_irq = 0, s_vector = 0, s_payload = 0\<rparr>)"

definition fakeirq_main :: "sock_env \<Rightarrow> bytes \<Rightarrow> kernel \<Rightarrow> argp_key list \<Rightarrow> (int \<times> kernel) outcome" where
  "fakeirq_main env junk k keys =
     obind (fakeirq_args keys) (\<lambda>info.
       let sock = sr_fd (v120irqd_client env None) in
       if sock < 1 then Done (1, k)
       else obind (v120irqd_interrupt junk k sock info) (\<lambda>(err, k). Done (if err \<noteq> 0 then 1 else 0, k)))"

section \<open>\<open>client.c\<close>\<close>

record irq_request =
  rq_crate :: u16
  rq_irq :: u16
  rq_vector :: u32
  rq_msg :: string

definition BIT :: "nat \<Rightarrow> u16" where "BIT n = push_bit n 1"

definition irq_request_options :: "irq_request list list" where
  "irq_request_options =
     [[\<lparr>rq_crate = BIT 0, rq_irq = BIT 1, rq_vector = 0xDEADBEEF, rq_msg = ''C0 dead beef''\<rparr>,
       \<lparr>rq_crate = BIT 0, rq_irq = BIT 1, rq_vector = 0xFEEDD00D, rq_msg = ''C0 feed the man''\<rparr>,
       \<lparr>rq_crate = BIT 0, rq_irq = BIT 1, rq_vector = ANYVECTOR, rq_msg = ''C0 IRQ1 remaining''\<rparr>,
       \<lparr>rq_crate = BIT 0, rq_irq = BIT 3, rq_vector = ANYVECTOR, rq_msg = ''C0 IRQ3''\<rparr>],
      [\<lparr>rq_crate = ANYCRATE, rq_irq = BIT 7, rq_vector = ANYVECTOR, rq_msg = ''Any IRQ7''\<rparr>],
      [\<lparr>rq_crate = BIT 1, rq_irq = BIT 1, rq_vector = 0xDEADBEEF, rq_msg = ''C1 deader beef''\<rparr>,
       \<lparr>rq_crate = BIT 1, rq_irq = BIT 1, rq_vector = 0xFEEDD00D, rq_msg = ''C1 hungrier man''\<rparr>,
       \<lparr>rq_crate = BIT 1, rq_irq = BIT 3, rq_vector = ANYVECTOR, rq_msg = ''C1 IRQ3''\<rparr>,
       \<lparr>rq_crate = BIT 1, rq_irq = BIT 4, rq_vector = ANYVECTOR, rq_msg = ''C1 IRQ4''\<rparr>]]"

definition NCLIENTS :: nat where "NCLIENTS = length irq_request_options"

text \<open>The value of \<open>strtoul\<close> is stored in an \<open>int\<close>, which the comparison reads as unsigned.\<close>

definition client_parse_opt :: "argp_key \<Rightarrow> int \<Rightarrow> int outcome" where
  "client_parse_opt key clientselection =
     (case key of
        KEY_ARG arg \<Rightarrow>
          (let client = sint (ucast (fst (strtoul 10 arg 0)) :: u32) in
           if client < 0 \<or> int NCLIENTS \<le> client then argp_failure else Done client)
      | KEY_END \<Rightarrow> if clientselection < 0 then argp_usage else Done clientselection
      | KEY_OPT c arg \<Rightarrow> Done clientselection)"

definition client_args :: "argp_key list \<Rightarrow> int outcome" where
  "client_args keys = fold (\<lambda>key m. obind m (client_parse_opt key)) (keys @ [KEY_END]) (Done (- 1))"

text \<open>The loop over the requests; the payload of a request is its number.\<close>

definition request_selector :: "irq_request \<Rightarrow> u32 \<Rightarrow> selector" where
  "request_selector rq payload =
     \<lparr>s_crate = rq_crate rq, s_irq = rq_irq rq, s_vector = rq_vector rq, s_payload = payload\<rparr>"

fun request_loop :: "bytes \<Rightarrow> int \<Rightarrow> u32 \<Rightarrow> irq_request list \<Rightarrow> kernel \<Rightarrow> (int \<times> kernel) outcome" where
  "request_loop junk sock payload [] k = Done (0, k)"
| "request_loop junk sock payload (rq # rqs) k =
     obind (v120irqd_request junk k sock (request_selector rq payload)) (\<lambda>(err, k).
       if err \<noteq> 0 then Done (1, k) else request_loop junk sock (payload + 1) rqs k)"

text \<open>
  One round of the endless loop: the interrupt taken from the socket, which is zeroed before, the
  acknowledgement, and the lines printed. The message is the one of the request with the number in
  the payload; \<open>None\<close> is a number behind the requests.
\<close>

definition client_report :: "int \<Rightarrow> irq_request list \<Rightarrow> selector \<Rightarrow> string list option" where
  "client_report clientselection requests st =
     (if length requests \<le> unat (s_payload st) then None
      else Some
        [''Client '' @ fmt_d clientselection @ '' receieved interrupt:'',
         ''    crate:   '' @ fmt_d (v120irqd_ilog2f (ucast (s_crate st))),
         ''    irq:     '' @ fmt_d (v120irqd_ilog2f (ucast (s_irq st))),
         ''    vector:  '' @ fmt_X 8 (unat (s_vector st)),
         ''    payload: '' @ fmt_X 8 (unat (s_payload st)),
         ''    message: '' @ rq_msg (requests ! unat (s_payload st))])"

definition client_round :: "bytes \<Rightarrow> int \<Rightarrow> kernel \<Rightarrow> (int \<times> selector \<times> kernel) outcome" where
  "client_round junk sock k =
     obind (v120irqd_getinterrupt junk k sock \<lparr>s_crate = 0, s_irq = 0, s_vector = 0, s_payload = 0\<rparr>) (\<lambda>(err, st, k).
       if err < 0 then Done (1, st, k)
       else (case v120irqd_ack junk k sock of (err, k) \<Rightarrow> Done (if err < 0 then 1 else 0, st, k)))"

text \<open>The start of the program and its first \<open>n\<close> rounds, with the interrupts received.\<close>

fun client_loop :: "nat \<Rightarrow> bytes \<Rightarrow> int \<Rightarrow> selector list \<Rightarrow> kernel \<Rightarrow> (int \<times> selector list \<times> kernel) outcome" where
  "client_loop 0 junk sock got k = Done (0, got, k)"
| "client_loop (Suc n) junk sock got k =
     obind (client_round junk sock k) (\<lambda>(ret, st, k).
       if ret \<noteq> 0 then Done (ret, got, k) else client_loop n junk sock (got @ [st]) k)"

definition client_main ::
  "nat \<Rightarrow> sock_env \<Rightarrow> bytes \<Rightarrow> kernel \<Rightarrow> argp_key list \<Rightarrow> (int \<times> selector list \<times> kernel) outcome" where
  "client_main n env junk k keys =
     obind (client_args keys) (\<lambda>clientselection.
       let sock = sr_fd (v120irqd_client env None) in
       if sock < 1 then Done (1, [], k)
       else obind (request_loop junk sock 0 (irq_request_options ! nat clientselection) k) (\<lambda>(ret, k).
         if ret \<noteq> 0 then Done (ret, [], k) else client_loop n junk sock [] k))"

section \<open>\<open>server_status.c\<close>\<close>

fun crate_list :: "u32 \<Rightarrow> nat list \<Rightarrow> bool \<Rightarrow> string" where
  "crate_list crates [] anyyet = ''''"
| "crate_list crates (idx # is) anyyet =
     (if crates AND push_bit idx 1 \<noteq> 0
      then (if anyyet then '', '' else '''') @ fmt_u idx @ crate_list crates is True
      else crate_list crates is anyyet)"

definition status_lines :: "serverstatus \<Rightarrow> string list" where
  "status_lines status =
     [''PID:        '' @ fmt_u (unat (st_pid status)),
      ''Crates:     '' @ (if st_crates status = 0 then ''[]'' else ''['' @ crate_list (st_crates status) [0..<16] False @ '']''),
      ''Clients:    '' @ fmt_u (unat (st_clients status - 1)),
      ''Interrupts: '' @ fmt_u (unat (st_irq_requests status))]"

definition server_status_main ::
  "sock_env \<Rightarrow> serverstatus \<Rightarrow> kernel \<Rightarrow> (int \<times> string list \<times> kernel) outcome" where
  "server_status_main env status k =
     (let sock = sr_fd (v120irqd_client env None) in
      if sock < 1 then Done (1, [], k)
      else obind (v120irqd_status k sock status) (\<lambda>(err, status, k).
        if err \<noteq> 0 then Done (1, [], k) else Done (0, status_lines status, k)))"

end
