(* ===== verification/Ex_Dma.thy ===== *)
theory Ex_Dma
  imports V120_Cmd
begin

text \<open>
  The example programs for DMA transfers (\<open>examples/dmatest.c\<close>, which reads, and \<open>examples/dmawrite.c\<close>, which
  writes a chain of descriptors) over the access library. The constants of the driver's header are
  parameters, as are the result of the driver call and what a transfer leaves in the buffer. A chain of
  descriptors is the list of its elements: the last has no successor.
\<close>

section \<open>Options\<close>

record dma_consts =
  PD_A16 :: u64
  PD_A24 :: u64
  PD_A32 :: u64
  PD_D16 :: u64
  PD_D32 :: u64
  PD_ESHORT :: u64
  PD_ELONG :: u64
  PD_SMAX :: u64
  PD_AWID_MASK :: u64
  PD_DWID_MASK :: u64
  PD_ENDIAN_MASK :: u64
  DMA_CTL_WRITE :: u64
  DMA_CTL_HOLD :: u64

text \<open>\<open>errno\<close> is part of the state: \<open>atoi\<close> can set it, and the other options test it.\<close>

record dma_args =
  dm_flags :: u64
  dm_crate :: int
  dm_address :: u64
  dm_silent :: bool
  dm_bufsize :: u64
  dm_errno :: int

definition LBUFSIZE :: u64 where "LBUFSIZE = 1024"

text \<open>\<open>v = strtoul(arg, &endptr, 0)\<close>, with the test of \<open>errno\<close> and of \<open>endptr\<close>.\<close>

definition eval_num :: "string \<Rightarrow> int \<Rightarrow> u64 outcome" where
  "eval_num arg errno =
     (let (v, n, errno) = strtoul 0 arg errno in if errno \<noteq> 0 \<or> n = 0 then Exit EXIT_FAILURE else Done v)"

text \<open>The two functions return an \<open>int\<close>, which is extended to the \<open>unsigned long\<close> of the flags.\<close>

definition int_flags :: "u64 \<Rightarrow> u64" where
  "int_flags x = scast (ucast x :: u32)"

definition get_awid :: "dma_consts \<Rightarrow> string \<Rightarrow> int \<Rightarrow> u64 outcome" where
  "get_awid dc arg errno =
     obind (eval_num arg errno) (\<lambda>v.
       let v = (ucast v :: u32) in
       Done (int_flags (if v = 16 then PD_A16 dc else if v = 24 then PD_A24 dc else if v = 32 then PD_A32 dc else 0)))"

definition get_dwid :: "dma_consts \<Rightarrow> string \<Rightarrow> int \<Rightarrow> u64 outcome" where
  "get_dwid dc arg errno =
     obind (eval_num arg errno) (\<lambda>v.
       let v = (ucast v :: u32) in
       if v = 16 then Done (int_flags (PD_D16 dc OR PD_ESHORT dc))
       else if v = 32 then Done (int_flags (PD_D32 dc OR PD_ELONG dc))
       else Exit EXIT_FAILURE)"

definition dma_option :: "dma_consts \<Rightarrow> char \<times> string \<Rightarrow> dma_args \<Rightarrow> dma_args outcome" where
  "dma_option dc opn a =
     (let (opt, optarg) = opn; flags = dm_flags a in
      if opt = CHR ''w'' then
        obind (get_awid dc optarg (dm_errno a)) (\<lambda>v. Done (a\<lparr>dm_flags := flags AND NOT (PD_AWID_MASK dc) OR v\<rparr>))
      else if opt = CHR ''d'' then
        obind (get_dwid dc optarg (dm_errno a)) (\<lambda>v.
          Done (a\<lparr>dm_flags := flags AND NOT (PD_DWID_MASK dc OR PD_ENDIAN_MASK dc) OR v\<rparr>))
      else if opt = CHR ''f'' then Done (a\<lparr>dm_flags := flags OR PD_SMAX dc\<rparr>)
      else if opt = CHR ''m'' then
        (let (l, _, errno) = strtol 10 optarg (dm_errno a) in Done (a\<lparr>dm_crate := sint (of_int l :: u32), dm_errno := errno\<rparr>))
      else if opt = CHR ''s'' then Done (a\<lparr>dm_silent := True\<rparr>)
      else if opt = CHR ''l'' then obind (eval_num optarg (dm_errno a)) (\<lambda>v. Done (a\<lparr>dm_bufsize := v\<rparr>))
      else if opt = CHR ''h'' then Done (a\<lparr>dm_flags := flags OR DMA_CTL_HOLD dc\<rparr>)
      else if opt = CHR ''a'' then obind (eval_num optarg (dm_errno a)) (\<lambda>v. Done (a\<lparr>dm_address := v\<rparr>))
      else if opt = CHR ''?'' then Exit EXIT_SUCCESS
      else Exit EXIT_FAILURE)"

definition dma_cmdline :: "dma_consts \<Rightarrow> u64 \<Rightarrow> int \<Rightarrow> (char \<times> string) list \<Rightarrow> dma_args outcome" where
  "dma_cmdline dc flags errno opns =
     fold (\<lambda>opn m. obind m (dma_option dc opn)) opns
       (Done \<lparr>dm_flags = flags, dm_crate = - 1, dm_address = 0, dm_silent = False, dm_bufsize = LBUFSIZE,
              dm_errno = errno\<rparr>)"

definition read_flags :: "dma_consts \<Rightarrow> u64" where
  "read_flags dc = PD_D16 dc OR PD_A16 dc OR PD_ESHORT dc"

definition write_flags :: "dma_consts \<Rightarrow> u64" where
  "write_flags dc = PD_D16 dc OR PD_A16 dc OR PD_ESHORT dc OR DMA_CTL_WRITE dc"

section \<open>Transfers\<close>

record dma_desc =
  dd_flags :: u64
  dd_ptr :: nat
  dd_size :: u64
  dd_vme_address :: u64

text \<open>The crate, and the driver call with the chain; what the call does with it is outside.\<close>

definition dma_open :: "v120_env \<Rightarrow> int \<Rightarrow> os \<Rightarrow> (v120_handle option \<times> os) outcome" where
  "dma_open env crate os = (if crate < 0 then v120_next env None os else Done (v120_open env crate os))"

definition dma_transfer :: "v120_env \<Rightarrow> nat \<Rightarrow> v120_handle \<Rightarrow> os \<Rightarrow> (int \<times> os) outcome" where
  "dma_transfer env nr h os =
     (case v120_dma_xfr env nr h os of
        (res, h, os) \<Rightarrow>
          if res < 0 then Done (EXIT_FAILURE, os)
          else obind (v120_close h os) (\<lambda>os. Done (EXIT_SUCCESS, os)))"

section \<open>\<open>dmatest.c\<close>\<close>

text \<open>Eight values in a line.\<close>

definition print_buf :: "nat \<Rightarrow> nat list \<Rightarrow> string" where
  "print_buf w buf =
     concat (map (\<lambda>i. (if i = 0 then '''' else if i mod 8 \<noteq> 0 then '' '' else [char_of (10 :: nat)]) @
                      ''0x'' @ fmt_X w (buf ! i)) [0..<length buf]) @ [char_of (10 :: nat)]"

definition print_buf16 :: "u16 list \<Rightarrow> string" where "print_buf16 buf = print_buf 4 (map unat buf)"
definition print_buf32 :: "u32 list \<Rightarrow> string" where "print_buf32 buf = print_buf 8 (map unat buf)"

text \<open>\<open>mem16\<close> and \<open>mem32\<close> are the buffer after the transfer, read in the two widths.\<close>

definition dmatest_run ::
  "v120_env \<Rightarrow> dma_consts \<Rightarrow> nat \<Rightarrow> nat \<Rightarrow> (nat \<Rightarrow> u16) \<Rightarrow> (nat \<Rightarrow> u32) \<Rightarrow> dma_args \<Rightarrow> os \<Rightarrow>
     (int \<times> dma_desc list \<times> string \<times> os) outcome" where
  "dmatest_run env dc nr buf mem16 mem32 a os =
     obind (dma_open env (dm_crate a) os) (\<lambda>(ho, os).
       case ho of
         None \<Rightarrow> Done (EXIT_FAILURE, [], '''', os)
       | Some h \<Rightarrow>
           (let desc = \<lparr>dd_flags = dm_flags a, dd_ptr = buf, dd_size = dm_bufsize a, dd_vme_address = dm_address a\<rparr> in
            obind (dma_transfer env nr h os) (\<lambda>(ret, os).
              if ret \<noteq> EXIT_SUCCESS then Done (ret, [desc], '''', os)
              else Done (EXIT_SUCCESS, [desc],
                     if dm_silent a then ''''
                     else if dm_flags a AND PD_DWID_MASK dc = PD_D16 dc
                     then print_buf16 (map mem16 [0..<unat (dm_bufsize a) div 2])
                     else print_buf32 (map mem32 [0..<unat (dm_bufsize a) div 4]), os))))"

definition dmatest_main ::
  "v120_env \<Rightarrow> dma_consts \<Rightarrow> nat \<Rightarrow> nat option \<Rightarrow> (nat \<Rightarrow> u16) \<Rightarrow> (nat \<Rightarrow> u32) \<Rightarrow> (char \<times> string) list \<Rightarrow> os \<Rightarrow>
     (int \<times> dma_desc list \<times> string \<times> os) outcome" where
  "dmatest_main env dc nr alloc mem16 mem32 opns os =
     obind (dma_cmdline dc (read_flags dc) (os_errno os) opns) (\<lambda>a.
       case alloc of
         None \<Rightarrow> Done (EXIT_FAILURE, [], '''', os)
       | Some buf \<Rightarrow> dmatest_run env dc nr buf mem16 mem32 a os)"

section \<open>\<open>dmawrite.c\<close>\<close>

text \<open>The buffer on the stack has 131072 values of two bytes. The second store of the loop counts down from
  63356 * 2, as written in the source.\<close>

definition BUF_LEN :: nat where "BUF_LEN = 65536 * 2"
definition BUF_BYTES :: u64 where "BUF_BYTES = 262144"

definition fill_step :: "nat \<Rightarrow> u16 list \<Rightarrow> u16 list" where
  "fill_step i buf = buf[i := of_nat i, 63356 * 2 - (i + 1) := of_nat i]"

definition fill_buf :: "u16 list \<Rightarrow> u16 list" where
  "fill_buf buf = fold fill_step [0..<65536] buf"

text \<open>\<open>mem n\<close> says whether the \<open>n\<close>-th descriptor can be allocated.\<close>

function dma_chain :: "(nat \<Rightarrow> bool) \<Rightarrow> nat \<Rightarrow> u64 \<Rightarrow> nat \<Rightarrow> u64 \<Rightarrow> u64 \<Rightarrow> dma_desc list option" where
  "dma_chain mem n flags buf address bufsize =
     (if BUF_BYTES < bufsize then
        (if \<not> mem (n + 1) then None
         else map_option (\<lambda>ds. \<lparr>dd_flags = flags, dd_ptr = buf, dd_size = BUF_BYTES, dd_vme_address = address\<rparr> # ds)
                (dma_chain mem (n + 1) flags buf address (bufsize - BUF_BYTES)))
      else Some [\<lparr>dd_flags = flags, dd_ptr = buf, dd_size = bufsize, dd_vme_address = address\<rparr>])"
  by pat_completeness auto
termination
  by (relation "measure (\<lambda>(mem, n, flags, buf, address, bufsize). unat bufsize)")
    (auto simp: BUF_BYTES_def word_less_nat_alt unat_sub word_le_nat_alt)

declare dma_chain.simps [simp del]

definition dmawrite_run ::
  "v120_env \<Rightarrow> nat \<Rightarrow> (nat \<Rightarrow> bool) \<Rightarrow> nat \<Rightarrow> dma_args \<Rightarrow> os \<Rightarrow> (int \<times> dma_desc list \<times> os) outcome" where
  "dmawrite_run env nr mem buf a os =
     obind (dma_open env (dm_crate a) os) (\<lambda>(ho, os).
       case ho of
         None \<Rightarrow> Done (EXIT_FAILURE, [], os)
       | Some h \<Rightarrow>
           (if \<not> mem 0 then Done (EXIT_FAILURE, [], os)
            else case dma_chain mem 0 (dm_flags a) buf (dm_address a) (dm_bufsize a) of
              None \<Rightarrow> Done (EXIT_FAILURE, [], os)
            | Some ds \<Rightarrow> obind (dma_transfer env nr h os) (\<lambda>(ret, os). Done (ret, ds, os))))"

definition dmawrite_main ::
  "v120_env \<Rightarrow> dma_consts \<Rightarrow> nat \<Rightarrow> (nat \<Rightarrow> bool) \<Rightarrow> nat \<Rightarrow> (char \<times> string) list \<Rightarrow> os \<Rightarrow>
     (int \<times> dma_desc list \<times> os) outcome" where
  "dmawrite_main env dc nr mem buf opns os =
     obind (dma_cmdline dc (write_flags dc) (os_errno os) opns) (\<lambda>a. dmawrite_run env nr mem buf a os)"

section \<open>The chain\<close>

lemma dma_chain_eq:
  assumes "dma_chain mem n flags buf address bufsize = Some ds"
  shows "ds \<noteq> [] \<and> sum_list (map (unat \<circ> dd_size) ds) = unat bufsize \<and>
    (\<forall>d \<in> set (butlast ds). dd_size d = BUF_BYTES) \<and> dd_size (last ds) \<le> BUF_BYTES \<and>
    (\<forall>d \<in> set ds. dd_flags d = flags \<and> dd_ptr d = buf \<and> dd_vme_address d = address) \<and>
    (bufsize \<noteq> 0 \<longrightarrow> 0 < dd_size (last ds))"
  using assms
proof (induction mem n flags buf address bufsize arbitrary: ds rule: dma_chain.induct)
  case (1 mem n flags buf address bufsize)
  show ?case
  proof (cases "BUF_BYTES < bufsize")
    case True
    then obtain ds' where ds: "mem (n + 1)" "dma_chain mem (n + 1) flags buf address (bufsize - BUF_BYTES) = Some ds'"
      "ds = \<lparr>dd_flags = flags, dd_ptr = buf, dd_size = BUF_BYTES, dd_vme_address = address\<rparr> # ds'"
      using 1(2) by (subst (asm) dma_chain.simps) (auto split: if_splits)
    have "unat (bufsize - BUF_BYTES) = unat bufsize - unat BUF_BYTES" "unat BUF_BYTES \<le> unat bufsize" "bufsize - BUF_BYTES \<noteq> 0"
      using True by (auto simp: unat_sub word_le_nat_alt word_less_nat_alt)
    then show ?thesis using 1(1) [OF True _ ds(2)] ds by auto
  next
    case False
    then show ?thesis using 1(2) by (subst (asm) dma_chain.simps) (auto simp: word_neq_0_conv)
  qed
qed

end
