(* ===== verification/Ex_Device.thy ===== *)
theory Ex_Device
  imports Ex_Irq Ex_Dma "HOL-Library.Sublist"
begin

text \<open>
  The example programs for one device: \<open>examples/v680test2.c\<close>, which takes the interrupts of a V680 module
  from the interrupt endpoint of the driver, \<open>v680test.c\<close>, which takes them from the dispatch service,
  \<open>v120fakeirq.c\<close>, where a child waits for the interrupt its parent makes, and \<open>polltest.c\<close>. What the module,
  the registers of the controller, the clock and the driver answer are parameters or labels of steps.
\<close>

section \<open>The V680 programs: options and start\<close>

record v680_opts =
  EARLY_WAKE :: bool
  USE_REALTIME :: bool

definition FAST :: int where "FAST = 256"
definition MLOCK :: int where "MLOCK = 257"
definition RT :: int where "RT = 258"

text \<open>Every other key, arguments too, is accepted. \<open>mlock_fails\<close> is the answer of \<open>mlockall\<close>.\<close>

definition v680_parse_opt :: "bool \<Rightarrow> int \<Rightarrow> v680_opts \<Rightarrow> v680_opts outcome" where
  "v680_parse_opt mlock_fails key opts =
     (if key = FAST then Done (opts\<lparr>EARLY_WAKE := True\<rparr>)
      else if key = MLOCK then (if mlock_fails then Exit 1 else Done opts)
      else if key = RT then Done (opts\<lparr>USE_REALTIME := True\<rparr>)
      else Done opts)"

definition v680_parseArgs :: "bool \<Rightarrow> int list \<Rightarrow> v680_opts outcome" where
  "v680_parseArgs mlock_fails keys =
     fold (\<lambda>key m. obind m (v680_parse_opt mlock_fails key)) keys (Done \<lparr>EARLY_WAKE = False, USE_REALTIME = False\<rparr>)"

text \<open>The registers of the module the programs touch: the first two are read, the others written.\<close>

datatype v680_reg = vxi_mfr | vxi_type | dut_vector | dut_control | dut_irqmask | dut_resets

definition V68O_CTL_FGATE :: u16 where "V68O_CTL_FGATE = BIT 1"
definition GATEFLAG :: u16 where "GATEFLAG = BIT 9"

definition v680_region :: "dma_consts \<Rightarrow> vme_region" where
  "v680_region dc =
     \<lparr>vr_base = None, vr_start_page = 0, vr_end_page = 0, vr_vme_addr = 0xE000, vr_len = 64,
      vr_config = PD_A16 dc OR PD_ESHORT dc OR PD_SMAX dc OR PD_D16 dc, vr_tag = Some ''V680 DUT''\<rparr>"

text \<open>How a program ends, or a thread.\<close>

datatype v680_end = Returned int | Aborted | Crashed

text \<open>
  \<open>main\<close> up to the thread: the result of \<open>v120_allocate_vme\<close> is not tested, and a region without a
  base is read at NULL. \<open>err\<close> is the answer of \<open>pthread_create\<close>.
\<close>

definition v680_start ::
  "v120_env \<Rightarrow> dma_consts \<Rightarrow> (v680_reg \<Rightarrow> u16) \<Rightarrow> int \<Rightarrow> os \<Rightarrow> (v680_end + v120_handle \<times> nat) \<times> os" where
  "v680_start env dc dut err os =
     (case v120_open env 0 os of
        (None, os) \<Rightarrow> (Inl (Returned 1), os)
      | (Some crate, os) \<Rightarrow>
          (case v120_allocate_vme env (v120_add_vme_region crate (v680_region dc)) os 0 of
             (_, crate, os) \<Rightarrow>
               (case vr_base (hd (h_list crate)) of
                  None \<Rightarrow> (Inl Crashed, os)
                | Some base \<Rightarrow>
                    (if dut vxi_mfr \<noteq> 0xFEEE \<or> dut vxi_type \<noteq> 22680 then Inl Aborted
                     else if err \<noteq> 0 then Inl (Returned 1) else Inr (crate, base), os))))"

section \<open>The threads of \<open>v680test2.c\<close>\<close>

text \<open>
  What a thread does, with what is answered: stores in the module, accesses to the interrupt registers,
  the read of the endpoint, the scheduler call, readings of the clock, and the rest.
\<close>

datatype v680_ev =
    Store v680_reg u16 | Iackcfg u32 | Irqen u32 | Irqstatus u32 | Iack_vector u32
  | Sched int | Irq_open int | Endpoint int | Line string | Wake | Handler | Now int | Slept | Acked

text \<open>The listener: where it stands, and the step it makes with an event. \<open>Iq_exit\<close> ends the process.\<close>

datatype irq_pc = Iq_sched | Iq_open | Iq_cfg | Iq_enable | Iq_wait | Iq_status | Iq_vector | Iq_reset u32 | Iq_print u32
  | Iq_wake | Iq_exit string

definition irq_start :: "v680_opts \<Rightarrow> irq_pc" where
  "irq_start opts = (if USE_REALTIME opts then Iq_sched else Iq_open)"

definition process_interrupts :: "v680_opts \<Rightarrow> irq_pc \<Rightarrow> v680_ev \<Rightarrow> irq_pc option" where
  "process_interrupts opts pc ev =
     (case pc of
        Iq_sched \<Rightarrow> (case ev of Sched r \<Rightarrow> Some (if r \<noteq> 0 then Iq_exit '''' else Iq_open) | _ \<Rightarrow> None)
      | Iq_open \<Rightarrow> (case ev of Irq_open fd \<Rightarrow> Some Iq_cfg | _ \<Rightarrow> None)
      | Iq_cfg \<Rightarrow> if ev = Iackcfg 0xFFFFFFFF then Some Iq_enable else None
      | Iq_enable \<Rightarrow> if ev = Irqen (push_bit 7 1) then Some Iq_wait else None
      | Iq_wait \<Rightarrow>
          (case ev of Endpoint r \<Rightarrow>
             Some (if r = 0
                   then Iq_exit ''IRQ endpoint closed.''
                   else Iq_status)
           | _ \<Rightarrow> None)
      | Iq_status \<Rightarrow>
          (case ev of Irqstatus s \<Rightarrow>
             Some (if s AND push_bit 7 1 = 0
                   then Iq_exit (''IRQ 0x'' @ fmt_X 2 (unat s) @ '' not 7'')
                   else Iq_vector)
           | _ \<Rightarrow> None)
      | Iq_vector \<Rightarrow>
          (case ev of Iack_vector v \<Rightarrow>
             Some (if v \<noteq> 0xFFFF008E
                   then Iq_exit (''Vector '' @ fmt_X 8 (unat v) @ '' not 0xFFFF008E'')
                   else Iq_reset v)
           | _ \<Rightarrow> None)
      | Iq_reset v \<Rightarrow> if ev = Store dut_resets GATEFLAG then Some (Iq_print v) else None
      | Iq_print v \<Rightarrow>
          if ev = Line (''Got interrupt, IRQ 7, vector '' @ fmt_X 4 (unat v))
          then Some (if EARLY_WAKE opts then Iq_wake else Iq_wait) else None
      | Iq_wake \<Rightarrow> if ev = Wake then Some Iq_wait else None
      | Iq_exit l \<Rightarrow> None)"

text \<open>The main thread once the listener runs: the time of the end, and the three stores of a pulse.\<close>

datatype main_pc = Mn_vector | Mn_mask | Mn_handler | Mn_end | Mn_test int | Mn_low int | Mn_high int | Mn_low2 int
  | Mn_sleep int | Mn_done | Mn_ret

definition v680_main :: "main_pc \<Rightarrow> v680_ev \<Rightarrow> main_pc option" where
  "v680_main pc ev =
     (case pc of
        Mn_vector \<Rightarrow> if ev = Store dut_vector 0x8E then Some Mn_mask else None
      | Mn_mask \<Rightarrow> if ev = Store dut_irqmask GATEFLAG then Some Mn_handler else None
      | Mn_handler \<Rightarrow> if ev = Handler then Some Mn_end else None
      | Mn_end \<Rightarrow> (case ev of Now t \<Rightarrow> Some (Mn_test (t + 10)) | _ \<Rightarrow> None)
      | Mn_test e \<Rightarrow> (case ev of Now t \<Rightarrow> Some (if t < e then Mn_low e else Mn_done) | _ \<Rightarrow> None)
      | Mn_low e \<Rightarrow> if ev = Store dut_control 0 then Some (Mn_high e) else None
      | Mn_high e \<Rightarrow> if ev = Store dut_control V68O_CTL_FGATE then Some (Mn_low2 e) else None
      | Mn_low2 e \<Rightarrow> if ev = Store dut_control 0 then Some (Mn_sleep e) else None
      | Mn_sleep e \<Rightarrow> if ev = Slept then Some (Mn_test e) else None
      | Mn_done \<Rightarrow> if ev = Line ''Done.'' then Some Mn_ret else None
      | Mn_ret \<Rightarrow> None)"

text \<open>
  The process: the threads move in any order until \<open>main\<close> returns or the listener calls \<open>exit\<close>. The trace
  has the events of both, the listener's marked with \<open>True\<close>, the latest last.
\<close>

record v680 =
  v6_main :: main_pc
  v6_irq :: irq_pc
  v6_trace :: "(bool \<times> v680_ev) list"

definition v680_alive :: "main_pc \<Rightarrow> irq_pc \<Rightarrow> bool" where
  "v680_alive m q \<longleftrightarrow> m \<noteq> Mn_ret \<and> (case q of Iq_exit l \<Rightarrow> False | _ \<Rightarrow> True)"

inductive v680_run :: "v680_opts \<Rightarrow> v680 \<Rightarrow> bool" for opts where
  started: "v680_run opts \<lparr>v6_main = Mn_vector, v6_irq = irq_start opts, v6_trace = []\<rparr>"
| main_moves: "v680_run opts s \<Longrightarrow> v680_alive (v6_main s) (v6_irq s) \<Longrightarrow> v680_main (v6_main s) ev = Some pc \<Longrightarrow>
    v680_run opts (s\<lparr>v6_main := pc, v6_trace := v6_trace s @ [(False, ev)]\<rparr>)"
| irq_moves: "v680_run opts s \<Longrightarrow> v680_alive (v6_main s) (v6_irq s) \<Longrightarrow>
    process_interrupts opts (v6_irq s) ev = Some pc \<Longrightarrow>
    v680_run opts (s\<lparr>v6_irq := pc, v6_trace := v6_trace s @ [(True, ev)]\<rparr>)"

section \<open>The listener of \<open>v680test.c\<close>\<close>

definition v680_selector :: selector where
  "v680_selector = \<lparr>s_crate = BIT 0, s_irq = BIT 7, s_vector = 0xFFFF008E, s_payload = 0\<rparr>"

text \<open>\<open>Inl\<close> is the end of the process, \<open>Inr\<close> the socket.\<close>

definition v680_listen :: "v680_opts \<Rightarrow> int \<Rightarrow> sock_env \<Rightarrow> bytes \<Rightarrow> kernel \<Rightarrow> ((v680_end + int) \<times> kernel) outcome" where
  "v680_listen opts sched env junk k =
     (if USE_REALTIME opts \<and> sched \<noteq> 0 then Done (Inl (Returned 1), k)
      else (let irqd = sr_fd (v120irqd_client env None) in
        if irqd < 0 then Done (Inl (Returned 1), k)
        else obind (v120irqd_request junk k irqd v680_selector) (\<lambda>(err, k).
          Done (if err \<noteq> 0 then Inl (Returned 1) else Inr irqd, k))))"

text \<open>
  One round of the loop. A failed call ends the thread only. The third assertion assigns the vector, so it
  holds whatever came.
\<close>

datatype v680_round = Next | Thread_done | Assert_failed

definition v680_client_round ::
  "v680_opts \<Rightarrow> bytes \<Rightarrow> int \<Rightarrow> selector \<Rightarrow> kernel \<Rightarrow> (v680_round \<times> v680_ev list \<times> selector \<times> kernel) outcome" where
  "v680_client_round opts junk irqd selector k =
     obind (v120irqd_getinterrupt junk k irqd selector) (\<lambda>(status, selector, k).
       if status \<noteq> 0 then Done (Thread_done, [], selector, k)
       else (case v120irqd_ack junk k irqd of (_, k) \<Rightarrow>
         (let did = [Store dut_resets GATEFLAG, Acked,
                     Line (''Got interrupt, IRQ '' @ fmt_d (v120irqd_ilog2f (ucast (s_irq selector))) @ '', vector '' @
                           fmt_X 4 (unat (s_vector selector)))] in
          if s_crate selector \<noteq> BIT 0 \<or> s_irq selector \<noteq> BIT 7 then Done (Assert_failed, did, selector, k)
          else Done (Next, did @ (if EARLY_WAKE opts then [Wake] else []), selector\<lparr>s_vector := 0xFFFF008E\<rparr>, k))))"

section \<open>\<open>v120fakeirq.c\<close>\<close>

text \<open>The two accesses of each process to \<open>irqen\<close>: the value read, and the value written.\<close>

definition FAKE_BIT :: u32 where "FAKE_BIT = push_bit (3 + 8) 1"

definition make_fakeirq :: "u32 \<Rightarrow> u32 \<times> string list" where
  "make_fakeirq irqen = (irqen OR FAKE_BIT, [''IRQEN = 0x'' @ fmt_X 8 (unat irqen), ''Generated interrupt.''])"

definition fakeirq_request :: selector where
  "fakeirq_request = \<lparr>s_crate = BIT 0, s_irq = BIT 3, s_vector = ANYVECTOR, s_payload = 0\<rparr>"

text \<open>The result, the lines printed, and the value of \<open>irqen\<close>, which is only written once the interrupt came.\<close>

definition wait_fakeirq ::
  "sock_env \<Rightarrow> bytes \<Rightarrow> u32 \<Rightarrow> kernel \<Rightarrow> (int \<times> string list \<times> u32 \<times> kernel) outcome" where
  "wait_fakeirq env junk irqen k =
     (let sock = sr_fd (v120irqd_client env None) in
      if sock < 1 then Done (1, [''Opening socket.''], irqen, k)
      else obind (v120irqd_request junk k sock fakeirq_request) (\<lambda>(err, k).
        if err \<noteq> 0 then Done (1, [''Opening socket.''], irqen, k)
        else obind (v120irqd_getinterrupt junk k sock fakeirq_request) (\<lambda>(err, irq_request, k).
          if err \<noteq> 0 then Done (1, [''Opening socket.'', ''Waiting on interrupt.''], irqen, k)
          else (case v120irqd_ack junk k sock of (err, k) \<Rightarrow>
            Done (if err \<noteq> 0 then 1 else 0,
              [''Opening socket.'', ''Waiting on interrupt.'', ''Receieved interrupt:'',
               ''    crate:   '' @ fmt_d (v120irqd_ilog2f (ucast (s_crate irq_request))),
               ''    irq:     '' @ fmt_d (v120irqd_ilog2f (ucast (s_irq irq_request))),
               ''    vector:  '' @ fmt_X 8 (unat (s_vector irq_request)),
               ''    payload: '' @ fmt_X 8 (unat (s_payload irq_request))],
              irqen AND NOT FAKE_BIT, k)))))"

text \<open>
  What one process does: \<open>pid\<close> is the answer of \<open>fork\<close> to it, and \<open>irqen\<close> what it reads there. \<open>None\<close> is
  the access through the NULL handle of a crate that could not be opened.
\<close>

definition v120fakeirq_main ::
  "v120_env \<Rightarrow> sock_env \<Rightarrow> bytes \<Rightarrow> int \<Rightarrow> u32 \<Rightarrow> kernel \<Rightarrow> os \<Rightarrow> (int \<times> string list \<times> u32 \<times> kernel) outcome option \<times> os" where
  "v120fakeirq_main env senv junk pid irqen k os =
     (case v120_open env 0 os of
        (None, os) \<Rightarrow> (None, os)
      | (Some hVME, os) \<Rightarrow>
          (Some (if pid < 0 then Done (1, [], irqen, k)
                 else if pid = 0 then wait_fakeirq senv junk irqen k
                 else (case make_fakeirq irqen of
                         (irqen, ls) \<Rightarrow> Done (0, ls @ [''Child process complete; exiting''], irqen, k))), os))"

section \<open>\<open>polltest.c\<close>\<close>

record poll_args =
  pa_crate :: int
  pa_mswait :: int
  pa_errno :: int

text \<open>\<open>inval\<close> ends the program. The values are stored in an \<open>int\<close>.\<close>

definition poll_option :: "char \<times> string \<Rightarrow> poll_args \<Rightarrow> poll_args outcome" where
  "poll_option opn a =
     (case opn of (opt, optarg) \<Rightarrow>
        (let (v, n, errno) = strtoul 0 optarg (pa_errno a); v = sint (ucast v :: u32) in
         if opt = CHR ''m'' then
           (if errno \<noteq> 0 \<or> n = 0 \<or> 15 < v then Exit EXIT_FAILURE else Done (a\<lparr>pa_crate := v, pa_errno := errno\<rparr>))
         else if opt = CHR ''w'' then
           (if errno \<noteq> 0 \<or> n = 0 then Exit EXIT_FAILURE
            else Done (a\<lparr>pa_mswait := if v < 100 then 100 else v, pa_errno := errno\<rparr>))
         else if opt = CHR ''?'' then Exit EXIT_SUCCESS
         else Exit EXIT_FAILURE))"

definition poll_cmdline :: "int \<Rightarrow> (char \<times> string) list \<Rightarrow> poll_args outcome" where
  "poll_cmdline errno opns =
     fold (\<lambda>opn m. obind m (poll_option opn)) opns (Done \<lparr>pa_crate = 0, pa_mswait = 12000, pa_errno = errno\<rparr>)"

text \<open>\<open>poll\<close> is the answer of the call for the descriptor and the time.\<close>

definition polltest_main ::
  "v120_env \<Rightarrow> (int \<Rightarrow> int \<Rightarrow> int) \<Rightarrow> (char \<times> string) list \<Rightarrow> os \<Rightarrow> (string \<times> os) outcome" where
  "polltest_main env poll opns os =
     obind (poll_cmdline (os_errno os) opns) (\<lambda>a.
       let filename = ''/dev/v120_q'' @ fmt_d (pa_crate a);
           (fd, os) = sys_open env filename os in
       if fd < 0 then Exit EXIT_FAILURE
       else Done (''poll('' @ filename @ '')='' @ fmt_d (poll fd (pa_mswait a)), os_close fd os))"

end
