(* ===== verification/Ex_Irq_Props.thy ===== *)
theory Ex_Irq_Props
  imports Ex_Irq
begin

text \<open>
  The example clients and the daemon together: a fake interrupt reaches the client that asked for it,
  and a client finds the message of its own request for everything it receives.
\<close>

section \<open>What \<open>fakeirq\<close> asks for\<close>

definition one_crate :: "selector \<Rightarrow> bool" where
  "one_crate s \<longleftrightarrow> (\<exists>c < 16. s_crate s = push_bit c 1)"

definition one_irq :: "selector \<Rightarrow> bool" where
  "one_irq s \<longleftrightarrow> (\<exists>i. 1 \<le> i \<and> i \<le> 7 \<and> s_irq s = push_bit i 1)"

definition fake_info_ok :: "selector \<Rightarrow> bool" where
  "fake_info_ok s \<longleftrightarrow> (s_crate s = 0 \<or> one_crate s) \<and> (s_irq s = 0 \<or> one_irq s) \<and> s_payload s = 0"

lemma set_crate_ok: "set_crate crate s = Done t \<Longrightarrow> fake_info_ok s \<Longrightarrow> fake_info_ok t"
proof -
  assume "set_crate crate s = Done t" "fake_info_ok s"
  then have t: "t = s\<lparr>s_crate := push_bit (unat crate) 1\<rparr>" "unat crate < 16" "fake_info_ok s"
    by (auto simp: set_crate_def argp_failure_def word_le_nat_alt split: if_splits)
  then have "one_crate t" "one_irq t \<longleftrightarrow> one_irq s" by (auto simp: one_crate_def one_irq_def)
  with t show ?thesis by (simp add: fake_info_ok_def)
qed

lemma set_irq_ok: "set_irq irq s = Done t \<Longrightarrow> fake_info_ok s \<Longrightarrow> fake_info_ok t"
proof -
  assume "set_irq irq s = Done t" "fake_info_ok s"
  then have t: "t = s\<lparr>s_irq := push_bit (unat irq) 1\<rparr>" "1 \<le> unat irq" "unat irq \<le> 7" "fake_info_ok s"
    by (auto simp: set_irq_def argp_failure_def word_le_nat_alt word_less_nat_alt split: if_splits)
  then have "one_irq t" unfolding one_irq_def by (intro exI [of _ "unat irq"]) simp
  moreover have "one_crate t \<longleftrightarrow> one_crate s" using t(1) by (simp add: one_crate_def)
  ultimately show ?thesis using t by (simp add: fake_info_ok_def)
qed

lemma set_vector_ok: "set_vector v s = Done t \<Longrightarrow> fake_info_ok s \<Longrightarrow> fake_info_ok t"
  by (auto simp: set_vector_def fake_info_ok_def argp_failure_def one_crate_def one_irq_def split: if_splits)

lemma fakeirq_parse_opt_ok:
  assumes "fakeirq_parse_opt key s = Done t" "fake_info_ok s"
  shows "fake_info_ok t"
proof (cases key)
  case (KEY_ARG arg)
  then show ?thesis
    using assms set_crate_ok set_irq_ok set_vector_ok
    by (auto simp: fakeirq_parse_opt_def obind_eq_Done argp_failure_def split: option.splits)
qed (use assms in \<open>auto simp: fakeirq_parse_opt_def obind_eq_Done argp_usage_def
      intro: set_crate_ok set_irq_ok set_vector_ok split: if_splits\<close>)

lemma fold_obind_invariant:
  assumes "\<And>x s t. f x s = Done t \<Longrightarrow> I s \<Longrightarrow> I t"
  shows "fold (\<lambda>x m. obind m (f x)) xs m = Done t \<Longrightarrow> (\<And>s. m = Done s \<Longrightarrow> I s) \<Longrightarrow> I t"
proof (induction xs arbitrary: m)
  case (Cons x xs)
  show ?case
    by (rule Cons.IH [OF Cons.prems(1) [simplified]]) (use assms Cons.prems(2) in \<open>auto simp: obind_eq_Done\<close>)
qed simp

lemma fakeirq_args_ok:
  assumes "fakeirq_args keys = Done info"
  shows "one_crate info \<and> one_irq info \<and> s_payload info = 0"
proof -
  let ?run = "fold (\<lambda>key m. obind m (fakeirq_parse_opt key)) keys
    (Done \<lparr>s_crate = 0, s_irq = 0, s_vector = 0, s_payload = 0\<rparr>)"
  obtain s where s: "?run = Done s" "fakeirq_parse_opt KEY_END s = Done info"
    using assms by (auto simp: fakeirq_args_def obind_eq_Done)
  have "fake_info_ok s"
    using fold_obind_invariant [where f = fakeirq_parse_opt and I = fake_info_ok, OF fakeirq_parse_opt_ok s(1)]
    by (auto simp: fake_info_ok_def)
  then show ?thesis
    using s(2) by (auto simp: fakeirq_parse_opt_def fake_info_ok_def argp_usage_def split: if_splits)
qed

section \<open>A fake interrupt\<close>

text \<open>C37: the fake interrupt of \<open>fakeirq\<close>, all three parties together. Every accepted command line asks for
  one crate and one of the lines 1 to 7. When the daemon allows fake interrupts and a registration
  matches, the daemon acknowledges it and sends one message to the client that registered first;
  \<open>fakeirq\<close> then returns 0, and the round of the client's loop gets the selector with the payload
  of its own request and acknowledges it.\<close>

theorem fakeirq_reaches_client:
  assumes "daemon_ok d" "allowFakeIrq (d_settings d)" "fakeirq_args keys = Done info"
    and "sock = p_fd (d_fds d ! idx)" "request = rb_set_selector (rb_set_msg junk IRQ_SIGNAL) info"
    and "k_in (d_kern d) sock = RecvMsg request # rs" "k_wr (d_kern d) sock = []"
    and "length junk = RB_SIZE" "length (e_junk env) = RB_SIZE"
    and "lookup_entry (live (d_table d)) info = Some e" "t_data e \<noteq> sock"
    and "k_in (d_kern d) (t_data e) = RecvMsg a # as" "k_wr (d_kern d) (t_data e) = []"
    and "length a = RB_SIZE" "rb_msg a = ACK"
  shows "one_crate info \<and> one_irq info \<and>
    (\<exists>d' g m. process_client env idx d = Done d' \<and>
       k_out (d_kern d') = k_out (d_kern d) @ [(sock, g), (t_data e, m)] \<and>
       (\<forall>senv k gs. 1 \<le> se_socket senv \<longrightarrow> \<not> se_connect_fails senv \<longrightarrow> k_wr k (se_socket senv) = [] \<longrightarrow>
          k_in k (se_socket senv) = RecvMsg g # gs \<longrightarrow>
          (\<exists>k'. fakeirq_main senv junk k keys = Done (0, k') \<and> k_out k' = k_out k @ [(se_socket senv, request)])) \<and>
       (\<forall>junk' k cs gs. length junk' = RB_SIZE \<longrightarrow> k_wr k cs = [] \<longrightarrow> k_in k cs = RecvMsg m # gs \<longrightarrow>
          (\<exists>k'. client_round junk' cs k = Done (0, info\<lparr>s_payload := s_payload (t_selector e)\<rparr>, k') \<and>
            k_out k' = k_out k @ [(cs, rb_set_msg junk' ACK)])))"
proof -
  have tab: "table_ok (d_table d)" using assms(1) by (auto simp: daemon_ok_def)
  have live: "t_data e \<noteq> 0"
    using assms(10) tab find_in_set [of _ "live (d_table d)" e] live_is_live unfolding lookup_entry_def by blast
  have req: "length request = RB_SIZE" "rb_msg request = IRQ_SIGNAL" "rb_selector request = info"
    using assms(8) by (simp_all add: assms(5))
  define g where "g = rb_set_msg (e_junk env) ACK"
  define m where "m = rb_set_selector (rb_set_msg (e_junk env) IRQ_SIGNAL) (info\<lparr>s_payload := s_payload (t_selector e)\<rparr>)"
  have g: "length g = RB_SIZE" "rb_msg g = ACK" using assms(9) by (simp_all add: g_def)
  have m: "length m = RB_SIZE" "rb_msg m = IRQ_SIGNAL" "rb_selector m = info\<lparr>s_payload := s_payload (t_selector e)\<rparr>"
    using assms(9) by (simp_all add: m_def)
  define k1 where "k1 = (d_kern d)\<lparr>k_in := (k_in (d_kern d))(sock := rs), k_out := k_out (d_kern d) @ [(sock, g)]\<rparr>"
  have "process_client env idx d = handle_fake env sock request
      (d\<lparr>d_kern := (d_kern d)\<lparr>k_in := (k_in (d_kern d))(sock := rs)\<rparr>\<rparr>)"
    using process_client_message [of d idx request rs env] req assms(4,6,9) by (simp add: Let_def message_defs)
  also have "\<dots> = obind (notify_irq env (d\<lparr>d_kern := k1\<rparr>) info) (\<lambda>(e, d). Done d)"
    using assms(2,7) req(3) by (simp add: handle_fake_def with_kern_def ack_ok k1_def g_def)
  also have "\<dots> = Done (d\<lparr>d_kern := k1\<lparr>k_in := (k_in k1)(t_data e := as), k_out := k_out k1 @ [(t_data e, m)]\<rparr>\<rparr>)"
    using assms(9-15) tab live interrupt_acked [of k1 "t_data e" a as "e_junk env" "info\<lparr>s_payload := s_payload (t_selector e)\<rparr>"]
    by (simp add: notify_irq_def find_interrupt_eq m_def k1_def)
  finally have run: "process_client env idx d =
      Done (d\<lparr>d_kern := k1\<lparr>k_in := (k_in k1)(t_data e := as), k_out := k_out k1 @ [(t_data e, m)]\<rparr>\<rparr>)" .
  have sender: "\<exists>k'. fakeirq_main senv junk k keys = Done (0, k') \<and> k_out k' = k_out k @ [(se_socket senv, request)]"
    if "1 \<le> se_socket senv" "\<not> se_connect_fails senv" "k_wr k (se_socket senv) = []"
      "k_in k (se_socket senv) = RecvMsg g # gs" for senv k gs
    using that assms(3,5) g req(1) recv_full_message [of "k\<lparr>k_out := k_out k @ [(se_socket senv, request)]\<rparr>" "se_socket senv" g gs request]
    by (simp add: fakeirq_main_def v120irqd_client_def v120irqd_interrupt_def msg_send_ok Let_def RB_SIZE_def)
  have receiver: "\<exists>k'. client_round junk' cs k = Done (0, info\<lparr>s_payload := s_payload (t_selector e)\<rparr>, k') \<and>
      k_out k' = k_out k @ [(cs, rb_set_msg junk' ACK)]"
    if "length junk' = RB_SIZE" "k_wr k cs = []" "k_in k cs = RecvMsg m # gs" for junk' k cs gs
    using that m recv_full_message [of k cs m gs junk']
    by (simp add: client_round_def v120irqd_getinterrupt_def ack_ok RB_SIZE_def)
  show ?thesis
    using fakeirq_args_ok [OF assms(3)] run sender receiver
    by (intro conjI exI [of _ g] exI [of _ m] exI) (auto simp: k1_def)
qed

definition fake_a :: bytes where
  "fake_a = rb_set_selector (rb_set_msg (replicate RB_SIZE 0) IRQ_SIGNAL) (sel_a\<lparr>s_payload := 0\<rparr>)"

text \<open>\<open>daemon_a\<close> with fake interrupts allowed and a second client, whose message is the one of \<open>fakeirq\<close>.\<close>

definition daemon_f :: daemon where
  "daemon_f = daemon_a\<lparr>d_fds := d_fds daemon_a @ [\<lparr>p_fd = 9, p_events = 1, p_revents = 1\<rparr>], d_len_pollfds := 4,
     d_settings := \<lparr>allowFakeIrq = True, debugMode = False, noDaemon = False, noVME = False\<rparr>,
     d_kern := (d_kern daemon_a)\<lparr>k_in := (\<lambda>s. [RecvMsg (if s = 9 then fake_a else ack_frame)])\<rparr>\<rparr>"

lemma daemon_f_ok: "daemon_ok daemon_f"
  by (simp add: daemon_ok_def fds_ok_def info_ok_def client_fds_def daemon_f_def daemon_a_def tab_a_ok irq_mask_ok_def)

theorem fakeirq_reaches_client_witness:
  "\<exists>d' g m. process_client env_a 3 daemon_f = Done d' \<and> k_out (d_kern d') = [(9, g), (7, m)] \<and>
    (\<exists>k'. client_round (replicate RB_SIZE 0) 7 (d_kern (daemon_with [m])) = Done (0, sel_a, k'))"
proof -
  let ?junk = "replicate RB_SIZE 0 :: bytes"
  have args: "fakeirq_args [KEY_ARG ''0:2:55''] = Done (sel_a\<lparr>s_payload := 0\<rparr>)"
    by (simp add: fakeirq_args_def fakeirq_parse_opt_def scan_triple_def scan_num_def scan_colon_def bare_prefix_def
        set_crate_def set_irq_def set_vector_def sel_a_def num_eval)
  have look: "lookup_entry (live (d_table daemon_f)) (sel_a\<lparr>s_payload := 0\<rparr>) = Some \<lparr>t_selector = sel_a, t_data = 7\<rparr>"
    by (simp add: daemon_f_def daemon_a_def tab_a_ok lookup_entry_def sel_match_masks sel_a_def)
  have "length ack_frame = RB_SIZE" "rb_msg ack_frame = ACK" by (simp_all add: ack_frame_def)
  with fakeirq_reaches_client [OF daemon_f_ok _ args, of 9 3 fake_a ?junk "[]" env_a _ ack_frame "[]"] look
  obtain d' g m where "process_client env_a 3 daemon_f = Done d'" "k_out (d_kern d') = [(9, g), (7, m)]"
    and client: "\<forall>junk' k cs gs. length junk' = RB_SIZE \<longrightarrow> k_wr k cs = [] \<longrightarrow> k_in k cs = RecvMsg m # gs \<longrightarrow>
          (\<exists>k'. client_round junk' cs k = Done (0, sel_a, k') \<and>
            k_out k' = k_out k @ [(cs, rb_set_msg junk' ACK)])"
    by (fastforce simp: daemon_f_def daemon_a_def fake_a_def sel_a_def)
  moreover have "\<exists>k'. client_round ?junk 7 (d_kern (daemon_with [m])) = Done (0, sel_a, k')"
    using client by (metis daemon_with_simps(5,6) length_replicate list.map)
  ultimately show ?thesis by blast
qed

section \<open>What a client gets back\<close>

text \<open>The registrations the daemon makes of the requests of \<open>client.c\<close>, when it accepts all of them.\<close>

fun register_all :: "(nat \<Rightarrow> bool) \<Rightarrow> int \<Rightarrow> u32 \<Rightarrow> irq_request list \<Rightarrow> table_t list \<Rightarrow> table_t list option" where
  "register_all ralloc sd payload [] tab = Some tab"
| "register_all ralloc sd payload (rq # rqs) tab =
     (case register_interrupt ralloc tab sd (request_selector rq payload) of
        (ret, tab) \<Rightarrow> if ret = 0 then register_all ralloc sd (payload + 1) rqs tab else None)"

fun request_entries :: "int \<Rightarrow> u32 \<Rightarrow> irq_request list \<Rightarrow> table_t list" where
  "request_entries sd payload [] = []"
| "request_entries sd payload (rq # rqs) =
     \<lparr>t_selector = request_selector rq payload, t_data = sd\<rparr> # request_entries sd (payload + 1) rqs"

lemma length_request_entries [simp]: "length (request_entries sd p rqs) = length rqs"
  by (induction sd p rqs rule: request_entries.induct) auto

lemma nth_request_entries:
  "i < length rqs \<Longrightarrow> request_entries sd p rqs ! i = \<lparr>t_selector = request_selector (rqs ! i) (p + of_nat i), t_data = sd\<rparr>"
  by (induction sd p rqs arbitrary: i rule: request_entries.induct) (auto simp: nth_Cons' algebra_simps)

lemma register_all_live:
  assumes "table_ok tab" "register_all ralloc sd p rqs tab = Some tab'"
  shows "table_ok tab' \<and> live tab' = live tab @ request_entries sd p rqs"
  using assms
proof (induction ralloc sd p rqs tab rule: register_all.induct)
  case (2 ralloc sd p rq rqs tab)
  obtain ret tab1 where reg: "register_interrupt ralloc tab sd (request_selector rq p) = (ret, tab1)" by fastforce
  with 2(3) have "ret = 0" by (simp split: if_splits)
  then show ?case
    using 2(1) [OF reg [symmetric] \<open>ret = 0\<close>] 2(2,3) reg register_interrupt_cases(3) [OF 2(2) reg] by auto
qed simp

lemma register_all_accepts:
  assumes "table_ok tab" "sd \<noteq> 0" "\<forall>n. ralloc n" "\<forall>e \<in> set (request_entries sd p rqs). selector_legal (t_selector e)"
    and "sorted_wrt (\<lambda>a b. \<not> sel_match (t_selector a) (t_selector b)) (request_entries sd p rqs)"
    and "\<forall>a \<in> set (live tab). \<forall>b \<in> set (request_entries sd p rqs). \<not> sel_match (t_selector a) (t_selector b)"
  shows "register_all ralloc sd p rqs tab \<noteq> None"
  using assms
proof (induction ralloc sd p rqs tab rule: register_all.induct)
  case (2 ralloc sd p rq rqs tab)
  obtain ret tab1 where reg: "register_interrupt ralloc tab sd (request_selector rq p) = (ret, tab1)" by fastforce
  have "lookup_entry (live tab) (request_selector rq p) = None"
    using 2(7) by (simp add: lookup_entry_def find_None_iff)
  then have "ret = 0"
    using register_interrupt_cases(1) [OF 2(2) reg] 2(3,4,5) by simp
  then have "table_ok tab1" "live tab1 = live tab @ [\<lparr>t_selector = request_selector rq p, t_data = sd\<rparr>]"
    using register_interrupt_cases(3) [OF 2(2) reg] by simp_all
  then have "register_all ralloc sd (p + 1) rqs tab1 \<noteq> None"
    by (intro 2(1) [OF reg [symmetric] \<open>ret = 0\<close>]) (use 2(3-7) in auto)
  then show ?case using reg \<open>ret = 0\<close> by simp
qed simp

text \<open>C38: a client gets back what it asked for. When the daemon has accepted the requests of \<open>client.c\<close>
  one after the other, every interrupt it delivers to the client carries the number of the first
  request of the client that matches it; the number lies inside the table of requests, and the
  message printed is the one of that request.\<close>

theorem client_reports_own_request:
  assumes "table_ok tab" "\<forall>e \<in> set (live tab). t_data e \<noteq> sd" "sd \<noteq> 0" "length rqs < 2 ^ 32"
    and "register_all ralloc sd 0 rqs tab = Some tab'" "find_interrupt tab' sel errno = (sd, errno', st)"
  shows "\<exists>i < length rqs. unat (s_payload st) = i \<and> sel_match (request_selector (rqs ! i) (of_nat i)) sel \<and>
    (\<forall>j < i. \<not> sel_match (request_selector (rqs ! j) (of_nat j)) sel) \<and>
    (\<exists>ls. client_report c rqs st = Some ls \<and> last ls = ''    message: '' @ rq_msg (rqs ! i))"
proof -
  have tab': "table_ok tab'" "live tab' = live tab @ request_entries sd 0 rqs"
    using register_all_live [OF assms(1,5)] by simp_all
  obtain e where e: "e \<in> set (live tab')" "sel_match (t_selector e) sel" "t_data e = sd" "lookup_entry (live tab') sel = Some e"
    using reg.find_found [OF tab'(1) assms(6,3)] by metis
  have st: "st = sel\<lparr>s_payload := s_payload (t_selector e)\<rparr>"
    using assms(6) e(4) find_interrupt_eq [OF tab'(1)] by simp
  have "List.find (\<lambda>e. sel_match (t_selector e) sel) (request_entries sd 0 rqs) = Some e"
    using e(3,4) assms(2) find_in_set [of "\<lambda>e. sel_match (t_selector e) sel" "live tab"]
    by (auto simp: lookup_entry_def tab'(2) find_append split: option.splits)
  then obtain i where i: "i < length rqs" "e = request_entries sd 0 rqs ! i"
    "sel_match (t_selector e) sel" "\<forall>j < i. \<not> sel_match (t_selector (request_entries sd 0 rqs ! j)) sel"
    by (auto simp: find_Some_iff)
  then have "t_selector e = request_selector (rqs ! i) (of_nat i)" by (simp add: nth_request_entries)
  moreover from this have "s_payload st = of_nat i" by (simp add: st request_selector_def)
  moreover from this have "unat (s_payload st) = i" using i(1) assms(4) by (simp add: unat_of_nat)
  ultimately show ?thesis
    using i by (intro exI [of _ i]) (auto simp: nth_request_entries client_report_def)
qed

lemma client_sets_accepted:
  assumes "c < NCLIENTS" "sd \<noteq> 0"
  shows "register_all (\<lambda>n. True) sd 0 (irq_request_options ! c) [] \<noteq> None"
proof -
  have "c = 0 \<or> c = 1 \<or> c = 2" using assms(1) by (auto simp: NCLIENTS_def irq_request_options_def)
  then show ?thesis
    using assms(2)
    by (intro register_all_accepts)
      (auto simp: irq_request_options_def request_selector_def selector_legal_def sel_match_masks BIT_def
        ANYCRATE_def ANYVECTOR_def ANYIRQ_def live_def)
qed

theorem client_reports_own_request_witness:
  "\<exists>tab st ls. register_all (\<lambda>n. True) 7 0 (irq_request_options ! 0) [] = Some tab \<and>
     find_interrupt tab \<lparr>s_crate = 1, s_irq = 2, s_vector = 5, s_payload = 0\<rparr> 0 = (7, 0, st) \<and>
     client_report 0 (irq_request_options ! 0) st = Some ls \<and> last ls = ''    message: C0 IRQ1 remaining''"
proof -
  let ?rqs = "irq_request_options ! 0" and ?sel = "\<lparr>s_crate = 1, s_irq = 2, s_vector = 5, s_payload = 0\<rparr> :: selector"
  obtain tab where tab: "register_all (\<lambda>n. True) 7 0 ?rqs [] = Some tab"
    using client_sets_accepted [of 0 7] by (auto simp: NCLIENTS_def irq_request_options_def)
  have empty: "table_ok []" "live [] = []" by (simp_all add: table_reachable.empty reachable_table_ok live_def)
  have live: "table_ok tab" "live tab = request_entries 7 0 ?rqs"
    using register_all_live [OF empty(1) tab] empty(2) by simp_all
  have "lookup_entry (live tab) ?sel =
      Some \<lparr>t_selector = \<lparr>s_crate = 1, s_irq = 2, s_vector = ANYVECTOR, s_payload = 2\<rparr>, t_data = 7\<rparr>"
    by (simp add: live(2) lookup_entry_def irq_request_options_def request_selector_def sel_match_masks BIT_def ANYVECTOR_def)
  then have find: "find_interrupt tab ?sel 0 = (7, 0, ?sel\<lparr>s_payload := 2\<rparr>)"
    by (simp add: find_interrupt_eq [OF live(1)])
  have "length ?rqs = 4" by (simp add: irq_request_options_def)
  then obtain i ls where i: "i < 4" "unat (s_payload (?sel\<lparr>s_payload := 2\<rparr>)) = i"
    and ls: "client_report 0 ?rqs (?sel\<lparr>s_payload := 2\<rparr>) = Some ls" "last ls = ''    message: '' @ rq_msg (?rqs ! i)"
    using client_reports_own_request [OF empty(1) _ _ _ tab find, of 0] empty(2) by auto
  from i(2) have "i = 2" by simp
  then have "last ls = ''    message: C0 IRQ1 remaining''" using ls(2) by (simp add: irq_request_options_def)
  then show ?thesis using tab find ls(1) by blast
qed

end
