(* ===== verification/Ex_Device_Props.thy ===== *)
theory Ex_Device_Props
  imports Ex_Device Ex_Irq_Props
begin

text \<open>
  What the example programs for one device do: the two threads of \<open>v680test2.c\<close> in any interleaving, the
  round of the listener of \<open>v680test.c\<close> and the child of \<open>v120fakeirq.c\<close> with what the dispatch service sends,
  and the command line of \<open>polltest.c\<close>.
\<close>

section \<open>The threads of \<open>v680test2.c\<close>\<close>

definition thread_events :: "bool \<Rightarrow> v680 \<Rightarrow> v680_ev list" where
  "thread_events b s = map snd (filter (\<lambda>e. fst e = b) (v6_trace s))"

lemma thread_events_simps [simp]:
  "thread_events b \<lparr>v6_main = m, v6_irq = q, v6_trace = []\<rparr> = []"
  "thread_events b (s\<lparr>v6_main := m, v6_trace := v6_trace s @ [(c, ev)]\<rparr>) =
     (if c = b then thread_events b s @ [ev] else thread_events b s)"
  "thread_events b (s\<lparr>v6_irq := q, v6_trace := v6_trace s @ [(c, ev)]\<rparr>) =
     (if c = b then thread_events b s @ [ev] else thread_events b s)"
  by (simp_all add: thread_events_def)

text \<open>
  A read of the endpoint that returned something, line 7 pending, the vector of the module, by a listener
  that has enabled the line.
\<close>

definition answered :: "v680_ev list \<Rightarrow> bool" where
  "answered q \<longleftrightarrow>
     (\<exists>a r st. q = a @ [Endpoint r, Irqstatus st, Iack_vector 0xFFFF008E] \<and> r \<noteq> 0 \<and> bit st 7 \<and>
        Irqen (push_bit 7 1) \<in> set a)"

definition resets_answered :: "v680_ev list \<Rightarrow> bool" where
  "resets_answered q \<longleftrightarrow>
     (\<forall>j < length q. \<forall>r x. q ! j = Store r x \<longrightarrow> r = dut_resets \<and> x = GATEFLAG \<and> answered (take j q))"

lemma resets_answered_Nil [simp]: "resets_answered []"
  by (simp add: resets_answered_def)

lemma resets_answered_snoc:
  "resets_answered (q @ [ev]) \<longleftrightarrow>
     resets_answered q \<and> (\<forall>r x. ev = Store r x \<longrightarrow> r = dut_resets \<and> x = GATEFLAG \<and> answered q)"
  by (auto simp: resets_answered_def nth_append less_Suc_eq)

text \<open>What the listener's place says of its events so far; the process ends only on a bad answer.\<close>

definition bad_answer :: "v680_ev \<Rightarrow> bool" where
  "bad_answer ev \<longleftrightarrow>
     (case ev of Sched r \<Rightarrow> r \<noteq> 0 | Endpoint r \<Rightarrow> r = 0 | Irqstatus st \<Rightarrow> \<not> bit st 7 | Iack_vector v \<Rightarrow> v \<noteq> 0xFFFF008E | _ \<Rightarrow> False)"

definition irq_inv :: "irq_pc \<Rightarrow> v680_ev list \<Rightarrow> bool" where
  "irq_inv pc q \<longleftrightarrow>
     resets_answered q \<and>
     (case pc of
        Iq_sched \<Rightarrow> True | Iq_open \<Rightarrow> True | Iq_cfg \<Rightarrow> True | Iq_enable \<Rightarrow> True
      | Iq_status \<Rightarrow> (\<exists>a r. q = a @ [Endpoint r] \<and> r \<noteq> 0 \<and> Irqen (push_bit 7 1) \<in> set a)
      | Iq_vector \<Rightarrow> (\<exists>a r st. q = a @ [Endpoint r, Irqstatus st] \<and> r \<noteq> 0 \<and> bit st 7 \<and> Irqen (push_bit 7 1) \<in> set a)
      | Iq_reset v \<Rightarrow> v = 0xFFFF008E \<and> answered q
      | Iq_exit l \<Rightarrow> (\<exists>a ev. q = a @ [ev] \<and> bad_answer ev)
      | _ \<Rightarrow> Irqen (push_bit 7 1) \<in> set q)"

lemma line7_bit: "(st :: u32) AND 128 = 0 \<longleftrightarrow> \<not> bit st 7"
  by (simp add: and_exp_eq_0_iff [of st 7, simplified])

lemma process_interrupts_inv:
  assumes "process_interrupts opts pc ev = Some pc'" "irq_inv pc q"
  shows "irq_inv pc' (q @ [ev])"
  using assms
  by (cases pc; cases ev)
    (auto simp: process_interrupts_def irq_inv_def resets_answered_snoc answered_def bad_answer_def line7_bit split: if_splits)

text \<open>The main thread: the set-up, pulses while the time has not come, the end.\<close>

definition v680_intro :: "int \<Rightarrow> v680_ev list" where
  "v680_intro t0 = [Store dut_vector 0x8E, Store dut_irqmask GATEFLAG, Handler, Now t0]"

definition v680_pulse :: "int \<Rightarrow> v680_ev list" where
  "v680_pulse t = [Now t, Store dut_control 0, Store dut_control V68O_CTL_FGATE, Store dut_control 0, Slept]"

definition v680_until :: "int \<Rightarrow> int list \<Rightarrow> v680_ev list" where
  "v680_until t0 ts = v680_intro t0 @ concat (map v680_pulse ts)"

definition main_at :: "int \<Rightarrow> (int \<Rightarrow> v680_ev list) \<Rightarrow> v680_ev list \<Rightarrow> bool" where
  "main_at e part m \<longleftrightarrow>
     (\<exists>t0 ts t. e = t0 + 10 \<and> (\<forall>t \<in> set ts. t < e) \<and> t < e \<and> m = v680_until t0 ts @ part t)"

definition main_inv :: "main_pc \<Rightarrow> v680_ev list \<Rightarrow> bool" where
  "main_inv pc m \<longleftrightarrow>
     (case pc of
        Mn_vector \<Rightarrow> m = [] | Mn_mask \<Rightarrow> m = take 1 (v680_intro 0) | Mn_handler \<Rightarrow> m = take 2 (v680_intro 0)
      | Mn_end \<Rightarrow> m = take 3 (v680_intro 0)
      | Mn_test e \<Rightarrow> main_at e (\<lambda>t. []) m
      | Mn_low e \<Rightarrow> main_at e (\<lambda>t. take 1 (v680_pulse t)) m | Mn_high e \<Rightarrow> main_at e (\<lambda>t. take 2 (v680_pulse t)) m
      | Mn_low2 e \<Rightarrow> main_at e (\<lambda>t. take 3 (v680_pulse t)) m | Mn_sleep e \<Rightarrow> main_at e (\<lambda>t. take 4 (v680_pulse t)) m
      | Mn_done \<Rightarrow> (\<exists>t0 ts t. t0 + 10 \<le> t \<and> (\<forall>t \<in> set ts. t < t0 + 10) \<and> m = v680_until t0 ts @ [Now t])
      | Mn_ret \<Rightarrow> (\<exists>t0 ts t. t0 + 10 \<le> t \<and> (\<forall>t \<in> set ts. t < t0 + 10) \<and> m = v680_until t0 ts @ [Now t, Line ''Done.'']))"

lemma v680_until_Nil: "v680_intro t0 = v680_until t0 []"
  by (simp add: v680_until_def)

lemma v680_until_snoc: "v680_until t0 (ts @ [t]) = v680_until t0 ts @ v680_pulse t"
  by (simp add: v680_until_def)

lemma main_at_start: "main_at (t0 + 10) (\<lambda>t. []) (take 3 (v680_intro 0) @ [Now t0])"
  unfolding main_at_def by (intro exI [of _ t0] exI [of _ "[]"]) (simp add: v680_until_def v680_intro_def)

lemma main_at_pulse:
  assumes "main_at e (\<lambda>t. take 4 (v680_pulse t)) m"
  shows "main_at e (\<lambda>t. []) (m @ [Slept])"
proof -
  obtain t0 ts t where "e = t0 + 10" "\<forall>t \<in> set ts. t < e" "t < e" "m = v680_until t0 ts @ take 4 (v680_pulse t)"
    using assms by (auto simp: main_at_def)
  then show ?thesis
    unfolding main_at_def
    by (intro exI [of _ t0] exI [of _ "ts @ [t]"] exI [of _ t]) (auto simp: v680_until_snoc v680_pulse_def)
qed

lemma main_at_more: "main_at e f m \<Longrightarrow> (\<And>t. g t = f t @ [ev]) \<Longrightarrow> main_at e g (m @ [ev])"
  by (auto simp: main_at_def)

lemma v680_main_inv:
  assumes "v680_main pc ev = Some pc'" "main_inv pc m"
  shows "main_inv pc' (m @ [ev])"
proof (cases pc)
  case (Mn_test e)
  then obtain t t0 ts where "ev = Now t" "pc' = (if t < e then Mn_low e else Mn_done)"
    "e = t0 + 10" "\<forall>t \<in> set ts. t < e" "m = v680_until t0 ts"
    using assms by (auto simp: v680_main_def main_inv_def main_at_def split: v680_ev.splits)
  then show ?thesis
    by (cases "t < e")
      (auto simp: main_inv_def main_at_def v680_pulse_def not_less intro: exI [of _ t0] intro!: exI [of _ ts])
next
  case (Mn_sleep e)
  then show ?thesis using assms main_at_pulse by (auto simp: v680_main_def main_inv_def split: if_splits)
next
  case Mn_end
  then show ?thesis using assms main_at_start by (auto simp: v680_main_def main_inv_def split: v680_ev.splits)
next
  case Mn_done
  then show ?thesis using assms by (auto simp: v680_main_def main_inv_def split: if_splits)
qed (use assms in \<open>auto simp: v680_main_def main_inv_def v680_intro_def v680_pulse_def split: if_splits intro!: main_at_more\<close>)

lemma v680_run_inv: "v680_run opts s \<Longrightarrow> irq_inv (v6_irq s) (thread_events True s) \<and> main_inv (v6_main s) (thread_events False s)"
proof (induction rule: v680_run.induct)
  case started
  then show ?case by (simp add: irq_inv_def main_inv_def irq_start_def)
qed (simp_all add: process_interrupts_inv v680_main_inv)

lemma main_inv_cases:
  assumes "main_inv pc m"
  obtains (begins) i where "m = take i (v680_intro 0)"
  | (pulses) e i where "main_at e (\<lambda>t. take i (v680_pulse t)) m"
  | (ends) t0 ts t i where "m = v680_until t0 ts @ take i [Now t, Line ''Done.'']" "\<forall>t \<in> set ts. t < t0 + 10"
proof (cases pc)
  case Mn_vector
  then show ?thesis using assms begins [of 0] by (simp add: main_inv_def)
next
  case (Mn_test e)
  then show ?thesis using assms pulses [of e 0] by (simp add: main_inv_def)
next
  case Mn_done
  then obtain t0 ts t where "m = v680_until t0 ts @ [Now t]" "\<forall>t \<in> set ts. t < t0 + 10"
    using assms by (auto simp: main_inv_def)
  then show ?thesis using ends [of t0 ts 1 t] by simp
next
  case Mn_ret
  then obtain t0 ts t where "m = v680_until t0 ts @ [Now t, Line ''Done.'']" "\<forall>t \<in> set ts. t < t0 + 10"
    using assms by (auto simp: main_inv_def)
  then show ?thesis using ends [of t0 ts 2 t] by simp
qed (use assms begins pulses in \<open>auto simp: main_inv_def\<close>)

lemma v680_until_prefix:
  assumes "main_inv pc m"
  shows "\<exists>t0 ts t. prefix m (v680_until t0 ts @ [Now t, Line ''Done.'']) \<and> (\<forall>t \<in> set ts. t < t0 + 10)"
  using assms
proof (cases rule: main_inv_cases)
  case (begins i)
  then show ?thesis
    by (intro exI [of _ 0] exI [of _ "[]"]) (simp add: v680_until_def take_is_prefix prefix_prefix)
next
  case (pulses e i)
  then obtain t0 ts t where "\<forall>t \<in> set (ts @ [t]). t < t0 + 10" "m = v680_until t0 ts @ take i (v680_pulse t)"
    by (auto simp: main_at_def)
  then show ?thesis
    by (intro exI [of _ t0] exI [of _ "ts @ [t]"]) (simp add: v680_until_snoc take_is_prefix prefix_prefix)
next
  case (ends t0 ts t i)
  then show ?thesis
    by (intro exI [of _ t0] exI [of _ ts] exI [of _ t]) (simp add: take_is_prefix)
qed

text \<open>C39: the two threads of \<open>v680test2\<close>, in any order of their steps and whatever the module, the controller,
  the driver and the clock answer. The listener writes nothing but the gate flag in the module's reset
  register, and only after it enabled line 7, a read of the endpoint that returned something, a status with
  line 7 pending and the vector 0xFFFF008E, in this order directly before; it ends the process only after an
  answer that is none of these. The main thread programs vector and mask first, then gives whole pulses of
  the gate, none after ten seconds, and returns when they are over.\<close>

theorem v680_resets_own_interrupts:
  assumes "v680_run opts s" "q = thread_events True s" "m = thread_events False s"
  shows "(\<forall>j < length q. \<forall>r x. q ! j = Store r x \<longrightarrow> r = dut_resets \<and> x = GATEFLAG \<and>
      (\<exists>a e st. take j q = a @ [Endpoint e, Irqstatus st, Iack_vector 0xFFFF008E] \<and> e \<noteq> 0 \<and> bit st 7 \<and>
         Irqen (push_bit 7 1) \<in> set a)) \<and>
    (\<forall>l. v6_irq s = Iq_exit l \<longrightarrow> (\<exists>a ev. q = a @ [ev] \<and> bad_answer ev)) \<and>
    (\<exists>t0 ts t. prefix m
       ([Store dut_vector 0x8E, Store dut_irqmask GATEFLAG, Handler, Now t0] @
        concat (map (\<lambda>t. [Now t, Store dut_control 0, Store dut_control V68O_CTL_FGATE, Store dut_control 0, Slept]) ts) @
        [Now t, Line ''Done.'']) \<and> (\<forall>t \<in> set ts. t < t0 + 10)) \<and>
    (v6_main s = Mn_ret \<longrightarrow> (\<exists>a t0 t b. m = a @ [Now t0] @ b @ [Now t, Line ''Done.''] \<and> length a = 3 \<and> t0 + 10 \<le> t))"
proof -
  note inv = v680_run_inv [OF assms(1), folded assms(2,3)]
  have "resets_answered q" "v6_irq s = Iq_exit l \<Longrightarrow> \<exists>a ev. q = a @ [ev] \<and> bad_answer ev" for l
    using inv by (auto simp: irq_inv_def)
  moreover have "\<exists>t0 ts t. prefix m (v680_until t0 ts @ [Now t, Line ''Done.'']) \<and> (\<forall>t \<in> set ts. t < t0 + 10)"
    using inv v680_until_prefix by blast
  moreover have "\<exists>a t0 t b. m = a @ [Now t0] @ b @ [Now t, Line ''Done.''] \<and> length a = 3 \<and> t0 + 10 \<le> t" if "v6_main s = Mn_ret"
  proof -
    obtain t0 ts t where "t0 + 10 \<le> t" "m = v680_until t0 ts @ [Now t, Line ''Done.'']"
      using inv \<open>v6_main s = Mn_ret\<close> by (auto simp: main_inv_def)
    then show ?thesis
      by (intro exI [of _ "take 3 (v680_intro t0)"] exI [of _ t0] exI [of _ t] exI [of _ "concat (map v680_pulse ts)"])
        (simp add: v680_until_def v680_intro_def)
  qed
  ultimately show ?thesis
    unfolding resets_answered_def answered_def v680_until_def v680_intro_def v680_pulse_def append_assoc by blast
qed

text \<open>A given order of steps, executed.\<close>

primrec v680_exec :: "v680_opts \<Rightarrow> (bool \<times> v680_ev) list \<Rightarrow> v680 \<Rightarrow> v680 option" where
  "v680_exec opts [] s = Some s"
| "v680_exec opts (e # es) s =
     (if \<not> v680_alive (v6_main s) (v6_irq s) then None
      else if fst e then Option.bind (process_interrupts opts (v6_irq s) (snd e))
             (\<lambda>pc. v680_exec opts es (s\<lparr>v6_irq := pc, v6_trace := v6_trace s @ [e]\<rparr>))
      else Option.bind (v680_main (v6_main s) (snd e))
             (\<lambda>pc. v680_exec opts es (s\<lparr>v6_main := pc, v6_trace := v6_trace s @ [e]\<rparr>)))"

lemma v680_exec_run: "v680_exec opts es s = Some s' \<Longrightarrow> v680_run opts s \<Longrightarrow> v680_run opts s'"
proof (induction es arbitrary: s)
  case (Cons e es)
  then show ?case
    using main_moves [of opts s "snd e"] irq_moves [of opts s "snd e"]
    by (cases e) (auto simp: bind_eq_Some_conv split: if_splits)
qed simp

text \<open>One pulse and its interrupt, up to the reset.\<close>

definition v680_steps_demo :: "(bool \<times> v680_ev) list" where
  "v680_steps_demo =
     [(False, Store dut_vector 0x8E), (True, Irq_open 5), (True, Iackcfg 0xFFFFFFFF), (False, Store dut_irqmask GATEFLAG),
      (True, Irqen 128), (False, Handler), (False, Now 100), (False, Now 100), (False, Store dut_control 0),
      (False, Store dut_control V68O_CTL_FGATE), (True, Endpoint (- 1)), (False, Store dut_control 0), (True, Irqstatus 0x80),
      (True, Iack_vector 0xFFFF008E), (False, Slept), (True, Store dut_resets GATEFLAG)]"

definition v680_demo :: v680 where
  "v680_demo = \<lparr>v6_main = Mn_test 110, v6_irq = Iq_print 0xFFFF008E, v6_trace = v680_steps_demo\<rparr>"

theorem v680_resets_own_interrupts_witness:
  "v680_run \<lparr>EARLY_WAKE = True, USE_REALTIME = False\<rparr> v680_demo \<and>
   (\<exists>q. q = thread_events True v680_demo \<and> q ! 6 = Store dut_resets GATEFLAG \<and>
     (\<exists>a e st. take 6 q = a @ [Endpoint e, Irqstatus st, Iack_vector 0xFFFF008E] \<and> bit st 7))"
proof -
  let ?opts = "\<lparr>EARLY_WAKE = True, USE_REALTIME = False\<rparr>"
  have start: "v680_run ?opts \<lparr>v6_main = Mn_vector, v6_irq = Iq_open, v6_trace = []\<rparr>"
    using started [of ?opts] by (simp add: irq_start_def)
  have "v680_exec ?opts v680_steps_demo \<lparr>v6_main = Mn_vector, v6_irq = Iq_open, v6_trace = []\<rparr> = Some v680_demo"
    by (simp add: v680_steps_demo_def v680_demo_def process_interrupts_def v680_main_def v680_alive_def)
  then have run: "v680_run ?opts v680_demo" by (rule v680_exec_run [OF _ start])
  have at: "6 < length (thread_events True v680_demo)" "thread_events True v680_demo ! 6 = Store dut_resets GATEFLAG"
    by (simp_all add: thread_events_def v680_demo_def v680_steps_demo_def)
  note answer = v680_resets_own_interrupts [OF run refl refl, THEN conjunct1, rule_format, OF at, THEN conjunct2, THEN conjunct2]
  have "\<exists>a e st. take 6 (thread_events True v680_demo) = a @ [Endpoint e, Irqstatus st, Iack_vector 0xFFFF008E] \<and> bit st 7"
    using answer by blast
  with run at(2) show ?thesis by blast
qed

section \<open>With the dispatch service\<close>

text \<open>
  The message the dispatch service sends for line 7 of crate 0, whatever the vector: \<open>v680test\<close> resets the
  module before it acknowledges, so the line is released when the service looks again. The assertion about
  the vector never fails.
\<close>

lemma v680_client_round_served:
  assumes "k_in k irqd = RecvMsg m # ms" "length m = RB_SIZE" "rb_msg m = IRQ_SIGNAL" "length junk = RB_SIZE"
    "k_wr k irqd = []" "s_crate (rb_selector m) = BIT 0" "s_irq (rb_selector m) = BIT 7"
  shows "\<exists>more st' k'. v680_client_round opts junk irqd st k =
      Done (Next, [Store dut_resets GATEFLAG, Acked] @ more, st', k') \<and>
    s_vector st' = 0xFFFF008E \<and> k_out k' = k_out k @ [(irqd, rb_set_msg junk ACK)]"
  using assms recv_full_message [OF assms(1,2,4)]
  by (simp add: v680_client_round_def v120irqd_getinterrupt_def ack_ok RB_SIZE_def Let_def)

text \<open>
  The child of \<open>v120fakeirq\<close> with a service that accepts its request and sends the interrupt: it returns 0, having
  sent the request and the acknowledgement, and clears the bit its parent set and no other.
\<close>

lemma wait_fakeirq_served:
  assumes "1 \<le> se_socket env" "\<not> se_connect_fails env" "k_wr k (se_socket env) = []" "length junk = RB_SIZE"
    "k_in k (se_socket env) = RecvMsg a # RecvMsg m # ms" "length a = RB_SIZE" "rb_msg a = ACK"
    "length m = RB_SIZE" "rb_msg m = IRQ_SIGNAL"
  shows "\<exists>ls k'. wait_fakeirq env junk (fst (make_fakeirq irqen)) k = Done (0, ls, irqen AND NOT FAKE_BIT, k') \<and>
    k_out k' = k_out k @ [(se_socket env, rb_set_selector (rb_set_msg junk REQUEST_IRQ) fakeirq_request),
      (se_socket env, rb_set_msg junk ACK)]"
proof -
  let ?s = "se_socket env"
  let ?k = "k\<lparr>k_out := k_out k @ [(?s, rb_set_selector (rb_set_msg junk REQUEST_IRQ) fakeirq_request)]\<rparr>"
  let ?k1 = "?k\<lparr>k_in := (k_in k)(?s := RecvMsg m # ms)\<rparr>"
  have "v120irqd_request junk k ?s fakeirq_request = Done (0, ?k1)"
    using assms recv_full_message [of ?k ?s a "RecvMsg m # ms" "rb_set_selector (rb_set_msg junk REQUEST_IRQ) fakeirq_request"]
    by (simp add: v120irqd_request_def msg_send_ok RB_SIZE_def Let_def)
  moreover have "v120irqd_getinterrupt junk ?k1 ?s fakeirq_request =
      Done (0, rb_selector m, ?k1\<lparr>k_in := (k_in ?k1)(?s := ms)\<rparr>)"
    using assms recv_full_message [of ?k1 ?s m ms junk] by (simp add: v120irqd_getinterrupt_def RB_SIZE_def)
  moreover have "(irqen OR FAKE_BIT) AND NOT FAKE_BIT = irqen AND NOT FAKE_BIT"
    by (rule bit_word_eqI) (auto simp: bit_simps)
  ultimately show ?thesis
    using assms by (simp add: wait_fakeirq_def v120irqd_client_def make_fakeirq_def ack_ok Let_def)
qed

section \<open>\<open>polltest.c\<close>\<close>

lemma poll_option_ok:
  assumes "poll_option opn a = Done a'" "pa_crate a \<le> 15 \<and> 100 \<le> pa_mswait a"
  shows "pa_crate a' \<le> 15 \<and> 100 \<le> pa_mswait a'"
  using assms by (cases opn) (auto simp: poll_option_def Let_def split: prod.splits if_splits)

lemma poll_cmdline_bounds:
  assumes "poll_cmdline errno opns = Done a"
  shows "pa_crate a \<le> 15 \<and> 100 \<le> pa_mswait a"
  using assms unfolding poll_cmdline_def
  by (rule fold_obind_invariant [where I = "\<lambda>a. pa_crate a \<le> 15 \<and> 100 \<le> pa_mswait a", rotated])
    (use poll_option_ok in auto)

text \<open>The upper bound is the only test: a negative crate is accepted.\<close>

lemma poll_negative_crate: "poll_cmdline 0 [(CHR ''m'', ''-1'')] = Done \<lparr>pa_crate = -1, pa_mswait = 12000, pa_errno = 0\<rparr>"
proof -
  have "(ucast (- 1 :: u64) :: u32) = - 1" by code_simp
  then show ?thesis by (simp add: poll_cmdline_def poll_option_def num_eval Let_def)
qed

lemma polltest_closes:
  assumes "\<And>name fd. ve_open env name = Inr fd \<Longrightarrow> 0 \<le> fd" "polltest_main env poll opns os = Done (l, os')"
  shows "os_fds os' = os_fds os"
proof -
  obtain a where a: "poll_cmdline (os_errno os) opns = Done a" using assms(2) by (auto simp: polltest_main_def obind_eq_Done)
  show ?thesis
    using assms
    by (cases "ve_open env (''/dev/v120_q'' @ fmt_d (pa_crate a))")
      (auto simp: polltest_main_def a Let_def sys_open_def os_close_def split: if_splits)
qed

end
