(* ===== verification/Ex_Dma_Props.thy ===== *)
theory Ex_Dma_Props
  imports Ex_Dma V120_Main_Props
begin

text \<open>
  What the DMA examples ask the driver to do: the chain of descriptors covers the length asked for, at
  one and the same bus address, and a run that succeeds has closed its crate.
\<close>

section \<open>The pattern in the buffer\<close>

lemma fill_prefix:
  assumes "length buf = BUF_LEN" "n \<le> 65536" "j < BUF_LEN"
  shows "length (fold fill_step [0..<n] buf) = BUF_LEN \<and> fold fill_step [0..<n] buf ! j =
    (if j \<le> 126711 \<and> 126711 - j < n \<and> (n \<le> j \<or> j < 126711 - j) then of_nat (126711 - j)
     else if j < n then of_nat j else buf ! j)"
  using assms(2)
proof (induction n)
  case (Suc n)
  then show ?case
    using assms(1,3) by (auto simp: fill_step_def BUF_LEN_def nth_list_update)
qed (use assms(1) in simp)

text \<open>
  The counter 63356 makes the second half overlap the first: from 61176 to 63355 the falling values
  overwrite the rising ones, and from 126712 on the buffer keeps what was on the stack.
\<close>

lemma fill_buf_nth:
  assumes "length buf = BUF_LEN" "j < BUF_LEN"
  shows "fill_buf buf ! j =
    (if 61176 \<le> j \<and> j \<le> 63355 \<or> 65536 \<le> j \<and> j \<le> 126711 then of_nat (126711 - j)
     else if j < 65536 then of_nat j else buf ! j)"
  using fill_prefix [OF assms(1) _ assms(2), of 65536] by (auto simp: fill_buf_def)

section \<open>The chain\<close>

lemma dma_transfer_owns:
  assumes "env_fds env" "owns os0 h os" "dma_transfer env nr h os = Done (EXIT_SUCCESS, os')"
  shows "same_res os' os0"
proof -
  obtain res h1 os1 where x: "v120_dma_xfr env nr h os = (res, h1, os1)" by (cases "v120_dma_xfr env nr h os")
  then have "owns os0 h1 os1" using dma_ioctl_owns [OF assms(1,2)] by (simp add: v120_dma_xfr_def)
  with close_gives_back [OF this] show ?thesis
    using assms(3) x by (auto simp: dma_transfer_def same_res_def split: if_splits)
qed

text \<open>A run of \<open>dmawrite\<close> that succeeds has handed a chain of descriptors to the driver whose sizes add
  up to the length asked for; all elements but the last have the size of the buffer, none is larger,
  and it has closed the crate. All elements have the same bus address: behind the first 262144 bytes
  the transfer starts again at the address of the command line, with or without the option \<open>-h\<close>.\<close>

theorem dmawrite_chain_covers:
  assumes "\<forall>name fd. ve_open env name = Inr fd \<longrightarrow> 0 \<le> fd"
    and "dmawrite_main env dc nr mem buf opns os = Done (EXIT_SUCCESS, ds, os')"
  shows "\<exists>a. dma_cmdline dc (write_flags dc) (os_errno os) opns = Done a \<and>
    sum_list (map (unat \<circ> dd_size) ds) = unat (dm_bufsize a) \<and>
    ds \<noteq> [] \<and> (\<forall>d \<in> set (butlast ds). dd_size d = 262144) \<and> dd_size (last ds) \<le> 262144 \<and>
    (\<forall>d \<in> set ds. dd_flags d = dm_flags a \<and> dd_ptr d = buf \<and> dd_vme_address d = dm_address a) \<and>
    mset (os_maps os') = mset (os_maps os) \<and> mset (os_fds os') = mset (os_fds os)"
proof -
  have env: "env_fds env" using assms(1) by (simp add: env_fds_def)
  obtain a where a: "dma_cmdline dc (write_flags dc) (os_errno os) opns = Done a"
    "dmawrite_run env nr mem buf a os = Done (EXIT_SUCCESS, ds, os')"
    using assms(2) by (auto simp: dmawrite_main_def obind_eq_Done)
  obtain ho os1 where o: "dma_open env (dm_crate a) os = Done (ho, os1)" "held os ho os1"
    unfolding dma_open_def by (rule pick_held [OF env])
  obtain h where h: "ho = Some h" "dma_chain mem 0 (dm_flags a) buf (dm_address a) (dm_bufsize a) = Some ds"
    "dma_transfer env nr h os1 = Done (EXIT_SUCCESS, os')"
    using a(2) o(1) by (auto simp: dmawrite_run_def obind_eq_Done split: option.splits if_splits)
  have "same_res os' os" using dma_transfer_owns [OF env _ h(3)] o(2) h(1) by simp
  then show ?thesis
    using a(1) dma_chain_eq [OF h(2)] by (auto simp: BUF_BYTES_def same_res_def)
qed

definition dc_v :: dma_consts where
  "dc_v = \<lparr>PD_A16 = 0, PD_A24 = 1, PD_A32 = 2, PD_D16 = 0, PD_D32 = 4, PD_ESHORT = 16, PD_ELONG = 32, PD_SMAX = 64,
     PD_AWID_MASK = 3, PD_DWID_MASK = 4, PD_ENDIAN_MASK = 48, DMA_CTL_WRITE = 256, DMA_CTL_HOLD = 512\<rparr>"

theorem dmawrite_chain_covers_witness:
  "\<exists>ds os'. dmawrite_main env_v dc_v 1 (\<lambda>n. True) 9 [(CHR ''m'', ''2''), (CHR ''l'', ''600000'')] os_zero =
      Done (EXIT_SUCCESS, ds, os') \<and> map dd_size ds = [262144, 262144, 75712] \<and>
    (\<forall>d \<in> set ds. dd_vme_address d = 0) \<and> mset (os_fds os') = {#}"
proof -
  let ?opns = "[(CHR ''m'', ''2''), (CHR ''l'', ''600000'')]"
  let ?a = "\<lparr>dm_flags = 272, dm_crate = 2, dm_address = 0, dm_silent = False, dm_bufsize = 600000, dm_errno = 0\<rparr>"
  have args: "dma_cmdline dc_v (write_flags dc_v) (os_errno os_zero) ?opns = Done ?a"
    by (simp add: dma_cmdline_def dma_option_def eval_num_def write_flags_def dc_v_def os_zero_def num_eval)
  let ?chain = "\<lambda>n. dma_chain (\<lambda>n. True) n 272 9 0"
  let ?d = "\<lambda>n. \<lparr>dd_flags = 272, dd_ptr = 9, dd_size = n, dd_vme_address = 0\<rparr>"
  have "?chain (Suc (Suc 0)) 75712 = Some [?d 75712]" by (subst dma_chain.simps) (simp add: BUF_BYTES_def)
  then have "?chain (Suc 0) 337856 = Some [?d 262144, ?d 75712]"
    by (subst dma_chain.simps) (simp add: BUF_BYTES_def)
  then have "?chain 0 600000 = Some [?d 262144, ?d 262144, ?d 75712]"
    by (subst dma_chain.simps) (simp add: BUF_BYTES_def)
  then obtain ds where ds: "?chain 0 600000 = Some ds" "map dd_size ds = [262144, 262144, 75712]"
    by simp
  obtain h os1 where o: "v120_open env_v 2 os_zero = (Some h, os1)" "h_fd_vme h < 0"
    by (simp add: open_eval env_v_def)
  obtain res h1 os2 where x: "v120_dma_xfr env_v 1 h os1 = (res, h1, os2)" by (cases "v120_dma_xfr env_v 1 h os1")
  have "owns os_zero h os1" using open_owns [OF env_v_ok(2) o(1)] by simp
  then have "owns os_zero h1 os2" using dma_ioctl_owns [OF env_v_ok(2)] x by (simp add: v120_dma_xfr_def)
  then obtain os' where c: "v120_close h1 os2 = Done os'" using close_gives_back by blast
  have "res = 0"
    using x o(2) by (auto simp: v120_dma_xfr_def v120_dma_ioctl_def open_eval env_v_def Let_def)
  then have run: "dmawrite_main env_v dc_v 1 (\<lambda>n. True) 9 ?opns os_zero = Done (EXIT_SUCCESS, ds, os')"
    using args ds(1) o(1) x c by (simp add: dmawrite_main_def dmawrite_run_def dma_open_def dma_transfer_def)
  have "\<forall>name fd. ve_open env_v name = Inr fd \<longrightarrow> 0 \<le> fd" by (simp add: env_v_def)
  from dmawrite_chain_covers [OF this run] args show ?thesis
    using run ds(2) by (auto simp: os_zero_def)
qed

end
