(* ===== verification/Tui_Doc.thy ===== *)
theory Tui_Doc
  imports C_Stdio
begin

text \<open>
  The documentation extractor (\<open>v120_tui/doc.c\<close>): it copies the comments of a C file that begin with
  \<open>doc:\<close>, each below the name of the function that follows. A stream is its text with the position and
  the end-of-file flag; what is written is the text so far. Two of the loops may run for ever:
  they are partial functions, and not to return is \<open>None\<close>.
\<close>

section \<open>Streams\<close>

record cfile =
  f_text :: string
  f_pos :: nat
  f_eof :: bool

definition fgetc :: "cfile \<Rightarrow> char option \<times> cfile" where
  "fgetc f =
     (if f_pos f < length (f_text f) then (Some (f_text f ! f_pos f), f\<lparr>f_pos := f_pos f + 1\<rparr>)
      else (None, f\<lparr>f_eof := True\<rparr>))"

text \<open>The character given back is the one just read; giving back EOF has no effect.\<close>

definition ungetc :: "char option \<Rightarrow> cfile \<Rightarrow> cfile" where
  "ungetc c f = (if c = None then f else f\<lparr>f_pos := f_pos f - 1, f_eof := False\<rparr>)"

definition unread_len :: "cfile \<Rightarrow> nat" where
  "unread_len f = length (f_text f) - f_pos f"

lemma fgetc_shorter: "(Some c, g) = fgetc f \<Longrightarrow> unread_len g < unread_len f"
  by (auto simp: fgetc_def unread_len_def split: if_splits)

text \<open>\<open>putc\<close> of EOF writes the character 255.\<close>

definition putc :: "char option \<Rightarrow> string \<Rightarrow> string" where
  "putc c out = out @ [case c of Some c \<Rightarrow> c | None \<Rightarrow> char_of (255 :: nat)]"

section \<open>Skipping\<close>

text \<open>\<open>while (P(c = getc(infile)))\<close>: the first character that does not satisfy \<open>P\<close>.\<close>

function skip_chars :: "(char \<Rightarrow> bool) \<Rightarrow> cfile \<Rightarrow> char option \<times> cfile" where
  "skip_chars P f =
     (case fgetc f of
        (None, g) \<Rightarrow> (None, g)
      | (Some c, g) \<Rightarrow> if P c then skip_chars P g else (Some c, g))"
  by pat_completeness auto
termination by (relation "measure (\<lambda>(P, f). unread_len f)") (auto dest: fgetc_shorter)

declare skip_chars.simps [simp del]

definition fslide :: "cfile \<Rightarrow> cfile" where
  "fslide f = (case skip_chars c_isspace f of (c, f) \<Rightarrow> if \<not> f_eof f then ungetc c f else f)"

function end_of_comment :: "cfile \<Rightarrow> cfile" where
  "end_of_comment f =
     (case skip_chars (\<lambda>c. c \<noteq> CHR ''*'') f of
        (None, g) \<Rightarrow> g
      | (Some x, g) \<Rightarrow>
          (case fgetc g of
             (None, h) \<Rightarrow> h
           | (Some c, h) \<Rightarrow> if c \<noteq> CHR ''/'' then end_of_comment h else h))"
  by pat_completeness auto

lemma skip_chars_le: "skip_chars P f = (c, g) \<Longrightarrow> unread_len g \<le> unread_len f"
proof (induction P f rule: skip_chars.induct)
  case (1 P f)
  then show ?case
    by (subst (asm) (2) skip_chars.simps)
      (auto simp: fgetc_def unread_len_def split: option.splits if_splits prod.splits)
qed

termination end_of_comment
  by (relation "measure unread_len") (auto dest!: fgetc_shorter skip_chars_le [OF sym])

declare end_of_comment.simps [simp del]

section \<open>Comments\<close>

text \<open>The part from the label \<open>loop\<close> on; a star that is no end of the comment is looked at again and again.\<close>

partial_function (option) copy_loop :: "char option \<Rightarrow> cfile \<Rightarrow> string \<Rightarrow> (cfile \<times> string) option" where
  "copy_loop c f out =
     (if c \<noteq> Some (CHR ''*'') then
        (if c = None then Some (f, putc c out)
         else (case fgetc f of (c', g) \<Rightarrow> copy_loop c' g (putc c out)))
      else (case fgetc f of
              (c', g) \<Rightarrow> if c' \<noteq> Some (CHR ''/'') then copy_loop (Some (CHR ''*'')) (ungetc c' g) out else Some (g, out)))"

definition copycomment :: "cfile \<Rightarrow> string \<Rightarrow> (cfile \<times> string) option" where
  "copycomment f out = (case skip_chars c_isblank f of (c, g) \<Rightarrow> copy_loop c g out)"

section \<open>Function names\<close>

text \<open>The loop that fills the buffer: \<open>k\<close> more characters fit behind the next one.\<close>

primrec name_chars :: "nat \<Rightarrow> cfile \<Rightarrow> string \<Rightarrow> char option \<times> cfile \<times> string" where
  "name_chars 0 f s =
     (case fgetc f of (c, g) \<Rightarrow>
        if (\<exists>x \<in> set_option c. c_isspace x) \<or> c = Some (CHR ''('') then (c, g, s) else (c, g, putc c s))"
| "name_chars (Suc k) f s =
     (case fgetc f of (c, g) \<Rightarrow>
        if (\<exists>x \<in> set_option c. c_isspace x) \<or> c = Some (CHR ''('') then (c, g, s) else name_chars k g (putc c s))"

partial_function (option) get_function_name :: "nat \<Rightarrow> cfile \<Rightarrow> (string \<times> cfile) option" where
  "get_function_name n f =
     (case name_chars (n - 2) f [] of
        (c, g, s) \<Rightarrow>
          if c = Some (CHR ''('') then Some (s, g)
          else (case fgetc (fslide g) of
                  (c', h) \<Rightarrow> if c' \<noteq> Some (CHR ''('') then get_function_name n (ungetc c' h) else Some (s, h)))"

section \<open>The file\<close>

definition doc_NL :: string where "doc_NL = [char_of (10 :: nat)]"

text \<open>The characters that follow, one after the other; the first that differs is read, too.\<close>

fun expect :: "string \<Rightarrow> cfile \<Rightarrow> bool \<times> cfile" where
  "expect [] f = (True, f)"
| "expect (x # xs) f = (case fgetc f of (c, g) \<Rightarrow> if c \<noteq> Some x then (False, g) else expect xs g)"

text \<open>Behind a slash: is it a comment that begins with \<open>doc:\<close>?\<close>

definition at_doc :: "cfile \<Rightarrow> bool \<times> cfile" where
  "at_doc f =
     (case expect ''*'' f of
        (False, g) \<Rightarrow> (False, g)
      | (True, g) \<Rightarrow>
          (case skip_chars c_isblank g of (c, h) \<Rightarrow>
             if c \<noteq> Some (CHR ''d'') then (False, h)
             else (case expect ''oc:'' h of
                     (False, i) \<Rightarrow> (False, i)
                   | (True, i) \<Rightarrow> (case skip_chars c_isblank i of (c, j) \<Rightarrow> (True, ungetc c j)))))"

definition fseek :: "cfile \<Rightarrow> nat \<Rightarrow> cfile" where
  "fseek f pos = f\<lparr>f_pos := pos, f_eof := False\<rparr>"

definition doc_heading :: "nat \<Rightarrow> cfile \<Rightarrow> string \<Rightarrow> (cfile \<times> string) option" where
  "doc_heading line f out =
     (if line = 0 then Some (f, out)
      else Option.bind (get_function_name 512 (fslide (end_of_comment f))) (\<lambda>(buf, g).
        Some (fseek g (f_pos f),
              out @ doc_NL @ ''***'' @ doc_NL @ takeWhile (\<lambda>c. c \<noteq> char_of (0 :: nat)) buf @ doc_NL)))"

partial_function (option) qcfunctiondoc :: "cfile \<Rightarrow> nat \<Rightarrow> string \<Rightarrow> string option" where
  "qcfunctiondoc f line out =
     (if f_eof f then Some out
      else (case fgetc f of (c, g) \<Rightarrow>
        if c = Some (char_of (10 :: nat)) \<or> c = Some (char_of (13 :: nat)) then qcfunctiondoc g (line + 1) out
        else if c \<noteq> Some (CHR ''/'') then qcfunctiondoc g line out
        else (case at_doc g of (found, h) \<Rightarrow>
                if \<not> found then qcfunctiondoc h line out
                else Option.bind (doc_heading line h out) (\<lambda>(i, out).
                     Option.bind (copycomment i out) (\<lambda>(j, out). qcfunctiondoc j line (out @ doc_NL))))))"

definition doc_main :: "(string \<Rightarrow> string option) \<Rightarrow> string list \<Rightarrow> (int \<times> string) option" where
  "doc_main fs argv =
     (if length argv \<noteq> 2 then Some (1, '''')
      else (case fs (argv ! 1) of
              None \<Rightarrow> Some (- 1, '''')
            | Some content \<Rightarrow>
                map_option (\<lambda>out. (0, out)) (qcfunctiondoc \<lparr>f_text = content, f_pos = 0, f_eof = False\<rparr> 0 '''')))"

section \<open>When a comment is copied\<close>

definition rest_of :: "cfile \<Rightarrow> string" where
  "rest_of f = drop (f_pos f) (f_text f)"

lemma fgetc_cases:
  "rest_of f = [] \<Longrightarrow> fgetc f = (None, f\<lparr>f_eof := True\<rparr>)"
  "rest_of f = x # xs \<Longrightarrow> fgetc f = (Some x, f\<lparr>f_pos := f_pos f + 1\<rparr>) \<and> rest_of (f\<lparr>f_pos := f_pos f + 1\<rparr>) = xs"
proof -
  assume r: "rest_of f = x # xs"
  then have "f_pos f < length (f_text f)"
    unfolding rest_of_def by (metis drop_all list.distinct(1) not_le)
  then show "fgetc f = (Some x, f\<lparr>f_pos := f_pos f + 1\<rparr>) \<and> rest_of (f\<lparr>f_pos := f_pos f + 1\<rparr>) = xs"
    using r by (simp add: fgetc_def rest_of_def Cons_nth_drop_Suc [symmetric])
qed (simp add: rest_of_def fgetc_def)

lemma skip_chars_rest:
  "skip_chars P f =
     (case dropWhile P (rest_of f) of
        [] \<Rightarrow> (None, f\<lparr>f_pos := f_pos f + length (rest_of f), f_eof := True\<rparr>)
      | c # cs \<Rightarrow> (Some c, f\<lparr>f_pos := f_pos f + length (takeWhile P (rest_of f)) + 1\<rparr>))"
proof (induction P f rule: skip_chars.induct)
  case (1 P f)
  show ?case
  proof (cases "rest_of f")
    case Nil
    then show ?thesis by (subst skip_chars.simps) (simp add: fgetc_cases)
  next
    case (Cons x xs)
    note g = fgetc_cases(2) [OF Cons]
    show ?thesis
    proof (cases "P x")
      case True
      then show ?thesis
        using 1 [of "Some x" "f\<lparr>f_pos := f_pos f + 1\<rparr>" x] g Cons
        by (subst skip_chars.simps) (cases "dropWhile P xs"; simp del: dropWhile_eq_Nil_conv)
    next
      case False
      then show ?thesis using g Cons by (subst skip_chars.simps) simp
    qed
  qed
qed

text \<open>At a star that does not end the comment the loop does not return.\<close>

lemma copy_loop_stuck:
  assumes "fst (fgetc f) \<noteq> Some (CHR ''/'')"
  shows "copy_loop (Some (CHR ''*'')) f out = None"
proof -
  have "c = Some (CHR ''*'') \<longrightarrow> fst (fgetc f) = Some (CHR ''/'')" if "copy_loop c f out = Some y" for c f out y
  proof (rule copy_loop.raw_induct [OF _ that, where P = "\<lambda>c f out y. c = Some (CHR ''*'') \<longrightarrow> fst (fgetc f) = Some (CHR ''/'')"], goal_cases)
    case (1 copy c f out y)
    show ?case
    proof (intro impI, rule ccontr)
      assume stuck: "c = Some (CHR ''*'')" "fst (fgetc f) \<noteq> Some (CHR ''/'')"
      obtain c' g where g: "fgetc f = (c', g)" by fastforce
      then have "copy (Some (CHR ''*'')) (ungetc c' g) out = Some y"
        using 1(2) stuck by simp
      then have "fst (fgetc (ungetc c' g)) = Some (CHR ''/'')" using 1(1) by blast
      moreover have "fst (fgetc (ungetc c' g)) = fst (fgetc f)"
        using g by (auto simp: fgetc_def ungetc_def split: if_splits)
      ultimately show False using stuck(2) by simp
    qed
  qed
  with assms show ?thesis by (cases "copy_loop (Some (CHR ''*'')) f out") blast+
qed

lemma copy_loop_rest:
  "copy_loop c f out =
     (case c of
        None \<Rightarrow> Some (f, putc None out)
      | Some x \<Rightarrow>
          (let s = takeWhile (\<lambda>c. c \<noteq> CHR ''*'') (x # rest_of f) in
           case dropWhile (\<lambda>c. c \<noteq> CHR ''*'') (x # rest_of f) of
             [] \<Rightarrow> Some (f\<lparr>f_pos := f_pos f + length (rest_of f), f_eof := True\<rparr>, putc None (out @ s))
           | _ # cs \<Rightarrow>
               if cs \<noteq> [] \<and> hd cs = CHR ''/'' then Some (f\<lparr>f_pos := f_pos f + length s + 1\<rparr>, out @ s) else None))"
proof (induction "rest_of f" arbitrary: c f out)
  case Nil
  then have end_of_file: "fgetc f = (None, f\<lparr>f_eof := True\<rparr>)" "rest_of f = []" using fgetc_cases(1) by auto
  show ?case
  proof (cases c)
    case (Some x)
    show ?thesis
    proof (cases "x = CHR ''*''")
      case False
      then have "copy_loop c f out = copy_loop None (f\<lparr>f_eof := True\<rparr>) (putc c out)"
        using Some end_of_file by (subst copy_loop.simps) simp
      also have "\<dots> = Some (f\<lparr>f_eof := True\<rparr>, putc None (putc c out))" by (subst copy_loop.simps) simp
      finally show ?thesis using Some False end_of_file by (simp add: putc_def)
    qed (use Some copy_loop_stuck [of f out] end_of_file in simp)
  qed (simp add: copy_loop.simps)
next
  case (Cons y ys)
  note g = fgetc_cases(2) [OF Cons(2) [symmetric]]
  show ?case
  proof (cases c)
    case None
    then show ?thesis by (simp add: copy_loop.simps)
  next
    case (Some x)
    show ?thesis
    proof (cases "x = CHR ''*''")
      case True
      show ?thesis
      proof (cases "y = CHR ''/''")
        case closed: True
        then have "copy_loop c f out = Some (f\<lparr>f_pos := f_pos f + 1\<rparr>, out)"
          using Some True g by (subst copy_loop.simps) simp
        then show ?thesis using Some True closed Cons(2) [symmetric] by simp
      next
        case no_end: False
        then have "copy_loop c f out = None"
          using Some True g copy_loop_stuck [of f out] by simp
        then show ?thesis using Some True no_end Cons(2) [symmetric] by simp
      qed
    next
      case False
      have ys: "ys = rest_of (f\<lparr>f_pos := f_pos f + 1\<rparr>)" using g by simp
      have "copy_loop c f out = copy_loop (Some y) (f\<lparr>f_pos := f_pos f + 1\<rparr>) (out @ [x])"
        using Some False g by (subst copy_loop.simps) (simp add: putc_def)
      also note Cons(1) [OF ys, of "Some y" "out @ [x]"]
      finally show ?thesis
        using Some False Cons(2) [symmetric] ys [symmetric]
        by (cases "y = CHR ''*''"; cases "dropWhile (\<lambda>c. c \<noteq> CHR ''*'') ys")
          (simp_all add: putc_def Let_def del: dropWhile_eq_Nil_conv)
    qed
  qed
qed

text \<open>C40: what \<open>copycomment\<close> does with every text. Blanks are skipped; a comment without a star inside is
  copied up to its end, and the position is behind the end; a comment that is not closed is copied to
  the end of the file, with the character 255 for EOF; and for a comment whose first star is not
  followed by a slash the function does not return.\<close>

theorem copycomment_returns:
  "copycomment f out =
     (let text = dropWhile c_isblank (rest_of f); s = takeWhile (\<lambda>c. c \<noteq> CHR ''*'') text;
          blanks = length (takeWhile c_isblank (rest_of f)) in
      case dropWhile (\<lambda>c. c \<noteq> CHR ''*'') text of
        [] \<Rightarrow> Some (f\<lparr>f_pos := f_pos f + length (rest_of f), f_eof := True\<rparr>, out @ s @ [char_of (255 :: nat)])
      | _ # cs \<Rightarrow>
          if cs \<noteq> [] \<and> hd cs = CHR ''/'' then Some (f\<lparr>f_pos := f_pos f + blanks + length s + 2\<rparr>, out @ s) else None)"
proof (cases "dropWhile c_isblank (rest_of f)")
  case Nil
  then show ?thesis
    by (simp add: copycomment_def skip_chars_rest copy_loop_rest putc_def Let_def del: dropWhile_eq_Nil_conv)
next
  case (Cons x xs)
  let ?b = "takeWhile c_isblank (rest_of f)"
  let ?g = "f\<lparr>f_pos := f_pos f + length ?b + 1\<rparr>"
  have r: "rest_of f = ?b @ x # xs" using Cons takeWhile_dropWhile_id [of c_isblank "rest_of f"] by simp
  then have "rest_of ?g = drop (length ?b + 1) (rest_of f)" by (simp add: rest_of_def add.commute)
  also have "\<dots> = xs" by (subst r) simp
  finally have g: "rest_of ?g = xs" .
  moreover have "length (rest_of f) = length ?b + 1 + length xs" by (subst r) simp
  moreover have "copycomment f out = copy_loop (Some x) ?g out"
    by (simp add: copycomment_def skip_chars_rest Cons)
  ultimately show ?thesis
    by (cases "dropWhile (\<lambda>c. c \<noteq> CHR ''*'') (x # xs)")
      (simp_all add: copy_loop_rest Cons putc_def Let_def del: dropWhile_eq_Nil_conv dropWhile.simps takeWhile.simps)
qed

end
