(* ===== verification/Test_Table.thy ===== *)
theory Test_Table
  imports Irq_Wire Irq_Table
begin

text \<open>
  The repository's unit tests of the vector table (\<open>test/test_irq_vector_table.c\<close>) and of the message
  structures (\<open>test/test_interrupt_structs.c\<close>), as predicates over the model, and that the model passes them.
  Every test starts with the table that \<open>setUp\<close> makes; allocations succeed.
\<close>

section \<open>The vector table\<close>

definition easy_register_interrupt :: "table_t list \<Rightarrow> int \<Rightarrow> u16 \<Rightarrow> u16 \<Rightarrow> u32 \<Rightarrow> u32 \<Rightarrow> int \<times> table_t list" where
  "easy_register_interrupt tab sd crate irq vector payload =
     register_interrupt (\<lambda>_. True) tab sd
       \<lparr>s_crate = if crate = ANYCRATE then ANYCRATE else push_bit (unat crate) 1,
        s_irq = if irq = ANYIRQ then ANYIRQ else push_bit (unat irq) 1, s_vector = vector, s_payload = payload\<rparr>"

definition setUp_calls :: "(int \<times> u16 \<times> u16 \<times> u32 \<times> u32) list" where
  "setUp_calls =
     [(1, 1, 3, 0xFFFFFFDE, 1), (2, 2, 3, 0xFFFFFFDE, 2), (1, 2, 7, 0xDEADBEEF, 3), (2, 1, 7, 0xDEADBEEF, 4),
      (1, 1, 3, 0xFFFF0000, 5), (2, 2, 3, 0xFFFFABBA, 6), (1, ANYCRATE, 4, ANYVECTOR, 7), (2, 2, ANYIRQ, ANYVECTOR, 8)]"

definition setUp :: "table_t list" where
  "setUp = fold (\<lambda>(sd, crate, irq, vector, payload) tab. snd (easy_register_interrupt tab sd crate irq vector payload))
     setUp_calls []"

text \<open>Socket, crate, line, vector, payload; socket 0 is no match.\<close>

definition default_suite :: "(int \<times> nat \<times> nat \<times> u32 \<times> u32) list" where
  "default_suite =
     [(1, 5, 4, 0xF00DD00D, 7), (2, 2, 3, 0xFFFFFFDE, 2), (1, 1, 3, 0xFFFF0000, 5), (0, 5, 7, 0x87654321, 0),
      (2, 2, 1, 0x12345678, 8), (2, 2, 3, 0xFFFFABBA, 6), (1, 1, 3, 0xFFFFFFDE, 1), (0, 1, 2, 0x87654321, 0),
      (1, 2, 7, 0xDEADBEEF, 3), (2, 1, 7, 0xDEADBEEF, 4)]"

definition run_testsuite :: "(int \<times> nat \<times> nat \<times> u32 \<times> u32) list \<Rightarrow> table_t list \<Rightarrow> bool" where
  "run_testsuite suite tab \<longleftrightarrow>
     list_all (\<lambda>(socket, crate, irq, vec, payload).
       case find_interrupt tab \<lparr>s_crate = push_bit crate 1, s_irq = push_bit irq 1, s_vector = vec, s_payload = 0\<rparr> 0 of
         (sd, _, st) \<Rightarrow> socket = sd \<and> (sd \<noteq> 0 \<longrightarrow> payload = s_payload st)) suite"

definition test_setup :: bool where
  "test_setup \<longleftrightarrow>
     count_registered_interrupts setUp = 8 \<and>
     list_registered_interrupts setUp =
       [0x10, 0x98, 0xFE, 0x10, 0x10, 0x10, 0x10, 0x10, 0x10, 0x10, 0x10, 0x10, 0x10, 0x10, 0x10, 0x10]"

definition test_addchecking :: bool where
  "test_addchecking \<longleftrightarrow> fst (easy_register_interrupt setUp 1 3 4 0xDEADBEEF 115) = - EADDRINUSE"

definition test_simpledelete :: bool where
  "test_simpledelete \<longleftrightarrow>
     count_registered_interrupts
       (snd (release_interrupt setUp 2 \<lparr>s_crate = push_bit 1 1, s_irq = push_bit 7 1, s_vector = 0xDEADBEEF, s_payload = 0\<rparr>)) = 7"

definition test_simplelookup :: bool where
  "test_simplelookup \<longleftrightarrow> run_testsuite default_suite setUp"

text \<open>Four more registrations, found with their payloads, and their release in another order.\<close>

definition IRQS :: nat where "IRQS = 4"

definition resize_st :: "nat \<Rightarrow> selector" where
  "resize_st i = \<lparr>s_crate = 3, s_irq = ANYIRQ, s_vector = 0xFFFF0000 OR of_nat (i * 4), s_payload = of_nat (100 + i)\<rparr>"

fun resize_register :: "nat list \<Rightarrow> table_t list \<Rightarrow> table_t list option" where
  "resize_register [] tab = Some tab"
| "resize_register (i # is) tab =
     (case register_interrupt (\<lambda>_. True) tab 1 (resize_st i) of
        (err, tab) \<Rightarrow> if err \<noteq> 0 then None else resize_register is tab)"

fun resize_release :: "nat list \<Rightarrow> nat \<Rightarrow> table_t list \<Rightarrow> bool" where
  "resize_release [] total_irqs tab = True"
| "resize_release (i # is) total_irqs tab =
     (case release_interrupt tab 1 (resize_st i) of
        (err, tab) \<Rightarrow> err = 0 \<and> count_registered_interrupts tab = total_irqs - 1 \<and> resize_release is (total_irqs - 1) tab)"

definition test_resize :: bool where
  "test_resize \<longleftrightarrow>
     (case resize_register [0..<IRQS] setUp of
        None \<Rightarrow> False
      | Some tab \<Rightarrow>
          count_registered_interrupts tab = IRQS + 8 \<and>
          list_all (\<lambda>i. case find_interrupt tab (resize_st i\<lparr>s_payload := 0\<rparr>) 0 of
             (sd, _, st) \<Rightarrow> sd = 1 \<and> s_payload st = of_nat (100 + i)) [0..<IRQS] \<and>
          run_testsuite default_suite tab \<and>
          resize_release ([IRQS div 2..<IRQS] @ [0..<IRQS div 2]) (IRQS + 8) tab)"

section \<open>Numbers of bits\<close>

definition ilog2f_cases :: "(u32 \<times> int) list" where
  "ilog2f_cases =
     [(1133549021, 30), (2776, 11), (20, 4), (311437, 18), (1042257788, 29), (37025, 15), (133777, 17), (10850, 13),
      (10065178, 23), (4, 2), (18925048, 24), (16469105, 23), (3340, 11), (41174117, 25), (2028883, 20), (16637662, 23),
      (551203, 19), (423321454, 28), (47732, 15), (1197570, 20), (0, -1)]"

definition test_ilog2f :: bool where
  "test_ilog2f \<longleftrightarrow> list_all (\<lambda>(x, n). v120irqd_ilog2f x = n) ilog2f_cases"

section \<open>The hashed part of a selector\<close>

text \<open>Offsets in the structure, which a message holds behind its kind.\<close>

datatype sel_field = F_crate | F_irq | F_vector

definition voff :: "sel_field \<Rightarrow> nat" where
  "voff m = (case m of F_crate \<Rightarrow> 0 | F_irq \<Rightarrow> 2 | F_vector \<Rightarrow> 4)"

lemma voff_rb_selector:
  "rb_selector b =
     \<lparr>s_crate = rd16 b (4 + voff F_crate), s_irq = rd16 b (4 + voff F_irq), s_vector = rd32 b (4 + voff F_vector),
      s_payload = rd32 b 12\<rparr>"
  by (simp add: rb_selector_def voff_def)

definition test_irq_hashsize :: bool where
  "test_irq_hashsize \<longleftrightarrow>
     (let (start, stop) = (voff F_crate, voff F_vector + 4);
          (start, stop) = (if voff F_irq < start then (voff F_irq, stop) else (start, voff F_irq + 2));
          (start, stop) =
            (if voff F_vector < start then (voff F_irq, stop)
             else if stop \<le> voff F_vector then (start, voff F_vector + 4) else (start, stop)) in
      voff F_crate < voff F_irq \<and> voff F_irq < voff F_vector \<and> stop - start = 8)"

section \<open>The model passes\<close>

lemma test_irq_hashsize_passes: test_irq_hashsize
  by code_simp

lemma test_ilog2f_passes: test_ilog2f
  by (simp add: test_ilog2f_def ilog2f_cases_def v120irqd_ilog2f_def)

lemma test_setup_passes: test_setup
  by code_simp

lemma test_addchecking_passes: test_addchecking
  by code_simp

lemma test_simpledelete_passes: test_simpledelete
  by code_simp

lemma test_simplelookup_passes: test_simplelookup
  by code_simp

lemma test_resize_passes: test_resize
  by code_simp

end
