(* ===== verification/Test_Server.thy ===== *)
theory Test_Server
  imports Ex_Irq
begin

text \<open>
  The repository's tests of the dispatch service (\<open>test/test_server.c\<close>): three clients with the requests of
  \<open>irq_request_options\<close> against a daemon started with \<open>--novme\<close>. The tests are predicates over the client calls and
  the handlers of the daemon, and the model passes them. A connection has the same number at both ends.
\<close>

section \<open>Client and daemon together\<close>

definition test_env :: env where
  "test_env =
     \<lparr>e_status = (\<lambda>n. 0), e_vector = (\<lambda>n. 0), e_pid = 100, e_realloc = (\<lambda>n. True), e_fdalloc = (\<lambda>n. True),
      e_junk = replicate RB_SIZE 0, e_newrev = 0, e_beyond = \<lparr>p_fd = 0, p_events = 0, p_revents = 0\<rparr>,
      e_open = (\<lambda>n. False), e_irq_open = (\<lambda>n. -1), e_irqen = (\<lambda>n. 0),
      e_sock = \<lparr>se_unlink = 0, se_malloc = True, se_socket = 3, se_bind_fails = False, se_listen_fails = False,
        se_connect_fails = False\<rparr>, e_rtpriority = 0\<rparr>"

text \<open>The kernel of a client whose socket has these answers to read.\<close>

definition client_kern :: "int \<Rightarrow> recv list \<Rightarrow> kernel" where
  "client_kern sock rs = \<lparr>k_in = (\<lambda>s. if s = sock then rs else []), k_wr = (\<lambda>s. []), k_out = [], k_closed = []\<rparr>"

text \<open>What a call sends before it waits: the message of a call whose peer hangs up.\<close>

definition sent_by :: "(kernel \<Rightarrow> ('a \<times> kernel) outcome) \<Rightarrow> int \<Rightarrow> bytes option" where
  "sent_by call sock =
     (case call (client_kern sock [RecvMsg []]) of Done (r, k) \<Rightarrow> Some (snd (last (k_out k))) | _ \<Rightarrow> None)"

text \<open>
  The daemon handles one message of a client, with the acknowledgements that are on their way to it; the
  frames it sends are returned, and its sockets are idle again.
\<close>

definition idle_kern :: kernel where
  "idle_kern = \<lparr>k_in = (\<lambda>s. []), k_wr = (\<lambda>s. []), k_out = [], k_closed = []\<rparr>"

definition daemon_takes :: "nat \<Rightarrow> bytes \<Rightarrow> (int \<Rightarrow> recv list) \<Rightarrow> daemon \<Rightarrow> ((int \<times> bytes) list \<times> daemon) outcome" where
  "daemon_takes idx m acks d =
     (let sock = p_fd (d_fds d ! idx);
          d = d\<lparr>d_kern := (d_kern d)\<lparr>k_in := acks(sock := RecvMsg m # acks sock), k_out := []\<rparr>\<rparr> in
      obind (process_client test_env idx d) (\<lambda>d. Done (k_out (d_kern d), d\<lparr>d_kern := idle_kern\<rparr>)))"

text \<open>A client call: its message to the daemon, the first frame back, and the frames sent besides.\<close>

definition ask ::
  "(kernel \<Rightarrow> ('a \<times> kernel) outcome) \<Rightarrow> nat \<Rightarrow> (int \<Rightarrow> recv list) \<Rightarrow> daemon \<Rightarrow> ('a \<times> (int \<times> bytes) list \<times> daemon) option" where
  "ask call idx acks d =
     (let sock = p_fd (d_fds d ! idx) in
      case sent_by call sock of
        None \<Rightarrow> None
      | Some m \<Rightarrow>
          (case daemon_takes idx m acks d of
             Done ((s, g) # others, d) \<Rightarrow>
               (case call (client_kern s [RecvMsg g]) of
                  Done (r, k) \<Rightarrow> if s = sock then Some (r, others, d) else None
                | _ \<Rightarrow> None)
           | _ \<Rightarrow> None))"

definition no_acks :: "int \<Rightarrow> recv list" where "no_acks sock = []"

definition test_junk :: bytes where "test_junk = replicate RB_SIZE 0"

definition client_sock :: "nat \<Rightarrow> int" where "client_sock client = 10 + int client"

text \<open>Without crates the client's place in the list of descriptors follows the server's socket.\<close>

definition client_idx :: "nat \<Rightarrow> nat" where "client_idx client = client + 1"

definition request_of :: "nat \<Rightarrow> selector \<Rightarrow> daemon \<Rightarrow> (int \<times> daemon) option" where
  "request_of client req d =
     map_option (\<lambda>(e, _, d). (e, d)) (ask (\<lambda>k. v120irqd_request test_junk k (client_sock client) req) (client_idx client) no_acks d)"

definition release_of :: "nat \<Rightarrow> selector \<Rightarrow> daemon \<Rightarrow> (int \<times> daemon) option" where
  "release_of client req d =
     map_option (\<lambda>(e, _, d). (e, d)) (ask (\<lambda>k. v120irqd_release test_junk k (client_sock client) req) (client_idx client) no_acks d)"

definition status_of :: "nat \<Rightarrow> daemon \<Rightarrow> (int \<times> serverstatus) option" where
  "status_of client d =
     map_option (\<lambda>((e, st), _). (e, st))
       (ask (\<lambda>k. obind (v120irqd_status k (client_sock client) \<lparr>st_pid = 0, st_crates = 0, st_clients = 0, st_irq_requests = 0\<rparr>)
               (\<lambda>(e, st, k). Done ((e, st), k))) (client_idx client) no_acks d)"

section \<open>Set-up\<close>

definition total_requests :: nat where
  "total_requests = sum_list (map length irq_request_options)"

text \<open>The daemon after its start and the three connections.\<close>

definition connected :: "daemon outcome" where
  "connected =
     obind (initialize test_env ''nd''
       \<lparr>d_fds = [], d_len_crates = 0, d_len_pollfds = 0,
        d_settings = \<lparr>allowFakeIrq = False, debugMode = False, noDaemon = False, noVME = False\<rparr>, d_info = [], d_table = [],
        d_kern = idle_kern, d_accepts = map client_sock [0..<4], d_caughtsignal = 0, d_clock = 0\<rparr>) (\<lambda>(ret, d).
     obind (process_newclient test_env d) (\<lambda>d. obind (process_newclient test_env d) (process_newclient test_env)))"

fun register_client :: "nat \<Rightarrow> irq_request list \<Rightarrow> u32 \<Rightarrow> daemon \<Rightarrow> (u32 \<times> daemon) option" where
  "register_client client [] payload d = Some (payload, d)"
| "register_client client (rq # rqs) payload d =
     (case request_of client (request_selector rq payload) d of
        None \<Rightarrow> None
      | Some (err, d) \<Rightarrow> if err \<noteq> 0 then None else register_client client rqs (payload + 1) d)"

fun register_default_interrupts :: "nat \<Rightarrow> irq_request list list \<Rightarrow> u32 \<Rightarrow> daemon \<Rightarrow> daemon option" where
  "register_default_interrupts client [] payload d = Some d"
| "register_default_interrupts client (rqs # rest) payload d =
     Option.bind (register_client client rqs payload d) (\<lambda>(payload, d).
       register_default_interrupts (client + 1) rest payload d)"

definition setUp_server :: "daemon option" where
  "setUp_server =
     (case connected of Done d \<Rightarrow> register_default_interrupts 0 irq_request_options 0 d | _ \<Rightarrow> None)"

section \<open>The tests\<close>

definition requests_seen :: "nat \<Rightarrow> nat \<Rightarrow> daemon \<Rightarrow> bool" where
  "requests_seen client n d \<longleftrightarrow>
     (case status_of client d of Some (e, st) \<Rightarrow> e = 0 \<and> st_irq_requests st = of_nat n | None \<Rightarrow> False)"

definition test_connections :: "daemon \<Rightarrow> bool" where
  "test_connections d \<longleftrightarrow>
     (case status_of 0 d of
        Some (e, st) \<Rightarrow> e = 0 \<and> st_clients st = 3 \<and> st_crates st = 0 \<and> st_irq_requests st = of_nat total_requests
      | None \<Rightarrow> False)"

definition legal :: selector where
  "legal = \<lparr>s_crate = BIT 4, s_irq = BIT 5, s_vector = 0x12345678, s_payload = 0\<rparr>"

fun all_refused :: "selector list \<Rightarrow> daemon \<Rightarrow> daemon option" where
  "all_refused [] d = Some d"
| "all_refused (req # reqs) d =
     (case request_of 0 req d of Some (err, d) \<Rightarrow> if err = - EPERM then all_refused reqs d else None | None \<Rightarrow> None)"

definition test_illegal_request :: "daemon \<Rightarrow> bool" where
  "test_illegal_request d \<longleftrightarrow>
     (case all_refused [legal\<lparr>s_crate := 0\<rparr>, legal\<lparr>s_irq := BIT 8\<rparr>, legal\<lparr>s_irq := 0\<rparr>, legal\<lparr>s_irq := BIT 7\<rparr>] d of
        Some d \<Rightarrow> requests_seen 0 total_requests d
      | None \<Rightarrow> False)"

definition test_legal_removal :: "daemon \<Rightarrow> bool" where
  "test_legal_removal d \<longleftrightarrow>
     (case release_of 2 (request_selector (irq_request_options ! 2 ! 1) 0) d of
        Some (e, d) \<Rightarrow> e = 0 \<and> requests_seen 2 (total_requests - 1) d
      | None \<Rightarrow> False)"

definition test_illegal_removal :: "daemon \<Rightarrow> bool" where
  "test_illegal_removal d \<longleftrightarrow>
     (case release_of 1 (request_selector (irq_request_options ! 2 ! 1) 0) d of
        Some (e, d) \<Rightarrow> e = - EPERM \<and> requests_seen 1 total_requests d
      | None \<Rightarrow> False)"

text \<open>An alarm interrupts the wait.\<close>

definition test_alarm :: bool where
  "test_alarm \<longleftrightarrow>
     (case v120irqd_getinterrupt test_junk (client_kern (client_sock 0) [RecvErr EINTR]) (client_sock 0) legal of
        Done (r, _) \<Rightarrow> r = - EINTR | _ \<Rightarrow> False)"

definition concrete :: "(u16 \<times> u16 \<times> u32) list list" where
  "concrete =
     [[(BIT 0, BIT 1, 0xDEADBEEF), (BIT 0, BIT 1, 0xFEEDD00D), (BIT 0, BIT 1, 0x12345678), (BIT 0, BIT 3, 0x87654321)],
      [(BIT 5, BIT 7, 0xABCDEF10)],
      [(BIT 1, BIT 1, 0xDEADBEEF), (BIT 1, BIT 1, 0xFEEDD00D), (BIT 1, BIT 3, 0xCCAAACAC), (BIT 1, BIT 4, 0xBEEF1111)]]"

text \<open>
  Client 0 sends a fake interrupt; only the target gets a frame, which is the interrupt with the payload of
  its request, and its acknowledgement is the one the daemon has read.
\<close>

definition one_receipt :: "nat \<Rightarrow> u16 \<times> u16 \<times> u32 \<Rightarrow> u32 \<Rightarrow> daemon \<Rightarrow> daemon option" where
  "one_receipt tgt vec payload d =
     (case vec of (crate, irq, vector) \<Rightarrow>
        (let req = \<lparr>s_crate = crate, s_irq = irq, s_vector = vector, s_payload = 0\<rparr>;
             ack = snd (last (k_out (snd (v120irqd_ack test_junk (client_kern 0 []) (client_sock tgt)))));
             acks = no_acks(client_sock tgt := [RecvMsg ack]) in
         case ask (\<lambda>k. v120irqd_interrupt test_junk k (client_sock 0) req) (client_idx 0) acks d of
           Some (err, [(s, m)], d) \<Rightarrow>
             (case v120irqd_getinterrupt test_junk (client_kern s [RecvMsg m]) s req of
                Done (e, got, _) \<Rightarrow>
                  if err = 0 \<and> s = client_sock tgt \<and> e = 0 \<and> got = req\<lparr>s_payload := payload\<rparr> then Some d else None
              | _ \<Rightarrow> None)
         | _ \<Rightarrow> None))"

fun receipts :: "nat \<Rightarrow> (u16 \<times> u16 \<times> u32) list \<Rightarrow> u32 \<Rightarrow> daemon \<Rightarrow> (u32 \<times> daemon) option" where
  "receipts tgt [] payload d = Some (payload, d)"
| "receipts tgt (vec # vecs) payload d =
     Option.bind (one_receipt tgt vec payload d) (receipts tgt vecs (payload + 1))"

fun all_receipts :: "nat \<Rightarrow> (u16 \<times> u16 \<times> u32) list list \<Rightarrow> u32 \<Rightarrow> daemon \<Rightarrow> bool" where
  "all_receipts tgt [] payload d = True"
| "all_receipts tgt (vecs # rest) payload d =
     (case receipts tgt vecs payload d of Some (payload, d) \<Rightarrow> all_receipts (tgt + 1) rest payload d | None \<Rightarrow> False)"

definition test_irq_receipt :: "daemon \<Rightarrow> bool" where
  "test_irq_receipt d \<longleftrightarrow> all_receipts 0 concrete 0 d"

text \<open>The clients hang up, the last descriptor first each time; a new one then sees only itself.\<close>

definition tearDown :: "daemon \<Rightarrow> bool" where
  "tearDown d \<longleftrightarrow>
     (case obind (daemon_takes (client_idx 2) [] no_acks d) (\<lambda>(_, d).
           obind (daemon_takes (client_idx 1) [] no_acks d) (\<lambda>(_, d).
           obind (daemon_takes (client_idx 0) [] no_acks d) (\<lambda>(_, d). process_newclient test_env d))) of
        Done d \<Rightarrow>
          (case ask (\<lambda>k. obind (v120irqd_status k (client_sock 3) \<lparr>st_pid = 0, st_crates = 0, st_clients = 0, st_irq_requests = 0\<rparr>)
                       (\<lambda>(e, st, k). Done ((e, st), k))) 1 no_acks d of
             Some ((e, st), _) \<Rightarrow> e = 0 \<and> st_clients st = 1
           | None \<Rightarrow> False)
      | _ \<Rightarrow> False)"

section \<open>The model passes\<close>

lemma test_alarm_passes: test_alarm
  by (simp add: test_alarm_def client_kern_def v120irqd_getinterrupt_def v120_irqd_msg_recv_def sys_read_def)

text \<open>The state after the set-up: nine requests in the table of three clients.\<close>

definition request_calls :: "(int \<times> selector) list" where
  "request_calls =
     concat (map (\<lambda>(client, n, rqs). map (\<lambda>(i, rq). (client_sock client, request_selector rq (of_nat (n + i)))) (enumerate 0 rqs))
       (zip [0, 1, 2] (zip [0, 4, 5] irq_request_options)))"

definition server_table :: "table_t list" where
  "server_table = fold (\<lambda>(sock, sel) tab. snd (register_interrupt (\<lambda>_. True) tab sock sel)) request_calls []"

definition server_demo :: daemon where
  "server_demo =
     \<lparr>d_fds = map (\<lambda>fd. \<lparr>p_fd = fd, p_events = POLLIN, p_revents = 0\<rparr>) [3, 10, 11, 12], d_len_crates = 0, d_len_pollfds = 4,
      d_settings = \<lparr>allowFakeIrq = True, debugMode = True, noDaemon = False, noVME = True\<rparr>, d_info = [],
      d_table = server_table, d_kern = idle_kern, d_accepts = [13], d_caughtsignal = 0, d_clock = 0\<rparr>"

definition visible :: "daemon \<Rightarrow> pollfd list \<times> nat \<times> nat \<times> settings \<times> v120_info list \<times> table_t list \<times> int list \<times> int \<times> nat" where
  "visible d = (d_fds d, d_len_crates d, d_len_pollfds d, d_settings d, d_info d, d_table d, d_accepts d, d_caughtsignal d, d_clock d)"

lemma visible_eq: "visible d = visible e \<Longrightarrow> d_kern d = d_kern e \<Longrightarrow> d = (e :: daemon)"
  by (simp add: visible_def)

lemma ask_idle: "ask call idx acks d = Some (r, fs, d') \<Longrightarrow> d_kern d' = idle_kern"
  by (auto simp: ask_def daemon_takes_def Let_def obind_eq_Done split: option.splits outcome.splits list.splits if_splits)

lemma register_client_idle:
  "register_client client rqs payload d = Some (payload', d') \<Longrightarrow> d_kern d = idle_kern \<Longrightarrow> d_kern d' = idle_kern"
  by (induction client rqs payload d rule: register_client.induct)
    (auto simp: request_of_def dest: ask_idle split: option.splits if_splits)

lemma register_default_idle:
  "register_default_interrupts client rest payload d = Some d' \<Longrightarrow> d_kern d = idle_kern \<Longrightarrow> d_kern d' = idle_kern"
proof (induction rest arbitrary: client payload d)
  case (Cons rqs rest)
  then obtain q d1 where "register_client client rqs payload d = Some (q, d1)"
    "register_default_interrupts (client + 1) rest q d1 = Some d'"
    by (auto simp: bind_eq_Some_conv)
  then show ?case using Cons.IH Cons.prems(2) register_client_idle by blast
qed simp

lemma newclient_kern: "process_newclient test_env d = Done d' \<Longrightarrow> d_kern d' = d_kern d"
  by (auto simp: process_newclient_def configureClientSocket_def append_fd_def test_env_def Let_def obind_eq_Done
      split: list.splits if_splits)

lemma server_socket_kern: "configureServerSocket test_env d = Done d' \<Longrightarrow> d_kern d' = d_kern d"
  by (auto simp: configureServerSocket_def append_fd_def test_env_def Let_def split: if_splits)

lemma initialize_kern:
  assumes "initialize test_env keys d = Done (r, d')" "parseArgs (d_settings d) keys = Done s" "noVME s"
  shows "d_kern d' = d_kern d"
proof -
  obtain d1 where "configureServerSocket test_env (d\<lparr>d_settings := s\<rparr>) = Done d1" "d' = d1"
    using assms by (auto simp: initialize_def obind_eq_Done Let_def split: if_splits)
  then show ?thesis using server_socket_kern by fastforce
qed

lemma connected_idle:
  assumes "connected = Done d"
  shows "d_kern d = idle_kern"
proof -
  let ?s = "\<lparr>allowFakeIrq = False, debugMode = False, noDaemon = False, noVME = False\<rparr>"
  have keys: "parseArgs ?s ''nd'' = Done \<lparr>allowFakeIrq = True, debugMode = True, noDaemon = False, noVME = True\<rparr>"
    by code_simp
  obtain x where x: "initialize test_env ''nd''
       \<lparr>d_fds = [], d_len_crates = 0, d_len_pollfds = 0, d_settings = ?s, d_info = [], d_table = [], d_kern = idle_kern,
        d_accepts = map client_sock [0..<4], d_caughtsignal = 0, d_clock = 0\<rparr> = Done x"
    "(case x of (ret, d) \<Rightarrow> obind (process_newclient test_env d) (\<lambda>d. obind (process_newclient test_env d)
       (process_newclient test_env))) = Done d"
    using assms unfolding connected_def obind_eq_Done by blast
  obtain r d0 where d0: "x = (r, d0)" by (cases x)
  obtain d1 d2 where "process_newclient test_env d0 = Done d1" "process_newclient test_env d1 = Done d2"
    "process_newclient test_env d2 = Done d"
    using x(2) unfolding d0 prod.case obind_eq_Done by blast
  then have "d_kern d = d_kern d0" using newclient_kern by metis
  also have "\<dots> = idle_kern" using initialize_kern [OF x(1) [unfolded d0], unfolded daemon.simps, OF keys] by simp
  finally show ?thesis .
qed

lemma setUp_visible: "map_option (\<lambda>d. visible d = visible server_demo) setUp_server = Some True"
  by code_simp

lemma setUp_server_demo: "setUp_server = Some server_demo"
proof -
  obtain d where d: "setUp_server = Some d" "visible d = visible server_demo" using setUp_visible by auto
  obtain d0 where "connected = Done d0" "register_default_interrupts 0 irq_request_options 0 d0 = Some d"
    using d(1) unfolding setUp_server_def by (auto split: outcome.splits)
  then have "d_kern d = idle_kern" using connected_idle register_default_idle by blast
  then show ?thesis using d visible_eq [of d server_demo] by (simp add: server_demo_def)
qed

text \<open>All tests on that state.\<close>

lemma test_connections_passes: "test_connections server_demo" "test_illegal_request server_demo"
  by code_simp+

lemma test_removal_passes: "test_legal_removal server_demo" "test_illegal_removal server_demo"
  by code_simp+

lemma test_irq_receipt_passes: "test_irq_receipt server_demo"
  by code_simp

lemma tearDown_passes: "tearDown server_demo"
  by code_simp

end
